(* ===== verification/Prelude.thy ===== *)
theory Prelude
  imports Main "HOL-Library.AList"
begin

text \<open>
  Shared vocabulary of the development. Everything the services do to the outside (the
  Kubernetes API server, the LDAP directory, the file system) goes through operations that
  take the current world, of an arbitrary type, and return a result together with the new
  world. A Go function with results \<open>(T, error)\<close> returns \<open>Inl e\<close> for a non-nil error
  and \<open>Inr x\<close> otherwise. This theory holds that type, the loop \<open>for _, x := range xs\<close>
  with an early return on error, Go maps as association lists with distinct keys, the
  notion of an operation that keeps a part of the world, and the HTTP errors of the handlers.
\<close>

named_theorems keeps_rules
  "operations that leave a part of the world as it was"

section \<open>Fallible operations on the world\<close>

type_synonym ('w, 'e, 'a) action = "'w \<Rightarrow> ('e + 'a) \<times> 'w"

text \<open>A Go loop over a slice whose body may return an error, which ends the loop.\<close>

fun for_each :: "('a \<Rightarrow> ('w, 'e, unit) action) \<Rightarrow> 'a list \<Rightarrow> ('w, 'e, unit) action" where
  "for_each f [] w = (Inr (), w)"
| "for_each f (x # xs) w =
     (case f x w of
        (Inl e, w') \<Rightarrow> (Inl e, w')
      | (Inr _, w') \<Rightarrow> for_each f xs w')"

lemma for_each_invariant:
  assumes "\<And>x w. x \<in> set xs \<Longrightarrow> P w \<Longrightarrow> P (snd (f x w))" and "P w"
  shows "P (snd (for_each f xs w))"
  using assms
proof (induction xs arbitrary: w)
  case Nil
  then show ?case by simp
next
  case (Cons x xs)
  obtain r v where v: "f x w = (r, v)" by fastforce
  have "P v" using Cons.prems v by (metis list.set_intros(1) snd_conv)
  then have "P (snd (for_each f xs v))"
    by (rule Cons.IH [rotated]) (simp add: Cons.prems)
  then show ?case using v \<open>P v\<close> by (cases r) auto
qed

lemma for_each_append:
  "for_each f (xs @ ys) w =
     (case for_each f xs w of (Inl e, w') \<Rightarrow> (Inl e, w') | (Inr _, w') \<Rightarrow> for_each f ys w')"
  by (induction xs arbitrary: w) (auto split: prod.splits sum.splits)

text \<open>Two nested loops are one loop over the pairs, in the same order.\<close>

lemma for_each_nested:
  "for_each (\<lambda>x. for_each (f x) (g x)) xs w =
     for_each (\<lambda>(x, y). f x y) (concat (map (\<lambda>x. map (Pair x) (g x)) xs)) w"
proof (induction xs arbitrary: w)
  case Nil
  then show ?case by simp
next
  case (Cons x xs)
  have "for_each (\<lambda>(x, y). f x y) (map (Pair x) ys) v = for_each (f x) ys v" for ys v
    by (induction ys arbitrary: v) (auto split: prod.splits sum.splits)
  then show ?case
    using Cons by (auto simp: for_each_append split: prod.splits sum.splits)
qed

lemma for_each_map: "for_each f (map g xs) w = for_each (\<lambda>x. f (g x)) xs w"
  by (induction xs arbitrary: w) (auto split: prod.splits sum.splits)

lemma for_each_cong_state:
  assumes "\<And>x w. x \<in> set xs \<Longrightarrow> f x w = g x w"
  shows "for_each f xs w = for_each g xs w"
  using assms by (induction xs arbitrary: w) (auto split: prod.splits sum.splits)

text \<open>Induction over a loop that ran to its end: a loop invariant over the items left.\<close>

lemma for_each_success:
  assumes "for_each f xs w = (Inr u, w')"
    and "P xs w"
    and "\<And>x ys v v' r. x \<in> set xs \<Longrightarrow> P (x # ys) v \<Longrightarrow> f x v = (Inr r, v') \<Longrightarrow> P ys v'"
  shows "P [] w'"
  using assms
proof (induction xs arbitrary: w)
  case Nil
  then show ?case by simp
next
  case (Cons x xs)
  from Cons.prems(1) obtain v r where v: "f x w = (Inr r, v)" "for_each f xs v = (Inr u, w')"
    by (auto split: prod.splits sum.splits)
  have "P xs v" using Cons.prems(2,3) v(1) by (meson list.set_intros(1))
  then show ?case
    by (rule Cons.IH [OF v(2)]) (meson Cons.prems(3) list.set_intros(2))
qed

text \<open>A loop whose every body succeeds under an invariant runs to its end.\<close>

lemma for_each_total:
  assumes "P xs w"
    and "\<And>x ys v. x \<in> set xs \<Longrightarrow> P (x # ys) v \<Longrightarrow> \<exists>r v'. f x v = (Inr r, v') \<and> P ys v'"
  shows "\<exists>w'. for_each f xs w = (Inr (), w') \<and> P [] w'"
  using assms
proof (induction xs arbitrary: w)
  case Nil
  then show ?case by simp
next
  case (Cons x xs)
  from Cons.prems obtain r v where v: "f x w = (Inr r, v)" "P xs v"
    by (meson list.set_intros(1))
  have "\<exists>w'. for_each f xs v = (Inr (), w') \<and> P [] w'"
    by (rule Cons.IH [OF v(2)]) (meson Cons.prems(2) list.set_intros(2))
  then show ?case using v(1) by simp
qed

text \<open>A loop invariant over the items left, with what every way out of the loop gives.\<close>

lemma for_each_outcome:
  assumes "P xs w"
    and "\<And>x ys v. x \<in> set xs \<Longrightarrow> P (x # ys) v \<Longrightarrow>
      case f x v of (Inl e, v') \<Rightarrow> Q (Inl e) v' | (Inr _, v') \<Rightarrow> P ys v'"
    and "\<And>v. P [] v \<Longrightarrow> Q (Inr ()) v"
  shows "case for_each f xs w of (r, w') \<Rightarrow> Q r w'"
  using assms
proof (induction xs arbitrary: w)
  case Nil
  then show ?case by simp
next
  case (Cons x xs)
  obtain r v where v: "f x w = (r, v)" by fastforce
  have step: "case f x w of (Inl e, v') \<Rightarrow> Q (Inl e) v' | (Inr _, v') \<Rightarrow> P xs v'"
    using Cons.prems(1,2) by simp
  show ?case
  proof (cases r)
    case (Inl e)
    then show ?thesis using step v by simp
  next
    case (Inr y)
    then have "P xs v" using step v by simp
    then have "case for_each f xs v of (r, w') \<Rightarrow> Q r w'"
      by (rule Cons.IH) (use Cons.prems in auto)
    then show ?thesis using v Inr by simp
  qed
qed

section \<open>HTTP errors\<close>

text \<open>The huma error constructors the code uses, with the message they are given.\<close>

datatype http_error =
    Error401Unauthorized string
  | Error403Forbidden string
  | Error500InternalServerError string

fun http_status :: "http_error \<Rightarrow> nat" where
  "http_status (Error401Unauthorized msg) = 401"
| "http_status (Error403Forbidden msg) = 403"
| "http_status (Error500InternalServerError msg) = 500"

section \<open>Operations that keep a part of the world\<close>

text \<open>
  \<open>keeps f op\<close>: whatever \<open>op\<close> returns, the part \<open>f\<close> of the world is what it was before.
\<close>

definition keeps :: "('w \<Rightarrow> 'v) \<Rightarrow> ('w \<Rightarrow> 'r \<times> 'w) \<Rightarrow> bool" where
  "keeps f op \<longleftrightarrow> (\<forall>w. f (snd (op w)) = f w)"

lemma keepsI [intro?]: "(\<And>w. f (snd (op w)) = f w) \<Longrightarrow> keeps f op"
  by (simp add: keeps_def)

lemma keepsD: "keeps f op \<Longrightarrow> f (snd (op w)) = f w"
  by (simp add: keeps_def)

lemma keeps_eq: "keeps f op \<Longrightarrow> op w = (r, w') \<Longrightarrow> f w' = f w"
  by (metis keepsD snd_conv)

text \<open>A call whose result is passed on as it is; a call followed by another on success.\<close>

lemma pass_on:
  "(case p of (Inl e, w) \<Rightarrow> (Inl e, w) | (Inr x, w) \<Rightarrow> (Inr x, w)) = p"
  "(case q of (Inl e, w) \<Rightarrow> (Inl e, w) | (Inr _, w) \<Rightarrow> (Inr (), w)) = q"
  by (auto split: prod.splits sum.splits)

lemma keeps_case [keeps_rules]:
  assumes "keeps f m" and "\<And>e. keeps f (h e)" and "\<And>x. keeps f (g x)"
  shows "keeps f (\<lambda>w. case m w of (Inl e, w') \<Rightarrow> h e w' | (Inr x, w') \<Rightarrow> g x w')"
proof
  fix w
  obtain r v where m: "m w = (r, v)" by fastforce
  then show "f (snd (case m w of (Inl e, w') \<Rightarrow> h e w' | (Inr x, w') \<Rightarrow> g x w')) = f w"
    using keeps_eq [OF assms(1) m] assms(2,3) by (cases r) (simp_all add: keepsD)
qed

lemma keeps_pure [keeps_rules]: "keeps f (\<lambda>w. (r, w))"
  by (simp add: keeps_def)

lemma keeps_if [keeps_rules]: "keeps f m \<Longrightarrow> keeps f n \<Longrightarrow> keeps f (\<lambda>w. if b then m w else n w)"
  by (simp add: keeps_def)

lemma keeps_for_each:
  "(\<And>x. x \<in> set xs \<Longrightarrow> keeps f (g x)) \<Longrightarrow> keeps f (for_each g xs)"
  by (rule keepsI, rule for_each_invariant [where P = "\<lambda>v. f v = f w" for w])
     (simp_all add: keepsD)

section \<open>Go maps\<close>

text \<open>
  A Go map is an association list with distinct keys; \<open>AList.update\<close> is \<open>m[k] = v\<close>,
  \<open>AList.delete\<close> is the builtin \<open>delete\<close>, \<open>map_of\<close> is the lookup. The order in which
  \<open>range\<close> visits the keys is not specified by the language, so a loop over a map takes a
  function that orders the list of keys. \<open>from_pairs\<close> is the loop that fills a map.
\<close>

type_synonym ('k, 'v) gomap = "('k \<times> 'v) list"

definition from_pairs :: "('a \<Rightarrow> 'k) \<Rightarrow> 'a list \<Rightarrow> ('k, 'a) gomap" where
  "from_pairs key xs = fold (\<lambda>x m. AList.update (key x) x m) xs []"

definition range_entries :: "('k list \<Rightarrow> 'k list) \<Rightarrow> ('k, 'v) gomap \<Rightarrow> ('k \<times> 'v) list" where
  "range_entries ord m = List.map_filter (\<lambda>k. map_option (Pair k) (map_of m k)) (ord (map fst m))"

text \<open>What the language promises of the order: each key is visited once.\<close>

definition visits_each :: "('k list \<Rightarrow> 'k list) \<Rightarrow> bool" where
  "visits_each ord \<longleftrightarrow> (\<forall>ks. distinct ks \<longrightarrow> distinct (ord ks) \<and> set (ord ks) = set ks)"

lemma visits_each_id: "visits_each (\<lambda>ks. ks)"
  by (simp add: visits_each_def)

lemma from_pairs_distinct: "distinct (map fst (from_pairs key xs))"
proof -
  have "distinct (map fst m) \<Longrightarrow> distinct (map fst (fold (\<lambda>x m. AList.update (key x) x m) xs m))" for m
    by (induction xs arbitrary: m) (auto intro: distinct_update)
  then show ?thesis by (simp add: from_pairs_def)
qed

lemma from_pairs_fold:
  "map_of (fold (\<lambda>x m. AList.update (key x) x m) xs m) k =
     (case find (\<lambda>x. key x = k) (rev xs) of Some x \<Rightarrow> Some x | None \<Rightarrow> map_of m k)"
proof (induction xs rule: rev_induct)
  case Nil
  then show ?case by simp
next
  case (snoc x xs)
  then show ?case by (auto simp: update_conv' split: option.splits)
qed

lemma map_of_from_pairs: "map_of (from_pairs key xs) k = find (\<lambda>x. key x = k) (rev xs)"
  by (simp add: from_pairs_def from_pairs_fold split: option.splits)

lemma map_of_from_pairs_Some: "map_of (from_pairs key xs) k = Some x \<Longrightarrow> x \<in> set xs \<and> key x = k"
  by (auto simp: map_of_from_pairs find_Some_iff in_set_conv_nth rev_nth)
     (metis Suc_diff_Suc diff_Suc_less length_greater_0_conv less_imp_Suc_add list.size(3) not_less_zero)

lemma map_of_from_pairs_None: "map_of (from_pairs key xs) k = None \<longleftrightarrow> (\<forall>x\<in>set xs. key x \<noteq> k)"
  by (auto simp: map_of_from_pairs find_None_iff)

lemma map_of_from_pairs_distinct:
  assumes "distinct (map key xs)" and "x \<in> set xs"
  shows "map_of (from_pairs key xs) (key x) = Some x"
proof -
  obtain y where y: "map_of (from_pairs key xs) (key x) = Some y"
    using assms(2) map_of_from_pairs_None [of key xs "key x"] by fastforce
  then have "y \<in> set xs" "key y = key x" using map_of_from_pairs_Some by metis+
  then have "y = x" using assms by (metis distinct_map inj_onD)
  then show ?thesis using y by simp
qed

lemma range_entries_iff:
  "visits_each ord \<Longrightarrow> distinct (map fst m) \<Longrightarrow> (k, v) \<in> set (range_entries ord m) \<longleftrightarrow> map_of m k = Some v"
proof -
  assume "visits_each ord" "distinct (map fst m)"
  then have "set (ord (map fst m)) = fst ` set m"
    by (metis list.set_map visits_each_def)
  moreover have "map_of m k = Some v \<Longrightarrow> k \<in> fst ` set m"
    by (metis image_eqI fst_conv map_of_SomeD)
  ultimately show ?thesis
    by (auto simp: range_entries_def map_filter_def image_iff)
qed

lemma fst_range_entries:
  assumes "visits_each ord" "distinct (map fst m)"
  shows "map fst (range_entries ord m) = ord (map fst m)"
proof -
  have "\<forall>k\<in>set ks. \<exists>v. f k = Some v \<Longrightarrow>
      map fst (List.map_filter (\<lambda>k. map_option (Pair k) (f k)) ks) = ks"
    for ks and f :: "'a \<Rightarrow> 'b option"
    by (induction ks) (auto simp: map_filter_simps)
  moreover have "\<forall>k\<in>set (ord (map fst m)). \<exists>v. map_of m k = Some v"
    using assms by (metis list.set_map map_of_eq_None_iff not_Some_eq visits_each_def)
  ultimately show ?thesis by (simp add: range_entries_def)
qed

lemma distinct_range_entries:
  assumes "visits_each ord" "distinct (map fst m)"
  shows "distinct (map fst (range_entries ord m))"
  using assms by (simp add: fst_range_entries visits_each_def)

end
