(* ===== verification/KubeTypes.thy ===== *)
theory KubeTypes
  imports Prelude "HOL-Library.Word"
begin

text \<open>
  The Kubernetes objects the services read and write, with the fields they use: the custom
  resource \<open>LdapGroupBinding\<close> of \<open>k8s/api/rbac.kerbernetes.io/v1/types.go\<close>, and the
  client-go types \<open>ServiceAccount\<close>, \<open>TokenRequest\<close>, \<open>ClusterRoleBinding\<close> and
  \<open>RoleBinding\<close>. The last two have the same fields and are one record here.

  The API server is not part of the repository. It is a parameter, a record of the typed
  clients' methods, each an operation on an arbitrary world. What the code relies on is
  stated as predicates on these methods and on a view of the world (which objects are
  stored): they are the documented semantics of create, get, list, update and delete.
  Results of a failed call are not constrained, except that a call about one object
  never changes another one.
\<close>

section \<open>The custom resource\<close>

type_synonym goint = "64 word"

record TypeMeta =
  tm_Kind :: string
  tm_APIVersion :: string

record ObjectMeta =
  om_Name :: string
  om_Namespace :: string
  om_Labels :: "(string, string) gomap"

record LdapGroupBindingItem =
  item_Kind :: string
  item_Name :: string
  item_Namespace :: string
  item_ApiGroup :: string

record LdapGroupBindingSpec =
  spec_LdapGroupDN :: string
  spec_Bindings :: "LdapGroupBindingItem list"

record LdapGroupBinding =
  lgb_TypeMeta :: TypeMeta
  lgb_ObjectMeta :: ObjectMeta
  lgb_Spec :: LdapGroupBindingSpec

abbreviation lgb_Name :: "LdapGroupBinding \<Rightarrow> string" where
  "lgb_Name b \<equiv> om_Name (lgb_ObjectMeta b)"

abbreviation lgb_items :: "LdapGroupBinding \<Rightarrow> LdapGroupBindingItem list" where
  "lgb_items b \<equiv> spec_Bindings (lgb_Spec b)"

section \<open>Objects of the client library\<close>

record Subject =
  sub_Kind :: string
  sub_APIGroup :: string
  sub_Name :: string
  sub_Namespace :: string

record RoleRef =
  rr_APIGroup :: string
  rr_Kind :: string
  rr_Name :: string

record rbac_binding =
  rb_ObjectMeta :: ObjectMeta
  rb_Subjects :: "Subject list"
  rb_RoleRef :: RoleRef

abbreviation rb_Name :: "rbac_binding \<Rightarrow> string" where
  "rb_Name b \<equiv> om_Name (rb_ObjectMeta b)"

abbreviation rb_Namespace :: "rbac_binding \<Rightarrow> string" where
  "rb_Namespace b \<equiv> om_Namespace (rb_ObjectMeta b)"

record ServiceAccount =
  sa_ObjectMeta :: ObjectMeta

abbreviation sa_Name :: "ServiceAccount \<Rightarrow> string" where
  "sa_Name a \<equiv> om_Name (sa_ObjectMeta a)"

record TokenRequestSpec =
  trs_Audiences :: "string list"
  trs_ExpirationSeconds :: "goint option"

record TokenRequestStatus =
  tst_Token :: string
  tst_ExpirationTimestamp :: int

record TokenRequest =
  tr_Spec :: TokenRequestSpec
  tr_Status :: TokenRequestStatus

section \<open>The typed clients\<close>

text \<open>
  An error of the API server is opaque; the code only asks \<open>errors.IsNotFound\<close>. The type
  \<open>'s\<close> is what selects the client: the namespace for \<open>RoleBindings(ns)\<close>, nothing for
  \<open>ClusterRoleBindings()\<close>.
\<close>

datatype api_error = ApiError string

record ('w, 's) rbac_client =
  rc_List :: "'s \<Rightarrow> string \<Rightarrow> ('w, api_error, rbac_binding list) action"
  rc_Get :: "'s \<Rightarrow> string \<Rightarrow> ('w, api_error, rbac_binding) action"
  rc_Create :: "'s \<Rightarrow> rbac_binding \<Rightarrow> ('w, api_error, rbac_binding) action"
  rc_Update :: "'s \<Rightarrow> rbac_binding \<Rightarrow> ('w, api_error, rbac_binding) action"
  rc_Delete :: "'s \<Rightarrow> string \<Rightarrow> ('w, api_error, unit) action"

record 'w sa_client =
  sc_Get :: "string \<Rightarrow> string \<Rightarrow> ('w, api_error, ServiceAccount) action"
  sc_Create :: "string \<Rightarrow> ServiceAccount \<Rightarrow> ('w, api_error, ServiceAccount) action"
  sc_CreateToken :: "string \<Rightarrow> string \<Rightarrow> TokenRequest \<Rightarrow> ('w, api_error, TokenRequest) action"

record 'w Clientset =
  cs_ServiceAccounts :: "'w sa_client"
  cs_ClusterRoleBindings :: "('w, unit) rbac_client"
  cs_RoleBindings :: "('w, string) rbac_client"
  cs_IsNotFound :: "api_error \<Rightarrow> bool"

section \<open>What the API server promises\<close>

type_synonym ('w, 's) rbac_view = "'w \<Rightarrow> 's \<times> string \<Rightarrow> rbac_binding option"

record 'w KubeView =
  v_SA :: "'w \<Rightarrow> string \<times> string \<Rightarrow> ServiceAccount option"
  v_CRB :: "('w, unit) rbac_view"
  v_RB :: "('w, string) rbac_view"

definition has_label :: "string \<Rightarrow> string \<Rightarrow> rbac_binding \<Rightarrow> bool" where
  "has_label l v b \<longleftrightarrow> map_of (om_Labels (rb_ObjectMeta b)) l = Some v"

text \<open>
  What the server stores for a submitted object: it may add labels and default an empty API
  group of the role reference, and keeps the rest.
\<close>

definition stored_as :: "rbac_binding \<Rightarrow> rbac_binding \<Rightarrow> bool" where
  "stored_as b b' \<longleftrightarrow>
     rb_Name b' = rb_Name b \<and>
     (\<forall>l v. has_label l v b \<longrightarrow> has_label l v b') \<and>
     rb_Subjects b' = rb_Subjects b \<and>
     rr_Kind (rb_RoleRef b') = rr_Kind (rb_RoleRef b) \<and>
     rr_Name (rb_RoleRef b') = rr_Name (rb_RoleRef b) \<and>
     (rr_APIGroup (rb_RoleRef b) \<noteq> '''' \<longrightarrow> rr_APIGroup (rb_RoleRef b') = rr_APIGroup (rb_RoleRef b))"

text \<open>
  The promises for one kind of object. \<open>ns\<close> gives the namespace of a scope, \<open>all\<close> is the
  scope that lists every object. Stored objects carry their key.
\<close>

definition rbac_keyed :: "('s \<Rightarrow> string) \<Rightarrow> ('w, 's) rbac_view \<Rightarrow> bool" where
  "rbac_keyed ns view \<longleftrightarrow>
     (\<forall>w s n b. view w (s, n) = Some b \<longrightarrow> rb_Name b = n \<and> rb_Namespace b = ns s)"

text \<open>
  Get and list do not write; a successful get returns the stored object; a successful list by
  the selector \<open>label=value\<close> returns exactly the objects with that label, once each.
\<close>

definition rbac_reads :: "('w, 's) rbac_client \<Rightarrow> ('w, 's) rbac_view \<Rightarrow> bool" where
  "rbac_reads cl view \<longleftrightarrow>
     (\<forall>s sel. keeps view (rc_List cl s sel)) \<and>
     (\<forall>s n. keeps view (rc_Get cl s n)) \<and>
     (\<forall>w s n b. fst (rc_Get cl s n w) = Inr b \<longrightarrow> view w (s, n) = Some b)"

definition rbac_lists :: "'s \<Rightarrow> ('w, 's) rbac_client \<Rightarrow> ('w, 's) rbac_view \<Rightarrow> bool" where
  "rbac_lists all cl view \<longleftrightarrow>
     (\<forall>w l v bs. CHR ''='' \<notin> set l \<longrightarrow> CHR ''='' \<notin> set v \<longrightarrow>
        fst (rc_List cl all (l @ ''='' @ v) w) = Inr bs \<longrightarrow>
        distinct (map (\<lambda>b. (rb_Namespace b, rb_Name b)) bs) \<and>
        set bs = {b. has_label l v b \<and> (\<exists>k. view w k = Some b)})"

text \<open>Create, update and delete touch no other object, even when they fail.\<close>

definition rbac_frames :: "('w, 's) rbac_client \<Rightarrow> ('w, 's) rbac_view \<Rightarrow> bool" where
  "rbac_frames cl view \<longleftrightarrow>
     (\<forall>s b k. k \<noteq> (s, rb_Name b) \<longrightarrow> keeps (\<lambda>w. view w k) (rc_Create cl s b)) \<and>
     (\<forall>s b k. k \<noteq> (s, rb_Name b) \<longrightarrow> keeps (\<lambda>w. view w k) (rc_Update cl s b)) \<and>
     (\<forall>s n k. k \<noteq> (s, n) \<longrightarrow> keeps (\<lambda>w. view w k) (rc_Delete cl s n))"

text \<open>
  Create succeeds only on an absent name; update succeeds only on a present object and never
  changes the role reference, which is immutable; a deleted object is gone.
\<close>

definition rbac_writes :: "('w, 's) rbac_client \<Rightarrow> ('w, 's) rbac_view \<Rightarrow> bool" where
  "rbac_writes cl view \<longleftrightarrow>
     (\<forall>w w' s b b'. rc_Create cl s b w = (Inr b', w') \<longrightarrow>
        view w (s, rb_Name b) = None \<and> view w' (s, rb_Name b) = Some b' \<and> stored_as b b') \<and>
     (\<forall>w w' s b b'. rc_Update cl s b w = (Inr b', w') \<longrightarrow>
        (\<exists>old. view w (s, rb_Name b) = Some old \<and> rb_RoleRef b' = rb_RoleRef old) \<and>
        view w' (s, rb_Name b) = Some b' \<and> stored_as b b') \<and>
     (\<forall>w w' s n. rc_Delete cl s n w = (Inr (), w') \<longrightarrow> view w' (s, n) = None)"

definition rbac_api ::
  "('s \<Rightarrow> string) \<Rightarrow> 's \<Rightarrow> ('w, 's) rbac_client \<Rightarrow> ('w, 's) rbac_view \<Rightarrow> bool" where
  "rbac_api ns all cl view \<longleftrightarrow>
     rbac_keyed ns view \<and> rbac_reads cl view \<and> rbac_lists all cl view \<and>
     rbac_frames cl view \<and> rbac_writes cl view"

text \<open>A server that is reachable: requests that are valid succeed.\<close>

definition rbac_live ::
  "('s \<Rightarrow> rbac_binding \<Rightarrow> bool) \<Rightarrow> 's \<Rightarrow> ('w, 's) rbac_client \<Rightarrow> ('w, 's) rbac_view \<Rightarrow> bool" where
  "rbac_live admits all cl view \<longleftrightarrow>
     (\<forall>w sel. \<exists>bs. fst (rc_List cl all sel w) = Inr bs) \<and>
     (\<forall>w s n b. view w (s, n) = Some b \<longrightarrow> fst (rc_Get cl s n w) = Inr b) \<and>
     (\<forall>w s b. admits s b \<longrightarrow> view w (s, rb_Name b) = None \<longrightarrow>
        (\<exists>b'. fst (rc_Create cl s b w) = Inr b')) \<and>
     (\<forall>w s b old. admits s b \<longrightarrow> view w (s, rb_Name b) = Some old \<longrightarrow>
        rb_RoleRef b = rb_RoleRef old \<longrightarrow> (\<exists>b'. fst (rc_Update cl s b w) = Inr b')) \<and>
     (\<forall>w s n. view w (s, n) \<noteq> None \<longrightarrow> fst (rc_Delete cl s n w) = Inr ())"

text \<open>
  A create of a name that is taken and an update that would change the role of a role reference
  are refused before anything is stored.
\<close>

definition rbac_refuses :: "('w, 's) rbac_client \<Rightarrow> ('w, 's) rbac_view \<Rightarrow> bool" where
  "rbac_refuses cl view \<longleftrightarrow>
     (\<forall>w s b old. view w (s, rb_Name b) = Some old \<longrightarrow>
        view (snd (rc_Create cl s b w)) (s, rb_Name b) = Some old) \<and>
     (\<forall>w s b old. view w (s, rb_Name b) = Some old \<longrightarrow> rr_Name (rb_RoleRef b) \<noteq> rr_Name (rb_RoleRef old) \<longrightarrow>
        view (snd (rc_Update cl s b w)) (s, rb_Name b) = Some old)"

definition sa_api :: "'w Clientset \<Rightarrow> ('w \<Rightarrow> string \<times> string \<Rightarrow> ServiceAccount option) \<Rightarrow> bool" where
  "sa_api K view \<longleftrightarrow>
     (\<forall>w ns n a. view w (ns, n) = Some a \<longrightarrow> sa_Name a = n) \<and>
     (\<forall>ns n. keeps view (sc_Get (cs_ServiceAccounts K) ns n)) \<and>
     (\<forall>ns n t. keeps view (sc_CreateToken (cs_ServiceAccounts K) ns n t)) \<and>
     (\<forall>w ns n a. fst (sc_Get (cs_ServiceAccounts K) ns n w) = Inr a \<longrightarrow> view w (ns, n) = Some a) \<and>
     (\<forall>w ns n e. fst (sc_Get (cs_ServiceAccounts K) ns n w) = Inl e \<longrightarrow> cs_IsNotFound K e \<longrightarrow>
        view w (ns, n) = None) \<and>
     (\<forall>ns a k. k \<noteq> (ns, sa_Name a) \<longrightarrow> keeps (\<lambda>w. view w k) (sc_Create (cs_ServiceAccounts K) ns a)) \<and>
     (\<forall>w w' ns a a'. sc_Create (cs_ServiceAccounts K) ns a w = (Inr a', w') \<longrightarrow>
        view w (ns, sa_Name a) = None \<and> view w' (ns, sa_Name a) = Some a')"

text \<open>Calls on one resource do not change the objects of another.\<close>

definition rbac_client_keeps :: "('w \<Rightarrow> 'v) \<Rightarrow> ('w, 's) rbac_client \<Rightarrow> bool" where
  "rbac_client_keeps f cl \<longleftrightarrow>
     (\<forall>s sel. keeps f (rc_List cl s sel)) \<and> (\<forall>s n. keeps f (rc_Get cl s n)) \<and>
     (\<forall>s b. keeps f (rc_Create cl s b)) \<and> (\<forall>s b. keeps f (rc_Update cl s b)) \<and>
     (\<forall>s n. keeps f (rc_Delete cl s n))"

definition sa_client_keeps :: "('w \<Rightarrow> 'v) \<Rightarrow> 'w sa_client \<Rightarrow> bool" where
  "sa_client_keeps f cl \<longleftrightarrow>
     (\<forall>ns n. keeps f (sc_Get cl ns n)) \<and> (\<forall>ns a. keeps f (sc_Create cl ns a)) \<and>
     (\<forall>ns n t. keeps f (sc_CreateToken cl ns n t))"

definition kube_api :: "'w Clientset \<Rightarrow> 'w KubeView \<Rightarrow> bool" where
  "kube_api K V \<longleftrightarrow>
     rbac_api (\<lambda>_. '''') () (cs_ClusterRoleBindings K) (v_CRB V) \<and>
     rbac_api (\<lambda>ns. ns) '''' (cs_RoleBindings K) (v_RB V) \<and>
     sa_api K (v_SA V) \<and>
     rbac_client_keeps (v_RB V) (cs_ClusterRoleBindings K) \<and>
     rbac_client_keeps (v_SA V) (cs_ClusterRoleBindings K) \<and>
     rbac_client_keeps (v_CRB V) (cs_RoleBindings K) \<and>
     rbac_client_keeps (v_SA V) (cs_RoleBindings K) \<and>
     sa_client_keeps (v_CRB V) (cs_ServiceAccounts K) \<and>
     sa_client_keeps (v_RB V) (cs_ServiceAccounts K)"

section \<open>The promises as rules\<close>

lemma rbac_api_key: "rbac_api ns all cl view \<Longrightarrow> view w (s, n) = Some b \<Longrightarrow> rb_Name b = n \<and> rb_Namespace b = ns s"
  by (simp add: rbac_api_def rbac_keyed_def)

lemma rbac_api_reads:
  assumes "rbac_api ns all cl view"
  shows "keeps view (rc_List cl s sel)" "keeps view (rc_Get cl s n)"
  using assms by (simp_all add: rbac_api_def rbac_reads_def)

lemma rbac_api_get: "rbac_api ns all cl view \<Longrightarrow> rc_Get cl s n w = (Inr b, w') \<Longrightarrow> view w (s, n) = Some b"
  by (metis fst_conv rbac_api_def rbac_reads_def)

lemma rbac_api_list:
  assumes "rbac_api ns all cl view" "rc_List cl all (l @ ''='' @ v) w = (Inr bs, w')"
    "CHR ''='' \<notin> set l" "CHR ''='' \<notin> set v"
  shows "distinct (map (\<lambda>b. (rb_Namespace b, rb_Name b)) bs)"
    and "set bs = {b. has_label l v b \<and> (\<exists>k. view w k = Some b)}"
proof -
  have "fst (rc_List cl all (l @ ''='' @ v) w) = Inr bs" using assms(2) by simp
  with assms(1,3,4) show "distinct (map (\<lambda>b. (rb_Namespace b, rb_Name b)) bs)"
    and "set bs = {b. has_label l v b \<and> (\<exists>k. view w k = Some b)}"
    by (simp_all add: rbac_api_def rbac_lists_def)
qed

lemma rbac_api_frame:
  assumes "rbac_api ns all cl view"
  shows "k \<noteq> (s, rb_Name b) \<Longrightarrow> keeps (\<lambda>w. view w k) (rc_Create cl s b)"
    and "k \<noteq> (s, rb_Name b) \<Longrightarrow> keeps (\<lambda>w. view w k) (rc_Update cl s b)"
    and "k \<noteq> (s, n) \<Longrightarrow> keeps (\<lambda>w. view w k) (rc_Delete cl s n)"
  using assms by (simp_all add: rbac_api_def rbac_frames_def del: split_paired_All)

lemma rbac_api_create:
  assumes "rbac_api ns all cl view" "rc_Create cl s b w = (Inr b', w')"
  shows "view w (s, rb_Name b) = None" "view w' (s, rb_Name b) = Some b'" "stored_as b b'"
  using assms by (auto simp: rbac_api_def rbac_writes_def)

lemma rbac_api_update:
  assumes "rbac_api ns all cl view" "rc_Update cl s b w = (Inr b', w')"
  shows "\<exists>old. view w (s, rb_Name b) = Some old \<and> rb_RoleRef b' = rb_RoleRef old"
    "view w' (s, rb_Name b) = Some b'" "stored_as b b'"
  using assms by (auto simp: rbac_api_def rbac_writes_def)

lemma rbac_api_delete: "rbac_api ns all cl view \<Longrightarrow> rc_Delete cl s n w = (Inr (), w') \<Longrightarrow> view w' (s, n) = None"
  by (auto simp: rbac_api_def rbac_writes_def)

text \<open>
  Update reads the object and submits it changed: only that object changes, and on success
  it was there and is now the changed object as the server stores it.
\<close>

lemma get_update_frame:
  assumes api: "rbac_api ns all cl view" and k: "k \<noteq> (s, n)"
  shows "keeps (\<lambda>w. view w k)
    (\<lambda>w. case rc_Get cl s n w of (Inl e, w1) \<Rightarrow> (Inl e, w1)
       | (Inr b, w1) \<Rightarrow> (case rc_Update cl s (b\<lparr>rb_RoleRef := r b, rb_Subjects := x b\<rparr>) w1 of
            (Inl e, w2) \<Rightarrow> (Inl e, w2) | (Inr c, w2) \<Rightarrow> (Inr c, w2)))"
proof
  fix w
  obtain g v where g: "rc_Get cl s n w = (g, v)" by fastforce
  have v: "view v = view w" using keeps_eq [OF rbac_api_reads(2) [OF api] g] .
  show "view (snd (case rc_Get cl s n w of (Inl e, w1) \<Rightarrow> (Inl e, w1)
       | (Inr b, w1) \<Rightarrow> (case rc_Update cl s (b\<lparr>rb_RoleRef := r b, rb_Subjects := x b\<rparr>) w1 of
            (Inl e, w2) \<Rightarrow> (Inl e, w2) | (Inr c, w2) \<Rightarrow> (Inr c, w2)))) k = view w k"
  proof (cases g)
    case (Inl e)
    then show ?thesis using g v by simp
  next
    case (Inr b)
    then have "rb_Name b = n"
      using rbac_api_get [OF api] rbac_api_key [OF api] g by metis
    then show ?thesis
      using g v Inr k keepsD [OF rbac_api_frame(2) [OF api, of k s "b\<lparr>rb_RoleRef := r b, rb_Subjects := x b\<rparr>"], of v]
      by (simp add: pass_on)
  qed
qed

lemma get_update_ok:
  assumes api: "rbac_api ns all cl view"
    and run: "(case rc_Get cl s n w of (Inl e, w1) \<Rightarrow> (Inl e, w1)
       | (Inr b, w1) \<Rightarrow> (case rc_Update cl s (b\<lparr>rb_RoleRef := r b, rb_Subjects := x b\<rparr>) w1 of
            (Inl e, w2) \<Rightarrow> (Inl e, w2) | (Inr c, w2) \<Rightarrow> (Inr c, w2))) = (Inr c, w')"
  shows "\<exists>b. view w (s, n) = Some b \<and> view w' (s, n) = Some c \<and>
    stored_as (b\<lparr>rb_RoleRef := r b, rb_Subjects := x b\<rparr>) c \<and> rb_RoleRef c = rb_RoleRef b"
proof -
  obtain b v where g: "rc_Get cl s n w = (Inr b, v)"
    and u: "rc_Update cl s (b\<lparr>rb_RoleRef := r b, rb_Subjects := x b\<rparr>) v = (Inr c, w')"
    using run by (auto split: prod.splits sum.splits)
  have "view v = view w" using keeps_eq [OF rbac_api_reads(2) [OF api] g] .
  moreover have "view w (s, n) = Some b" using rbac_api_get [OF api g] .
  moreover from this have "rb_Name b = n" using rbac_api_key [OF api] by metis
  ultimately show ?thesis using rbac_api_update [OF api u] by auto
qed

lemma rbac_refusesD:
  assumes "rbac_refuses cl view" and "view w (s, rb_Name b) = Some old"
  shows "view (snd (rc_Create cl s b w)) (s, rb_Name b) = Some old"
    and "rr_Name (rb_RoleRef b) \<noteq> rr_Name (rb_RoleRef old) \<Longrightarrow>
      view (snd (rc_Update cl s b w)) (s, rb_Name b) = Some old"
  using assms by (simp_all add: rbac_refuses_def)

lemma rbac_liveD:
  assumes "rbac_live admits all cl view"
  shows "\<exists>bs. fst (rc_List cl all sel w) = Inr bs"
    and "view w (s, n) = Some b \<Longrightarrow> fst (rc_Get cl s n w) = Inr b"
    and "admits s b \<Longrightarrow> view w (s, rb_Name b) = None \<Longrightarrow> \<exists>b'. fst (rc_Create cl s b w) = Inr b'"
    and "admits s b \<Longrightarrow> view w (s, rb_Name b) = Some old \<Longrightarrow> rb_RoleRef b = rb_RoleRef old \<Longrightarrow>
      \<exists>b'. fst (rc_Update cl s b w) = Inr b'"
    and "view w (s, n) \<noteq> None \<Longrightarrow> fst (rc_Delete cl s n w) = Inr ()"
  using assms by (auto simp: rbac_live_def)

lemma kube_apiD:
  assumes "kube_api K V"
  shows "rbac_api (\<lambda>_. '''') () (cs_ClusterRoleBindings K) (v_CRB V)"
    and "rbac_api (\<lambda>ns. ns) '''' (cs_RoleBindings K) (v_RB V)"
    and "sa_api K (v_SA V)"
    and "rbac_client_keeps (v_RB V) (cs_ClusterRoleBindings K)"
    and "rbac_client_keeps (v_SA V) (cs_ClusterRoleBindings K)"
    and "rbac_client_keeps (v_CRB V) (cs_RoleBindings K)"
    and "rbac_client_keeps (v_SA V) (cs_RoleBindings K)"
    and "sa_client_keeps (v_CRB V) (cs_ServiceAccounts K)"
    and "sa_client_keeps (v_RB V) (cs_ServiceAccounts K)"
  using assms by (simp_all add: kube_api_def)

lemma rbac_client_keepsD:
  assumes "rbac_client_keeps f cl"
  shows "keeps f (rc_List cl s sel)" "keeps f (rc_Get cl s n)" "keeps f (rc_Create cl s b)"
    "keeps f (rc_Update cl s b)" "keeps f (rc_Delete cl s n)"
  using assms by (simp_all add: rbac_client_keeps_def)

lemma sa_client_keepsD:
  assumes "sa_client_keeps f cl"
  shows "keeps f (sc_Get cl ns n)" "keeps f (sc_Create cl ns a)" "keeps f (sc_CreateToken cl ns n t)"
  using assms by (simp_all add: sa_client_keeps_def)

lemma sa_apiD:
  assumes "sa_api K view"
  shows "view w (ns, n) = Some a \<Longrightarrow> sa_Name a = n"
    and "keeps view (sc_Get (cs_ServiceAccounts K) ns n)"
    and "keeps view (sc_CreateToken (cs_ServiceAccounts K) ns n t)"
    and "fst (sc_Get (cs_ServiceAccounts K) ns n w) = Inr a \<Longrightarrow> view w (ns, n) = Some a"
    and "fst (sc_Get (cs_ServiceAccounts K) ns n w) = Inl e \<Longrightarrow> cs_IsNotFound K e \<Longrightarrow> view w (ns, n) = None"
    and "k \<noteq> (ns, sa_Name a) \<Longrightarrow> keeps (\<lambda>w. view w k) (sc_Create (cs_ServiceAccounts K) ns a)"
    and "sc_Create (cs_ServiceAccounts K) ns a w = (Inr a', w') \<Longrightarrow>
      view w (ns, sa_Name a) = None \<and> view w' (ns, sa_Name a) = Some a'"
  using assms by (simp_all add: sa_api_def del: split_paired_All)

end
