(* ===== verification/Env.thy ===== *)
theory Env
  imports KubeTypes
begin

text \<open>
  The configuration of \<open>internal/services/env/env.service.go\<close>: the record \<open>Env\<close>, the list of
  environment variables bound from its struct tags, and \<open>New\<close>. The libraries that read the
  environment (viper), fill defaults (go-defaults) and validate (validator) are parameters;
  the tags they are driven by are the code's and are written out here.
\<close>

record Env =
  env_HTTPPort :: goint
  env_APIPrefix :: string
  env_KeytabPath :: string
  env_Namespace :: string
  env_TokenDuration :: goint
  env_TokenAudience :: string
  env_LDAPEnabled :: bool
  env_LDAPURL :: string
  env_LDAPBindDN :: string
  env_LDAPBindPassword :: string
  env_LDAPUserBaseDN :: string
  env_LDAPUserFilter :: string
  env_LDAPGroupBaseDN :: string
  env_LDAPGroupFilter :: string

text \<open>\<open>&Env{}\<close>: the zero value of every field.\<close>

definition zero_Env :: Env where
  "zero_Env = \<lparr>env_HTTPPort = 0, env_APIPrefix = '''', env_KeytabPath = '''', env_Namespace = '''',
     env_TokenDuration = 0, env_TokenAudience = '''', env_LDAPEnabled = False, env_LDAPURL = '''',
     env_LDAPBindDN = '''', env_LDAPBindPassword = '''', env_LDAPUserBaseDN = '''',
     env_LDAPUserFilter = '''', env_LDAPGroupBaseDN = '''', env_LDAPGroupFilter = ''''\<rparr>"

text \<open>The \<open>mapstructure\<close> tags, in field order.\<close>

definition mapstructure_tags :: "string list" where
  "mapstructure_tags = [''HTTP_PORT'', ''API_PREFIX'', ''KEYTAB_PATH'', ''NAMESPACE'',
     ''TOKEN_DURATION'', ''TOKEN_AUDIENCE'', ''LDAP_ENABLED'', ''LDAP_URL'', ''LDAP_BIND_DN'',
     ''LDAP_BIND_PASSWORD'', ''LDAP_USER_BASE_DN'', ''LDAP_USER_FILTER'', ''LDAP_GROUP_BASE_DN'',
     ''LDAP_GROUP_FILTER'']"

text \<open>The keys passed to \<open>viper.BindEnv\<close>, in order: the non-empty tags.\<close>

fun automaticBindEnv :: "string list \<Rightarrow> string list" where
  "automaticBindEnv [] = []"
| "automaticBindEnv (env # tags) =
     (if env = '''' then automaticBindEnv tags else env # automaticBindEnv tags)"

datatype env_error = UnmarshalError string | ValidationErrors

text \<open>
  \<open>el_Unmarshal keys zero\<close> is what viper decodes from the file and the environment once
  \<open>keys\<close> are bound; \<open>el_default_*\<close> is what go-defaults leaves in a field with the given tag;
  \<open>el_required_*\<close> is the validator's \<open>required\<close>.
\<close>

record env_libs =
  el_Unmarshal :: "string list \<Rightarrow> Env \<Rightarrow> env_error + Env"
  el_default_string :: "string \<Rightarrow> string \<Rightarrow> string"
  el_default_int :: "string \<Rightarrow> goint \<Rightarrow> goint"
  el_default_bool :: "string \<Rightarrow> bool \<Rightarrow> bool"
  el_required_string :: "string \<Rightarrow> bool"
  el_required_int :: "goint \<Rightarrow> bool"

definition SetDefaults :: "env_libs \<Rightarrow> Env \<Rightarrow> Env" where
  "SetDefaults L e =
     e\<lparr>env_HTTPPort := el_default_int L ''3000'' (env_HTTPPort e),
       env_APIPrefix := el_default_string L ''/api'' (env_APIPrefix e),
       env_KeytabPath := el_default_string L ''/etc/krb5.keytab'' (env_KeytabPath e),
       env_Namespace := el_default_string L ''default'' (env_Namespace e),
       env_TokenDuration := el_default_int L ''600'' (env_TokenDuration e),
       env_TokenAudience :=
         el_default_string L ''https://kubernetes.default.svc.cluster.local'' (env_TokenAudience e),
       env_LDAPEnabled := el_default_bool L ''false'' (env_LDAPEnabled e),
       env_LDAPUserBaseDN := el_default_string L ''ou=users'' (env_LDAPUserBaseDN e),
       env_LDAPUserFilter := el_default_string L ''(uid=%s)'' (env_LDAPUserFilter e),
       env_LDAPGroupBaseDN := el_default_string L ''ou=groups'' (env_LDAPGroupBaseDN e),
       env_LDAPGroupFilter := el_default_string L ''((member=%s)'' (env_LDAPGroupFilter e)\<rparr>"

definition validate_Struct :: "env_libs \<Rightarrow> Env \<Rightarrow> bool" where
  "validate_Struct L e \<longleftrightarrow>
     el_required_int L (env_HTTPPort e) \<and> el_required_string L (env_APIPrefix e) \<and>
     el_required_string L (env_KeytabPath e) \<and> el_required_string L (env_Namespace e) \<and>
     el_required_int L (env_TokenDuration e)"

definition New_Env :: "env_libs \<Rightarrow> env_error + Env" where
  "New_Env L =
     (case el_Unmarshal L (automaticBindEnv mapstructure_tags) zero_Env of
        Inl err \<Rightarrow> Inl err
      | Inr e0 \<Rightarrow>
          let env = SetDefaults L e0 in
          if validate_Struct L env then Inr env else Inl ValidationErrors)"

text \<open>
  The documented behaviour of the two libraries: a default replaces a zero value only (an
  integer tag is parsed; only what the parsing gives for the two tags used matters), and
  \<open>required\<close> refuses the zero value.
\<close>

definition env_libs_ok :: "env_libs \<Rightarrow> bool" where
  "env_libs_ok L \<longleftrightarrow>
     (\<forall>d v. el_default_string L d v = (if v = '''' then d else v)) \<and>
     (\<forall>v. el_default_int L ''3000'' v = (if v = 0 then 3000 else v)) \<and>
     (\<forall>v. el_default_int L ''600'' v = (if v = 0 then 600 else v)) \<and>
     (\<forall>v. el_default_bool L ''false'' v = v) \<and>
     (\<forall>v. el_required_string L v \<longleftrightarrow> v \<noteq> '''') \<and>
     (\<forall>v. el_required_int L v \<longleftrightarrow> v \<noteq> 0)"

lemma automaticBindEnv_filter: "automaticBindEnv tags = filter (\<lambda>t. t \<noteq> '''') tags"
  by (induction tags) auto

lemma automaticBindEnv_all: "automaticBindEnv mapstructure_tags = mapstructure_tags"
  by (simp add: mapstructure_tags_def)

lemma validate_SetDefaults: "env_libs_ok L \<Longrightarrow> validate_Struct L (SetDefaults L e)"
  by (simp add: env_libs_ok_def validate_Struct_def SetDefaults_def)

end
