(* ===== verification/K8s.thy ===== *)
theory K8s
  imports Env
begin

text \<open>
  \<open>internal/services/k8s/k8s.service.go\<close>: the namespace the service works in and the
  construction of the service. The file system, the cluster configuration loaders and the
  client constructor are parameters.
\<close>

datatype k8s_error = K8sError string

text \<open>
  \<open>kl_ReadFile\<close> is \<open>os.ReadFile\<close>, \<open>kl_InClusterConfig\<close> is \<open>rest.InClusterConfig\<close>,
  \<open>kl_ClientConfig\<close> the kubeconfig loader the code falls back to, \<open>kl_NewForConfig\<close> is
  \<open>kubernetes.NewForConfig\<close>. The configuration has an arbitrary type.
\<close>

record ('c, 'w) k8s_libs =
  kl_ReadFile :: "string \<Rightarrow> k8s_error + string"
  kl_InClusterConfig :: "k8s_error + 'c"
  kl_ClientConfig :: "k8s_error + 'c"
  kl_NewForConfig :: "'c \<Rightarrow> k8s_error + 'w Clientset"

record ('c, 'w) k8sService =
  ks_env :: Env
  ks_clientset :: "'w Clientset"
  ks_namespace :: string
  ks_restConfig :: 'c

definition getNamespace :: "('c, 'w) k8s_libs \<Rightarrow> Env \<Rightarrow> k8s_error + string" where
  "getNamespace L env =
     (let namespace = env_Namespace env in
      case kl_ReadFile L ''/var/run/secrets/kubernetes.io/serviceaccount/namespace'' of
        Inr namespaceBytes \<Rightarrow> Inr namespaceBytes
      | Inl err \<Rightarrow> Inr namespace)"

definition New_K8s :: "('c, 'w) k8s_libs \<Rightarrow> Env \<Rightarrow> k8s_error + ('c, 'w) k8sService" where
  "New_K8s L apiConfig =
     (case getNamespace L apiConfig of
        Inl err \<Rightarrow> Inl err
      | Inr namespace \<Rightarrow>
          (case (case kl_InClusterConfig L of
                   Inr restConfig \<Rightarrow> Inr restConfig
                 | Inl err \<Rightarrow> kl_ClientConfig L) of
             Inl err \<Rightarrow> Inl err
           | Inr restConfig \<Rightarrow>
               (case kl_NewForConfig L restConfig of
                  Inl err \<Rightarrow> Inl err
                | Inr clientset \<Rightarrow>
                    Inr \<lparr>ks_env = apiConfig, ks_clientset = clientset, ks_namespace = namespace,
                      ks_restConfig = restConfig\<rparr>)))"

definition GetNamespace :: "('c, 'w) k8sService \<Rightarrow> string" where
  "GetNamespace svc = ks_namespace svc"

definition GetClientset :: "('c, 'w) k8sService \<Rightarrow> 'w Clientset" where
  "GetClientset svc = ks_clientset svc"

definition GetRestConfig :: "('c, 'w) k8sService \<Rightarrow> 'c" where
  "GetRestConfig svc = ks_restConfig svc"

lemma getNamespace_total: "\<exists>n. getNamespace L env = Inr n"
  by (simp add: getNamespace_def split: sum.splits)

end
