(* ===== verification/Reconcile.thy ===== *)
theory Reconcile
  imports KubeTypes
begin

text \<open>
  Reconciling one kind of stored binding with the wanted ones, in general. The
  ClusterRoleBinding and the RoleBinding halves of the authentication service have the same
  shape: a step that creates, updates or leaves a wanted binding and strikes its name from a
  map of the existing ones, and a loop that deletes what is left in the map. The interface
  \<open>binding_provider\<close>, extended by \<open>managed_store\<close>, says what both rely on; the lemmas about the loops are proved here once
  and used for both through its interpretations.
\<close>

section \<open>The step and the loops\<close>

text \<open>
  \<open>nm\<close> is the name a wanted item is looked up by, \<open>ec\<close> and \<open>em\<close> are the errors reported when
  creating and modifying fail.
\<close>

definition ensure_step ::
  "('d \<Rightarrow> ('w, api_error, rbac_binding) action) \<Rightarrow> ('d \<Rightarrow> ('w, api_error, rbac_binding) action) \<Rightarrow>
   ('d \<Rightarrow> string) \<Rightarrow> ('d \<Rightarrow> rbac_binding \<Rightarrow> bool) \<Rightarrow> http_error \<Rightarrow> http_error \<Rightarrow> 'd \<Rightarrow>
   (string, rbac_binding) gomap \<Rightarrow> 'w \<Rightarrow> (http_error + unit) \<times> (string, rbac_binding) gomap \<times> 'w" where
  "ensure_step crt mdf nm differs ec em d m w =
     (case map_of m (nm d) of
        None \<Rightarrow> (case crt d w of
                  (Inl err, w') \<Rightarrow> (Inl ec, m, w')
                | (Inr _, w') \<Rightarrow> (Inr (), AList.delete (nm d) m, w'))
      | Some b \<Rightarrow>
          (if differs d b then
             (case mdf d w of
                (Inl err, w') \<Rightarrow> (Inl em, m, w')
              | (Inr _, w') \<Rightarrow> (Inr (), AList.delete (nm d) m, w'))
           else (Inr (), AList.delete (nm d) m, w)))"

definition remove_step ::
  "('k \<Rightarrow> ('w, api_error, unit) action) \<Rightarrow> http_error \<Rightarrow> 'k \<Rightarrow> ('w, http_error, unit) action" where
  "remove_step rmv ed k w =
     (case rmv k w of (Inl err, w') \<Rightarrow> (Inl ed, w') | (Inr _, w') \<Rightarrow> (Inr (), w'))"

lemma ensure_step_keeps:
  assumes "keeps f (crt d)" and "keeps f (mdf d)"
  shows "f (snd (snd (ensure_step crt mdf nm differs ec em d m w))) = f w"
  using keepsD [OF assms(1), of w] keepsD [OF assms(2), of w]
  by (auto simp: ensure_step_def split: option.splits prod.splits sum.splits)

lemma remove_step_keeps: "keeps f (rmv k) \<Longrightarrow> keeps f (remove_step rmv ed k)"
  unfolding remove_step_def by (intro keeps_rules)

section \<open>What the provider of the bindings promises\<close>

text \<open>
  \<open>key d\<close> is the object a request \<open>d\<close> is about; \<open>mine\<close> says that a stored binding is one
  of those under management; \<open>wanted d b\<close> that \<open>b\<close> gives what \<open>d\<close> asks for. \<open>lawful\<close> is the
  condition on the server under which the promises hold.
\<close>

locale binding_provider =
  fixes view :: "'w \<Rightarrow> 'k \<Rightarrow> rbac_binding option"
    and crt :: "'d \<Rightarrow> ('w, api_error, rbac_binding) action"
    and mdf :: "'d \<Rightarrow> ('w, api_error, rbac_binding) action"
    and rmv :: "'k \<Rightarrow> ('w, api_error, unit) action"
    and key :: "'d \<Rightarrow> 'k"
    and mine :: "rbac_binding \<Rightarrow> bool"
    and wanted :: "'d \<Rightarrow> rbac_binding \<Rightarrow> bool"
    and lawful :: bool
  assumes crt_frame: "lawful \<Longrightarrow> k \<noteq> key d \<Longrightarrow> keeps (\<lambda>w. view w k) (crt d)"
    and mdf_frame: "lawful \<Longrightarrow> k \<noteq> key d \<Longrightarrow> keeps (\<lambda>w. view w k) (mdf d)"
    and rmv_frame: "lawful \<Longrightarrow> k \<noteq> l \<Longrightarrow> keeps (\<lambda>w. view w k) (rmv l)"
    and crt_ok: "lawful \<Longrightarrow> crt d w = (Inr b, w') \<Longrightarrow>
      view w (key d) = None \<and> (\<exists>c. view w' (key d) = Some c \<and> mine c \<and> wanted d c)"
    and mdf_ok: "lawful \<Longrightarrow> mdf d w = (Inr b, w') \<Longrightarrow> view w (key d) = Some old \<Longrightarrow> mine old \<Longrightarrow>
      \<exists>c. view w' (key d) = Some c \<and> mine c \<and> wanted d c"
    and rmv_ok: "lawful \<Longrightarrow> rmv k w = (Inr u, w') \<Longrightarrow> view w' k = None"
begin

lemma remove_step_frame:
  "lawful \<Longrightarrow> k \<noteq> l \<Longrightarrow> view (snd (remove_step rmv ed l w)) k = view w k"
  using keepsD [OF rmv_frame, of k l w]
  by (auto simp: remove_step_def split: prod.splits sum.splits)

lemma remove_all_frame:
  assumes "lawful" and "k \<notin> set ks"
  shows "view (snd (for_each (remove_step rmv ed) ks w)) k = view w k"
  using assms remove_step_frame
  by (intro for_each_invariant [where P = "\<lambda>v. view v k = view w k"]) (metis, simp)

lemma remove_all_gone:
  assumes "lawful" and "for_each (remove_step rmv ed) ks w = (Inr u, w')" and "k \<in> set ks"
  shows "view w' k = None"
proof -
  have "k \<notin> set [] \<and> k \<in> set ks \<longrightarrow> view w' k = None"
  proof (rule for_each_success [OF assms(2), where P = "\<lambda>xs v. k \<notin> set xs \<and> k \<in> set ks \<longrightarrow> view v k = None"])
    fix x ys v v' r
    assume P: "k \<notin> set (x # ys) \<and> k \<in> set ks \<longrightarrow> view v k = None"
      and step: "remove_step rmv ed x v = (Inr r, v')"
    have "k \<noteq> x \<Longrightarrow> view v' k = view v k"
      using remove_step_frame [OF assms(1), of k x ed v] step by simp
    moreover have "view v' x = None"
      using rmv_ok [OF assms(1)] step by (auto simp: remove_step_def split: prod.splits sum.splits)
    ultimately show "k \<notin> set ys \<and> k \<in> set ks \<longrightarrow> view v' k = None"
      using P by (cases "k = x") auto
  qed simp
  then show ?thesis using assms(3) by simp
qed


end

section \<open>What the reconciliation adds\<close>

text \<open>
  \<open>nm d\<close> is the name under which the map of existing bindings is asked, and \<open>differs d b\<close>
  the test that decides on an update: an existing binding that passes it is as wanted.
\<close>

locale managed_store = binding_provider view crt mdf rmv key mine wanted lawful
  for view :: "'w \<Rightarrow> 'k \<Rightarrow> rbac_binding option"
    and crt :: "'d \<Rightarrow> ('w, api_error, rbac_binding) action"
    and mdf :: "'d \<Rightarrow> ('w, api_error, rbac_binding) action"
    and rmv :: "'k \<Rightarrow> ('w, api_error, unit) action"
    and key :: "'d \<Rightarrow> 'k"
    and mine :: "rbac_binding \<Rightarrow> bool"
    and wanted :: "'d \<Rightarrow> rbac_binding \<Rightarrow> bool"
    and lawful :: bool +
  fixes nm :: "'d \<Rightarrow> string"
    and differs :: "'d \<Rightarrow> rbac_binding \<Rightarrow> bool"
  assumes key_nm: "key d = key e \<Longrightarrow> nm d = nm e"
    and same_wanted: "lawful \<Longrightarrow> mine b \<Longrightarrow> \<not> differs d b \<Longrightarrow> wanted d b"
begin

lemma ensure_step_frame:
  assumes "lawful" and "k \<noteq> key d"
  shows "view (snd (snd (ensure_step crt mdf nm differs ec em d m w))) k = view w k"
  using keepsD [OF crt_frame [OF assms], of w] keepsD [OF mdf_frame [OF assms], of w]
  by (auto simp: ensure_step_def split: option.splits prod.splits sum.splits)

lemma ensure_step_map:
  "map_of (fst (snd (ensure_step crt mdf nm differs ec em d m w))) \<subseteq>\<^sub>m map_of m"
  by (auto simp: ensure_step_def map_le_def delete_conv' split: option.splits prod.splits sum.splits)

text \<open>
  What holds when the items \<open>ds\<close> are done, starting from the map \<open>m0\<close> and the world \<open>w0\<close>.
\<close>

definition ensured ::
  "(string, rbac_binding) gomap \<Rightarrow> 'w \<Rightarrow> 'd list \<Rightarrow> (string, rbac_binding) gomap \<Rightarrow> 'w \<Rightarrow> bool" where
  "ensured m0 w0 ds m w \<longleftrightarrow>
     distinct (map key ds) \<and>
     (\<forall>k. k \<notin> key ` set ds \<longrightarrow> view w k = view w0 k) \<and>
     (\<forall>d\<in>set ds. \<exists>b. view w (key d) = Some b \<and> mine b \<and> wanted d b) \<and>
     (\<forall>n. map_of m n = (if n \<in> nm ` set ds then None else map_of m0 n)) \<and>
     distinct (map fst m)"

text \<open>The existing bindings in the map are the stored ones the items stand for.\<close>

definition tracks :: "(string, rbac_binding) gomap \<Rightarrow> 'w \<Rightarrow> 'd set \<Rightarrow> bool" where
  "tracks m0 w0 D \<longleftrightarrow>
     (\<forall>d\<in>D. \<forall>b. map_of m0 (nm d) = Some b \<longrightarrow> view w0 (key d) = Some b \<and> mine b)"

lemma ensured_frame: "ensured m0 w0 ds m w \<Longrightarrow> k \<notin> key ` set ds \<Longrightarrow> view w k = view w0 k"
  unfolding ensured_def by blast

text \<open>Both depend on the view of the first world only.\<close>

lemma ensured_start: "view w1 = view w0 \<Longrightarrow> ensured m0 w1 ds m w = ensured m0 w0 ds m w"
  unfolding ensured_def by presburger

lemma ensured_view: "view w' = view w \<Longrightarrow> ensured m0 w0 ds m w' = ensured m0 w0 ds m w"
  unfolding ensured_def by presburger

lemma tracks_start: "view w1 = view w0 \<Longrightarrow> tracks m0 w1 D = tracks m0 w0 D"
  unfolding tracks_def by presburger

lemma ensured_Nil: "distinct (map fst m0) \<Longrightarrow> ensured m0 w0 [] m0 w0"
  by (simp add: ensured_def)

lemma ensure_step_key:
  assumes lawful: "lawful" and e: "ensured m0 w0 ds m w" and t: "tracks m0 w0 D" and d: "d \<in> D"
    and step: "ensure_step crt mdf nm differs ec em d m w = (Inr u, m', w')"
  shows "key d \<notin> key ` set ds" and "\<exists>b. view w' (key d) = Some b \<and> mine b \<and> wanted d b"
    and "m' = AList.delete (nm d) m"
proof -
  have "key d \<notin> key ` set ds \<and> (\<exists>b. view w' (key d) = Some b \<and> mine b \<and> wanted d b) \<and>
      m' = AList.delete (nm d) m"
  proof (cases "map_of m (nm d)")
    case None
    with step obtain b where c: "crt d w = (Inr b, w')" "m' = AList.delete (nm d) m"
      by (auto simp: ensure_step_def split: prod.splits sum.splits)
    have "view w (key d) = None" using crt_ok [OF lawful c(1)] by simp
    then have "key d \<notin> key ` set ds" using e by (force simp: ensured_def)
    then show ?thesis using crt_ok [OF lawful c(1)] c(2) by simp
  next
    case (Some b)
    then have n: "nm d \<notin> nm ` set ds" and "map_of m0 (nm d) = Some b"
      using e by (auto simp: ensured_def split: if_splits)
    have k: "key d \<notin> key ` set ds" using n key_nm by (metis (mono_tags, lifting) image_iff)
    have b: "view w (key d) = Some b" "mine b"
      using t d \<open>map_of m0 (nm d) = Some b\<close> e k by (auto simp: tracks_def ensured_def)
    show ?thesis
    proof (cases "differs d b")
      case True
      with step Some obtain c where c: "mdf d w = (Inr c, w')" "m' = AList.delete (nm d) m"
        by (auto simp: ensure_step_def split: prod.splits sum.splits)
      show ?thesis using mdf_ok [OF lawful c(1) b] c(2) k by simp
    next
      case False
      with step Some have "w' = w" "m' = AList.delete (nm d) m" by (auto simp: ensure_step_def)
      then show ?thesis using b same_wanted [OF lawful b(2) False] k by simp
    qed
  qed
  then show "key d \<notin> key ` set ds" and "\<exists>b. view w' (key d) = Some b \<and> mine b \<and> wanted d b"
    and "m' = AList.delete (nm d) m"
    by blast+
qed

lemma ensured_step:
  assumes lawful: "lawful" and e: "ensured m0 w0 ds m w" and t: "tracks m0 w0 D" and d: "d \<in> D"
    and step: "ensure_step crt mdf nm differs ec em d m w = (Inr u, m', w')"
  shows "ensured m0 w0 (ds @ [d]) m' w'"
proof -
  note key = ensure_step_key [OF assms]
  have other: "k \<noteq> key d \<Longrightarrow> view w' k = view w k" for k
    using ensure_step_frame [OF lawful, of k d ec em m w] step by simp
  have old: "\<exists>b. view w' (key x) = Some b \<and> mine b \<and> wanted x b" if "x \<in> set ds" for x
  proof -
    have "key x \<noteq> key d" using that key(1) by (metis image_eqI)
    then show ?thesis using e that other by (simp add: ensured_def)
  qed
  show ?thesis
    using e key other old
    by (auto simp: ensured_def delete_conv' distinct_delete)
qed

text \<open>
  A step that succeeds keeps what is under management under management. A step about an
  object that exists but whose name is not in the map tries to create it, and fails.
\<close>

lemma ensure_step_mine:
  assumes "lawful" and step: "ensure_step crt mdf nm differs ec em d m w = (Inr u, m', w')"
    and b: "view w k = Some b" "mine b"
  shows "\<exists>c. view w' k = Some c \<and> mine c"
proof (cases "k = key d")
  case False
  then show ?thesis using ensure_step_frame [OF \<open>lawful\<close> False, of ec em m w] step b by simp
next
  case True
  consider (C) c where "crt d w = (Inr c, w')" | (M) c where "mdf d w = (Inr c, w')" | (S) "w' = w"
    using step by (auto simp: ensure_step_def split: option.splits prod.splits sum.splits if_splits)
  then show ?thesis
  proof cases
    case C
    then show ?thesis using crt_ok [OF \<open>lawful\<close> C] b True by simp
  next
    case M
    then show ?thesis using mdf_ok [OF \<open>lawful\<close> M, of b] b True by auto
  next
    case S
    then show ?thesis using b by simp
  qed
qed

lemma ensure_step_stuck:
  assumes "lawful" and "map_of m (nm d) = None" and "view w (key d) \<noteq> None"
  shows "fst (ensure_step crt mdf nm differs ec em d m w) \<noteq> Inr u"
  using assms crt_ok [OF \<open>lawful\<close>, of d w]
  by (auto simp: ensure_step_def split: prod.splits sum.splits)

lemma ensure_step_struck:
  "ensure_step crt mdf nm differs ec em d m w = (Inr u, m', w') \<Longrightarrow> m' = AList.delete (nm d) m"
  by (auto simp: ensure_step_def split: option.splits prod.splits sum.splits if_splits)

section \<open>Nothing to do\<close>

text \<open>
  The map holds exactly the items' bindings, all of them as wanted: every step strikes one
  name and calls nothing.
\<close>

definition synced :: "(string, rbac_binding) gomap \<Rightarrow> 'd list \<Rightarrow> bool" where
  "synced m ds \<longleftrightarrow>
     distinct (map nm ds) \<and>
     (\<forall>d\<in>set ds. \<exists>b. map_of m (nm d) = Some b \<and> \<not> differs d b) \<and>
     (\<forall>n. map_of m n \<noteq> None \<longrightarrow> n \<in> nm ` set ds)"

lemma synced_step:
  assumes "synced m (d # ds)"
  shows "ensure_step crt mdf nm differs ec em d m w = (Inr (), AList.delete (nm d) m, w)"
    and "synced (AList.delete (nm d) m) ds"
proof -
  obtain b where "map_of m (nm d) = Some b" "\<not> differs d b" using assms by (auto simp: synced_def)
  then show "ensure_step crt mdf nm differs ec em d m w = (Inr (), AList.delete (nm d) m, w)"
    by (simp add: ensure_step_def)
  have "nm x \<noteq> nm d" if "x \<in> set ds" for x
    using assms that by (auto simp: synced_def image_iff)
  then show "synced (AList.delete (nm d) m) ds"
    using assms by (auto simp: synced_def delete_conv')
qed

lemma synced_Nil: "synced m [] \<Longrightarrow> m = []"
  by (cases m) (auto simp: synced_def split: if_splits)

section \<open>The outcome\<close>

text \<open>
  \<open>reconciled w0 ds w\<close>: the bindings under management in \<open>w\<close> are those the items ask for,
  all others are as they were in \<open>w0\<close>.
\<close>

definition reconciled :: "'w \<Rightarrow> 'd list \<Rightarrow> 'w \<Rightarrow> bool" where
  "reconciled w0 ds w \<longleftrightarrow>
     distinct (map key ds) \<and>
     (\<forall>d\<in>set ds. \<exists>b. view w (key d) = Some b \<and> mine b \<and> wanted d b) \<and>
     (\<forall>k. k \<notin> key ` set ds \<longrightarrow>
        view w k = (case view w0 k of Some b \<Rightarrow> if mine b then None else Some b | None \<Rightarrow> None))"

lemma ensured_removed:
  assumes "lawful" and e: "ensured m0 w0 ds m w"
    and run: "for_each (remove_step rmv ed) ks w = (Inr u, w')"
    and ks: "\<And>k. k \<in> set ks \<longleftrightarrow> (\<exists>b. view w0 k = Some b \<and> mine b) \<and> k \<notin> key ` set ds"
  shows "reconciled w0 ds w'"
proof -
  have out: "k \<notin> set ks \<Longrightarrow> view w' k = view w k" for k
    using remove_all_frame [OF assms(1), of k ks ed w] run by simp
  have gone: "k \<in> set ks \<Longrightarrow> view w' k = None" for k
    using remove_all_gone [OF assms(1) run] .
  have "view w' k = (case view w0 k of Some b \<Rightarrow> if mine b then None else Some b | None \<Rightarrow> None)"
    if "k \<notin> key ` set ds" for k
    using that ks [of k] out [of k] gone [of k] e
    by (cases "k \<in> set ks") (auto simp: ensured_def split: option.splits)
  moreover have "\<exists>b. view w' (key d) = Some b \<and> mine b \<and> wanted d b" if "d \<in> set ds" for d
  proof -
    have "key d \<notin> set ks" using that ks [of "key d"] by blast
    then show ?thesis using e out that by (simp add: ensured_def)
  qed
  ultimately show ?thesis using e by (simp add: reconciled_def ensured_def)
qed

lemma reconciled_keys:
  assumes "reconciled w0 ds w" and "view w k = Some b" and "mine b"
  shows "k \<in> key ` set ds"
proof (rule ccontr)
  assume "k \<notin> key ` set ds"
  then have "view w k = (case view w0 k of Some b \<Rightarrow> if mine b then None else Some b | None \<Rightarrow> None)"
    using assms(1) by (simp add: reconciled_def)
  then show False using assms(2,3) by (auto split: option.splits if_splits)
qed

text \<open>The bindings under management afterwards, one for each item.\<close>

lemma reconciled_mine:
  assumes r: "reconciled w0 ds w"
  shows "(\<exists>k. view w k = Some b \<and> mine b) \<longleftrightarrow> (\<exists>d\<in>set ds. view w (key d) = Some b \<and> mine b)"
proof
  assume "\<exists>k. view w k = Some b \<and> mine b"
  then obtain k where k: "view w k = Some b" "mine b" by blast
  then show "\<exists>d\<in>set ds. view w (key d) = Some b \<and> mine b" using reconciled_keys [OF r k] k by blast
qed blast

text \<open>Anything read off the bindings under management can be read off the items.\<close>

lemma reconciled_image:
  assumes r: "reconciled w0 ds w"
    and f: "\<And>d b. view w (key d) = Some b \<Longrightarrow> wanted d b \<Longrightarrow> f b = g d"
  shows "{f b | k b. view w k = Some b \<and> mine b} = g ` set ds"
proof -
  have "\<exists>b. view w (key d) = Some b \<and> mine b \<and> f b = g d" if "d \<in> set ds" for d
    using r f that unfolding reconciled_def by blast
  then have each: "\<exists>k b. g d = f b \<and> view w k = Some b \<and> mine b" if "d \<in> set ds" for d
    using that by metis
  have "f b \<in> g ` set ds" if "view w k = Some b" "mine b" for k b
  proof -
    obtain d where d: "d \<in> set ds" "view w (key d) = Some b"
      using reconciled_mine [OF r] \<open>view w k = Some b\<close> \<open>mine b\<close> by blast
    then have "wanted d b" using r by (auto simp: reconciled_def)
    then show ?thesis using f d by blast
  qed
  then show ?thesis using each by blast
qed

end

section \<open>When the loops run to their end\<close>

text \<open>
  A server that answers: \<open>admissible\<close> requests succeed, and a modification does when the
  stored binding \<open>fits\<close> the request (its role reference, which cannot change, is the asked one).
\<close>

locale live_store = managed_store view crt mdf rmv key mine wanted lawful nm differs
  for view :: "'w \<Rightarrow> 'k \<Rightarrow> rbac_binding option"
    and crt :: "'d \<Rightarrow> ('w, api_error, rbac_binding) action"
    and mdf :: "'d \<Rightarrow> ('w, api_error, rbac_binding) action"
    and rmv :: "'k \<Rightarrow> ('w, api_error, unit) action"
    and key :: "'d \<Rightarrow> 'k"
    and mine :: "rbac_binding \<Rightarrow> bool"
    and wanted :: "'d \<Rightarrow> rbac_binding \<Rightarrow> bool"
    and lawful :: bool
    and nm :: "'d \<Rightarrow> string"
    and differs :: "'d \<Rightarrow> rbac_binding \<Rightarrow> bool" +
  fixes live :: bool
    and admissible :: "'d \<Rightarrow> bool"
    and fits :: "'d \<Rightarrow> rbac_binding \<Rightarrow> bool"
  assumes crt_live: "live \<Longrightarrow> admissible d \<Longrightarrow> view w (key d) = None \<Longrightarrow> \<exists>b w'. crt d w = (Inr b, w')"
    and mdf_live: "lawful \<Longrightarrow> live \<Longrightarrow> admissible d \<Longrightarrow> view w (key d) = Some b \<Longrightarrow> fits d b \<Longrightarrow>
      \<exists>c w'. mdf d w = (Inr c, w')"
    and rmv_live: "live \<Longrightarrow> view w k \<noteq> None \<Longrightarrow> \<exists>w'. rmv k w = (Inr (), w')"
begin

text \<open>
  The map and the store agree on every item, no two items are about one object, and an item
  whose object exists is the only one with its name.
\<close>

definition ready :: "(string, rbac_binding) gomap \<Rightarrow> 'w \<Rightarrow> 'd list \<Rightarrow> bool" where
  "ready m0 w0 ds \<longleftrightarrow>
     distinct (map key ds) \<and>
     (\<forall>d\<in>set ds. admissible d \<and> map_of m0 (nm d) = view w0 (key d) \<and>
        (\<forall>b. view w0 (key d) = Some b \<longrightarrow>
           (differs d b \<longrightarrow> fits d b) \<and> (\<forall>e\<in>set ds. nm e = nm d \<longrightarrow> key e = key d)))"

lemma ready_start: "view w1 = view w0 \<Longrightarrow> ready m0 w1 ds = ready m0 w0 ds"
  unfolding ready_def by presburger

lemma ensure_step_live:
  assumes "lawful" and "live" and r: "ready m0 w0 (ds @ d # rest)" and e: "ensured m0 w0 ds m w"
  shows "\<exists>m' w'. ensure_step crt mdf nm differs ec em d m w = (Inr (), m', w')"
proof -
  have d: "admissible d" "map_of m0 (nm d) = view w0 (key d)" "key d \<notin> key ` set ds"
    using r by (auto simp: ready_def)
  have v: "view w (key d) = view w0 (key d)" using e d(3) by (simp add: ensured_def)
  show ?thesis
  proof (cases "view w0 (key d)")
    case None
    then have "map_of m (nm d) = None" using e d(2) by (simp add: ensured_def)
    moreover obtain b w' where "crt d w = (Inr b, w')"
      using crt_live [OF \<open>live\<close> d(1), of w] v None by auto
    ultimately show ?thesis by (simp add: ensure_step_def)
  next
    case (Some b)
    have b: "differs d b \<Longrightarrow> fits d b" and only: "\<And>x. x \<in> set ds \<Longrightarrow> nm x = nm d \<Longrightarrow> key x = key d"
      using r Some by (auto simp: ready_def)
    have "nm d \<notin> nm ` set ds" using only d(3) by (metis (no_types, lifting) image_iff)
    then have "map_of m (nm d) = Some b" using e d(2) Some by (simp add: ensured_def)
    moreover have "differs d b \<Longrightarrow> \<exists>c w'. mdf d w = (Inr c, w')"
      using b mdf_live [OF \<open>lawful\<close> \<open>live\<close> d(1), of w b] v Some by simp
    ultimately show ?thesis by (auto simp: ensure_step_def)
  qed
qed

lemma remove_all_live:
  assumes "lawful" and "live" and "distinct ks" and "\<And>k. k \<in> set ks \<Longrightarrow> view w k \<noteq> None"
  shows "\<exists>w'. for_each (remove_step rmv ed) ks w = (Inr (), w')"
proof -
  let ?P = "\<lambda>xs v. distinct xs \<and> (\<forall>k\<in>set xs. view v k \<noteq> None)"
  have "\<exists>w'. for_each (remove_step rmv ed) ks w = (Inr (), w') \<and> ?P [] w'"
  proof (rule for_each_total [where P = ?P])
    fix x ys v
    assume P: "?P (x # ys) v"
    then obtain v' where step: "remove_step rmv ed x v = (Inr (), v')"
      using rmv_live [OF \<open>live\<close>, of v x] by (auto simp: remove_step_def)
    have "view v' k = view v k" if "k \<noteq> x" for k
      using remove_step_frame [OF \<open>lawful\<close> that, of ed v] step by simp
    then show "\<exists>r v'. remove_step rmv ed x v = (Inr r, v') \<and> ?P ys v'"
      using P step by (metis distinct.simps(2) list.set_intros(2))
  qed (use assms(3,4) in blast)
  then show ?thesis by blast
qed

end

end
