(* ===== verification/ServiceAccounts.thy ===== *)
theory ServiceAccounts
  imports K8s Reconcile
begin

text \<open>
  \<open>internal/services/k8s/serviceaccounts/serviceaccounts.service.go\<close>: the operations on
  service accounts, tokens, ClusterRoleBindings and RoleBindings. Each operation is one
  definition in the order of the file; logging and the context argument are left out (a
  cancelled context is one more error of the API client).
\<close>

definition saManagedLabel :: string where
  "saManagedLabel = ''kerbernetes.io/managed''"

record 'w serviceAccountsService =
  svc_env :: Env
  svc_clientset :: "'w Clientset"
  svc_namespace :: string

definition New_ServiceAccounts :: "Env \<Rightarrow> ('c, 'w) k8sService \<Rightarrow> 'w serviceAccountsService" where
  "New_ServiceAccounts env k8sSvc =
     \<lparr>svc_env = env, svc_clientset = GetClientset k8sSvc, svc_namespace = GetNamespace k8sSvc\<rparr>"

section \<open>Service accounts and tokens\<close>

definition createServiceAccount ::
  "'w serviceAccountsService \<Rightarrow> string \<Rightarrow> ('w, api_error, ServiceAccount) action" where
  "createServiceAccount svc username w =
     (case sc_Create (cs_ServiceAccounts (svc_clientset svc)) (svc_namespace svc)
             \<lparr>sa_ObjectMeta = \<lparr>om_Name = username, om_Namespace = '''', om_Labels = []\<rparr>\<rparr> w of
        (Inl err, w') \<Rightarrow> (Inl err, w')
      | (Inr sa, w') \<Rightarrow> (Inr sa, w'))"

definition UpsertServiceAccount ::
  "'w serviceAccountsService \<Rightarrow> string \<Rightarrow> ('w, api_error, ServiceAccount) action" where
  "UpsertServiceAccount svc username w =
     (case sc_Get (cs_ServiceAccounts (svc_clientset svc)) (svc_namespace svc) username w of
        (Inl err, w') \<Rightarrow>
          (if cs_IsNotFound (svc_clientset svc) err then createServiceAccount svc username w'
           else (Inl err, w'))
      | (Inr sa, w') \<Rightarrow> (Inr sa, w'))"

text \<open>\<open>int64(x)\<close> of an \<open>int\<close>, on the 64-bit targets the image is built for, and its address.\<close>

definition int64Ptr :: "goint \<Rightarrow> goint option" where
  "int64Ptr i = Some i"

definition IssueToken ::
  "'w serviceAccountsService \<Rightarrow> string \<Rightarrow> ('w, api_error, TokenRequest) action" where
  "IssueToken svc username w =
     (case sc_CreateToken (cs_ServiceAccounts (svc_clientset svc)) (svc_namespace svc) username
             \<lparr>tr_Spec = \<lparr>trs_Audiences = [env_TokenAudience (svc_env svc)],
                trs_ExpirationSeconds = int64Ptr (scast (env_TokenDuration (svc_env svc)))\<rparr>,
              tr_Status = \<lparr>tst_Token = '''', tst_ExpirationTimestamp = 0\<rparr>\<rparr> w of
        (Inl err, w') \<Rightarrow> (Inl err, w')
      | (Inr token, w') \<Rightarrow> (Inr token, w'))"

section \<open>Listing the bindings of a service account\<close>

definition subject_is :: "string \<Rightarrow> string \<Rightarrow> Subject \<Rightarrow> bool" where
  "subject_is namespace username subject \<longleftrightarrow>
     sub_Kind subject = ''ServiceAccount'' \<and> sub_Name subject = username \<and>
     sub_Namespace subject = namespace"

text \<open>The inner loop over the subjects, with its \<open>break\<close> at the first match.\<close>

fun any_subject :: "string \<Rightarrow> string \<Rightarrow> Subject list \<Rightarrow> bool" where
  "any_subject namespace username [] = False"
| "any_subject namespace username (subject # subjects) =
     (if subject_is namespace username subject then True
      else any_subject namespace username subjects)"

fun filterBindings :: "string \<Rightarrow> string \<Rightarrow> rbac_binding list \<Rightarrow> rbac_binding list" where
  "filterBindings namespace username [] = []"
| "filterBindings namespace username (binding # items) =
     (if any_subject namespace username (rb_Subjects binding)
      then binding # filterBindings namespace username items
      else filterBindings namespace username items)"

definition GetClusterRoleBindings ::
  "'w serviceAccountsService \<Rightarrow> string \<Rightarrow> ('w, api_error, rbac_binding list) action" where
  "GetClusterRoleBindings svc username w =
     (case rc_List (cs_ClusterRoleBindings (svc_clientset svc)) () (saManagedLabel @ ''=true'') w of
        (Inl err, w') \<Rightarrow> (Inl err, w')
      | (Inr items, w') \<Rightarrow> (Inr (filterBindings (svc_namespace svc) username items), w'))"

definition GetRoleBindings ::
  "'w serviceAccountsService \<Rightarrow> string \<Rightarrow> ('w, api_error, rbac_binding list) action" where
  "GetRoleBindings svc username w =
     (case rc_List (cs_RoleBindings (svc_clientset svc)) '''' (saManagedLabel @ ''=true'') w of
        (Inl err, w') \<Rightarrow> (Inl err, w')
      | (Inr items, w') \<Rightarrow> (Inr (filterBindings (svc_namespace svc) username items), w'))"

section \<open>Writing bindings\<close>

text \<open>\<open>fmt.Sprintf("kerbernetes:%s:%s:%s", username, ldapGroundBindingName, roleName)\<close>\<close>

definition GenBindingName :: "string \<Rightarrow> string \<Rightarrow> string \<Rightarrow> string" where
  "GenBindingName username roleName ldapGroundBindingName =
     ''kerbernetes:'' @ username @ '':'' @ ldapGroundBindingName @ '':'' @ roleName"

text \<open>The subject list both kinds of binding get.\<close>

definition sa_subjects :: "'w serviceAccountsService \<Rightarrow> string \<Rightarrow> Subject list" where
  "sa_subjects svc username =
     [\<lparr>sub_Kind = ''ServiceAccount'', sub_APIGroup = '''', sub_Name = username,
       sub_Namespace = svc_namespace svc\<rparr>]"

definition bindingObject ::
  "'w serviceAccountsService \<Rightarrow> string \<Rightarrow> string \<Rightarrow> RoleRef \<Rightarrow> rbac_binding" where
  "bindingObject svc username ldapGroundBindingName roleRef =
     \<lparr>rb_ObjectMeta =
        \<lparr>om_Name = GenBindingName username (rr_Name roleRef) ldapGroundBindingName,
         om_Namespace = '''', om_Labels = [(saManagedLabel, ''true'')]\<rparr>,
      rb_Subjects = sa_subjects svc username,
      rb_RoleRef = roleRef\<rparr>"

definition CreateClusterRoleBinding ::
  "'w serviceAccountsService \<Rightarrow> string \<Rightarrow> string \<Rightarrow> string \<Rightarrow> ('w, api_error, rbac_binding) action" where
  "CreateClusterRoleBinding svc username roleName ldapGroundBindingName w =
     (let binding = bindingObject svc username ldapGroundBindingName
            \<lparr>rr_APIGroup = ''rbac.authorization.k8s.io'', rr_Kind = ''ClusterRole'',
             rr_Name = roleName\<rparr>
      in case rc_Create (cs_ClusterRoleBindings (svc_clientset svc)) () binding w of
           (Inl err, w') \<Rightarrow> (Inl err, w')
         | (Inr binding', w') \<Rightarrow> (Inr binding', w'))"

definition UpdateClusterRoleBinding ::
  "'w serviceAccountsService \<Rightarrow> string \<Rightarrow> string \<Rightarrow> string \<Rightarrow> ('w, api_error, rbac_binding) action" where
  "UpdateClusterRoleBinding svc username clusterRoleName ldapGroundBindingName w =
     (let name = GenBindingName username clusterRoleName ldapGroundBindingName in
      case rc_Get (cs_ClusterRoleBindings (svc_clientset svc)) () name w of
        (Inl err, w1) \<Rightarrow> (Inl err, w1)
      | (Inr binding, w1) \<Rightarrow>
          (let binding1 = binding\<lparr>rb_RoleRef := (rb_RoleRef binding)\<lparr>rr_Name := clusterRoleName\<rparr>\<rparr> in
           case rc_Update (cs_ClusterRoleBindings (svc_clientset svc)) () binding1 w1 of
             (Inl err, w2) \<Rightarrow> (Inl err, w2)
           | (Inr binding2, w2) \<Rightarrow> (Inr binding2, w2)))"

definition DeleteClusterRoleBinding ::
  "'w serviceAccountsService \<Rightarrow> string \<Rightarrow> ('w, api_error, unit) action" where
  "DeleteClusterRoleBinding svc name w =
     (case rc_Delete (cs_ClusterRoleBindings (svc_clientset svc)) () name w of
        (Inl err, w') \<Rightarrow> (Inl err, w')
      | (Inr _, w') \<Rightarrow> (Inr (), w'))"

definition CreateRoleBinding ::
  "'w serviceAccountsService \<Rightarrow> string \<Rightarrow> string \<Rightarrow> string \<Rightarrow> RoleRef \<Rightarrow>
     ('w, api_error, rbac_binding) action" where
  "CreateRoleBinding svc username roleBindingNamespace ldapGroundBindingName roleRef w =
     (let binding = bindingObject svc username ldapGroundBindingName roleRef in
      case rc_Create (cs_RoleBindings (svc_clientset svc)) roleBindingNamespace binding w of
        (Inl err, w') \<Rightarrow> (Inl err, w')
      | (Inr binding', w') \<Rightarrow> (Inr binding', w'))"

definition UpdateRoleBinding ::
  "'w serviceAccountsService \<Rightarrow> string \<Rightarrow> string \<Rightarrow> RoleRef \<Rightarrow> string \<Rightarrow>
     ('w, api_error, rbac_binding) action" where
  "UpdateRoleBinding svc username roleBindingNamespace roleRef ldapGroundBindingName w =
     (let name = GenBindingName username (rr_Name roleRef) ldapGroundBindingName in
      case rc_Get (cs_RoleBindings (svc_clientset svc)) roleBindingNamespace name w of
        (Inl err, w1) \<Rightarrow> (Inl err, w1)
      | (Inr binding, w1) \<Rightarrow>
          (let binding1 = binding\<lparr>rb_RoleRef := roleRef, rb_Subjects := sa_subjects svc username\<rparr> in
           case rc_Update (cs_RoleBindings (svc_clientset svc)) roleBindingNamespace binding1 w1 of
             (Inl err, w2) \<Rightarrow> (Inl err, w2)
           | (Inr binding2, w2) \<Rightarrow> (Inr binding2, w2)))"

definition DeleteRoleBinding ::
  "'w serviceAccountsService \<Rightarrow> string \<Rightarrow> string \<Rightarrow> ('w, api_error, unit) action" where
  "DeleteRoleBinding svc namespace name w =
     (case rc_Delete (cs_RoleBindings (svc_clientset svc)) namespace name w of
        (Inl err, w') \<Rightarrow> (Inl err, w')
      | (Inr _, w') \<Rightarrow> (Inr (), w'))"

section \<open>Facts about the operations\<close>

lemma single_call_eqs:
  "createServiceAccount svc u = sc_Create (cs_ServiceAccounts (svc_clientset svc)) (svc_namespace svc)
     \<lparr>sa_ObjectMeta = \<lparr>om_Name = u, om_Namespace = '''', om_Labels = []\<rparr>\<rparr>"
  "IssueToken svc u = sc_CreateToken (cs_ServiceAccounts (svc_clientset svc)) (svc_namespace svc) u
     \<lparr>tr_Spec = \<lparr>trs_Audiences = [env_TokenAudience (svc_env svc)],
        trs_ExpirationSeconds = int64Ptr (scast (env_TokenDuration (svc_env svc)))\<rparr>,
      tr_Status = \<lparr>tst_Token = '''', tst_ExpirationTimestamp = 0\<rparr>\<rparr>"
  "CreateClusterRoleBinding svc u r l = rc_Create (cs_ClusterRoleBindings (svc_clientset svc)) ()
     (bindingObject svc u l \<lparr>rr_APIGroup = ''rbac.authorization.k8s.io'', rr_Kind = ''ClusterRole'', rr_Name = r\<rparr>)"
  "DeleteClusterRoleBinding svc n = rc_Delete (cs_ClusterRoleBindings (svc_clientset svc)) () n"
  "CreateRoleBinding svc u ns l rr = rc_Create (cs_RoleBindings (svc_clientset svc)) ns (bindingObject svc u l rr)"
  "DeleteRoleBinding svc ns n = rc_Delete (cs_RoleBindings (svc_clientset svc)) ns n"
  by (simp_all add: fun_eq_iff createServiceAccount_def IssueToken_def CreateClusterRoleBinding_def
      DeleteClusterRoleBinding_def CreateRoleBinding_def DeleteRoleBinding_def pass_on)

lemma any_subject_iff: "any_subject ns u subjects \<longleftrightarrow> (\<exists>x\<in>set subjects. subject_is ns u x)"
  by (induction subjects) auto

lemma filterBindings_filter:
  "filterBindings ns u items = filter (\<lambda>b. any_subject ns u (rb_Subjects b)) items"
  by (induction items) auto

lemma any_sa_subjects: "any_subject (svc_namespace svc) u (sa_subjects svc u)"
  by (simp add: sa_subjects_def subject_is_def)

lemma bindingObject_simps [simp]:
  "rb_Name (bindingObject svc u l r) = GenBindingName u (rr_Name r) l"
  "rb_Subjects (bindingObject svc u l r) = sa_subjects svc u"
  "rb_RoleRef (bindingObject svc u l r) = r"
  "has_label saManagedLabel v (bindingObject svc u l r) \<longleftrightarrow> v = ''true''"
  by (auto simp: bindingObject_def has_label_def)

text \<open>The bindings the service manages for a user: labelled, and with the user as a subject.\<close>

definition managed_for :: "'w serviceAccountsService \<Rightarrow> string \<Rightarrow> rbac_binding \<Rightarrow> bool" where
  "managed_for svc u b \<longleftrightarrow>
     has_label saManagedLabel ''true'' b \<and> any_subject (svc_namespace svc) u (rb_Subjects b)"

definition sole_subject :: "'w serviceAccountsService \<Rightarrow> string \<Rightarrow> rbac_binding \<Rightarrow> bool" where
  "sole_subject svc u b \<longleftrightarrow> (\<exists>x. rb_Subjects b = [x] \<and> subject_is (svc_namespace svc) u x)"

lemma stored_managed:
  "stored_as b c \<Longrightarrow> managed_for svc u b \<Longrightarrow> managed_for svc u c"
  by (simp add: managed_for_def stored_as_def)

lemma managed_bindingObject: "managed_for svc u (bindingObject svc u l r)"
  by (simp add: managed_for_def any_sa_subjects)

lemma sole_sa_subjects: "rb_Subjects b = sa_subjects svc u \<Longrightarrow> sole_subject svc u b"
  by (simp add: sole_subject_def sa_subjects_def subject_is_def)

section \<open>The contract for ClusterRoleBindings\<close>

text \<open>A request: the name of the LdapGroupBinding and the role.\<close>

type_synonym crb_request = "string \<times> string"

definition crb_key :: "string \<Rightarrow> crb_request \<Rightarrow> unit \<times> string" where
  "crb_key u d = ((), GenBindingName u (snd d) (fst d))"

definition crb_create :: "'w serviceAccountsService \<Rightarrow> string \<Rightarrow> crb_request \<Rightarrow> ('w, api_error, rbac_binding) action" where
  "crb_create svc u d = CreateClusterRoleBinding svc u (snd d) (fst d)"

definition crb_modify :: "'w serviceAccountsService \<Rightarrow> string \<Rightarrow> crb_request \<Rightarrow> ('w, api_error, rbac_binding) action" where
  "crb_modify svc u d = UpdateClusterRoleBinding svc u (snd d) (fst d)"

definition crb_remove :: "'w serviceAccountsService \<Rightarrow> unit \<times> string \<Rightarrow> ('w, api_error, unit) action" where
  "crb_remove svc k = DeleteClusterRoleBinding svc (snd k)"

definition crb_wanted :: "crb_request \<Rightarrow> rbac_binding \<Rightarrow> bool" where
  "crb_wanted d b \<longleftrightarrow> rr_Name (rb_RoleRef b) = snd d"

lemmas crb_request_defs = crb_key_def crb_create_def crb_modify_def crb_remove_def crb_wanted_def

lemma UpdateClusterRoleBinding_eq:
  "UpdateClusterRoleBinding svc u r l =
    (\<lambda>w. case rc_Get (cs_ClusterRoleBindings (svc_clientset svc)) () (GenBindingName u r l) w of
        (Inl e, w1) \<Rightarrow> (Inl e, w1)
      | (Inr b, w1) \<Rightarrow> (case rc_Update (cs_ClusterRoleBindings (svc_clientset svc)) ()
            (b\<lparr>rb_RoleRef := (rb_RoleRef b)\<lparr>rr_Name := r\<rparr>, rb_Subjects := rb_Subjects b\<rparr>) w1 of
            (Inl e, w2) \<Rightarrow> (Inl e, w2) | (Inr c, w2) \<Rightarrow> (Inr c, w2)))"
  by (auto simp: fun_eq_iff UpdateClusterRoleBinding_def split: prod.splits sum.splits)

lemma UpdateRoleBinding_eq:
  "UpdateRoleBinding svc u ns rr l =
    (\<lambda>w. case rc_Get (cs_RoleBindings (svc_clientset svc)) ns (GenBindingName u (rr_Name rr) l) w of
        (Inl e, w1) \<Rightarrow> (Inl e, w1)
      | (Inr b, w1) \<Rightarrow> (case rc_Update (cs_RoleBindings (svc_clientset svc)) ns
            (b\<lparr>rb_RoleRef := rr, rb_Subjects := sa_subjects svc u\<rparr>) w1 of
            (Inl e, w2) \<Rightarrow> (Inl e, w2) | (Inr c, w2) \<Rightarrow> (Inr c, w2)))"
  by (auto simp: fun_eq_iff UpdateRoleBinding_def split: prod.splits sum.splits)

interpretation crb: binding_provider "v_CRB V" "crb_create svc u" "crb_modify svc u" "crb_remove svc"
    "crb_key u" "managed_for svc u" crb_wanted "kube_api (svc_clientset svc) V"
  for V svc u
proof unfold_locales
  fix k d
  assume api: "kube_api (svc_clientset svc) V" and k: "k \<noteq> crb_key u d"
  show "keeps (\<lambda>w. v_CRB V w k) (crb_create svc u d)"
    using rbac_api_frame(1) [OF kube_apiD(1) [OF api]] k
    by (simp add: crb_request_defs single_call_eqs)
  show "keeps (\<lambda>w. v_CRB V w k) (crb_modify svc u d)"
    using k get_update_frame [OF kube_apiD(1) [OF api]]
    by (simp add: crb_request_defs UpdateClusterRoleBinding_eq)
next
  fix k l
  assume api: "kube_api (svc_clientset svc) V" and "k \<noteq> (l :: unit \<times> string)"
  then show "keeps (\<lambda>w. v_CRB V w k) (crb_remove svc l)"
    using rbac_api_frame(3) [OF kube_apiD(1) [OF api]]
    by (cases l) (simp add: crb_request_defs single_call_eqs)
next
  fix d w b w'
  assume api: "kube_api (svc_clientset svc) V" and c: "crb_create svc u d w = (Inr b, w')"
  let ?o = "bindingObject svc u (fst d)
    \<lparr>rr_APIGroup = ''rbac.authorization.k8s.io'', rr_Kind = ''ClusterRole'', rr_Name = snd d\<rparr>"
  have "rc_Create (cs_ClusterRoleBindings (svc_clientset svc)) () ?o w = (Inr b, w')"
    using c by (simp add: crb_request_defs single_call_eqs)
  note created = rbac_api_create [OF kube_apiD(1) [OF api] this]
  show "v_CRB V w (crb_key u d) = None \<and>
      (\<exists>c. v_CRB V w' (crb_key u d) = Some c \<and> managed_for svc u c \<and> crb_wanted d c)"
    using created stored_managed [OF created(3) managed_bindingObject]
    by (auto simp: crb_request_defs stored_as_def)
next
  fix d w b w' old
  assume api: "kube_api (svc_clientset svc) V" and c: "crb_modify svc u d w = (Inr b, w')"
    and old: "v_CRB V w (crb_key u d) = Some old" "managed_for svc u old"
  from get_update_ok [OF kube_apiD(1) [OF api] c [unfolded crb_modify_def UpdateClusterRoleBinding_eq]]
  have b: "v_CRB V w' (crb_key u d) = Some b" "rb_RoleRef b = rb_RoleRef old"
    "stored_as (old\<lparr>rb_RoleRef := (rb_RoleRef old)\<lparr>rr_Name := snd d\<rparr>, rb_Subjects := rb_Subjects old\<rparr>) b"
    using old(1) by (auto simp: crb_key_def)
  have "managed_for svc u b"
    by (rule stored_managed [OF b(3)]) (use old(2) in \<open>simp add: managed_for_def has_label_def\<close>)
  then show "\<exists>c. v_CRB V w' (crb_key u d) = Some c \<and> managed_for svc u c \<and> crb_wanted d c"
    using b by (auto simp: crb_wanted_def stored_as_def)
next
  fix k w x w'
  assume "kube_api (svc_clientset svc) V" "crb_remove svc k w = (Inr x, w')"
  then show "v_CRB V w' k = None"
    using rbac_api_delete [OF kube_apiD(1)] by (cases k) (auto simp: crb_request_defs single_call_eqs)
qed

section \<open>The contract for RoleBindings\<close>

text \<open>A request: the name of the LdapGroupBinding, the namespace and the role reference.\<close>

type_synonym rb_request = "string \<times> string \<times> RoleRef"

definition rb_key :: "string \<Rightarrow> rb_request \<Rightarrow> string \<times> string" where
  "rb_key u d = (fst (snd d), GenBindingName u (rr_Name (snd (snd d))) (fst d))"

definition rb_create :: "'w serviceAccountsService \<Rightarrow> string \<Rightarrow> rb_request \<Rightarrow> ('w, api_error, rbac_binding) action" where
  "rb_create svc u d = CreateRoleBinding svc u (fst (snd d)) (fst d) (snd (snd d))"

definition rb_modify :: "'w serviceAccountsService \<Rightarrow> string \<Rightarrow> rb_request \<Rightarrow> ('w, api_error, rbac_binding) action" where
  "rb_modify svc u d = UpdateRoleBinding svc u (fst (snd d)) (snd (snd d)) (fst d)"

definition rb_remove :: "'w serviceAccountsService \<Rightarrow> string \<times> string \<Rightarrow> ('w, api_error, unit) action" where
  "rb_remove svc k = DeleteRoleBinding svc (fst k) (snd k)"

definition rb_wanted :: "'w serviceAccountsService \<Rightarrow> string \<Rightarrow> rb_request \<Rightarrow> rbac_binding \<Rightarrow> bool" where
  "rb_wanted svc u d b \<longleftrightarrow>
     sole_subject svc u b \<and>
     rr_Kind (rb_RoleRef b) = rr_Kind (snd (snd d)) \<and>
     rr_Name (rb_RoleRef b) = rr_Name (snd (snd d)) \<and>
     (rr_APIGroup (snd (snd d)) \<noteq> '''' \<longrightarrow> rr_APIGroup (rb_RoleRef b) = rr_APIGroup (snd (snd d)))"

lemmas rb_request_defs = rb_key_def rb_create_def rb_modify_def rb_remove_def

interpretation rb: binding_provider "v_RB V" "rb_create svc u" "rb_modify svc u" "rb_remove svc"
    "rb_key u" "managed_for svc u" "rb_wanted svc u" "kube_api (svc_clientset svc) V"
  for V svc u
proof unfold_locales
  fix k d
  assume api: "kube_api (svc_clientset svc) V" and k: "k \<noteq> rb_key u d"
  show "keeps (\<lambda>w. v_RB V w k) (rb_create svc u d)"
    using rbac_api_frame(1) [OF kube_apiD(2) [OF api]] k
    by (simp add: rb_request_defs single_call_eqs)
  show "keeps (\<lambda>w. v_RB V w k) (rb_modify svc u d)"
    using k get_update_frame [OF kube_apiD(2) [OF api]]
    by (simp add: rb_request_defs UpdateRoleBinding_eq)
next
  fix k l
  assume api: "kube_api (svc_clientset svc) V" and "k \<noteq> (l :: string \<times> string)"
  then show "keeps (\<lambda>w. v_RB V w k) (rb_remove svc l)"
    using rbac_api_frame(3) [OF kube_apiD(2) [OF api]]
    by (cases l) (simp add: rb_request_defs single_call_eqs)
next
  fix d w b w'
  assume api: "kube_api (svc_clientset svc) V" and c: "rb_create svc u d w = (Inr b, w')"
  let ?o = "bindingObject svc u (fst d) (snd (snd d))"
  have "rc_Create (cs_RoleBindings (svc_clientset svc)) (fst (snd d)) ?o w = (Inr b, w')"
    using c by (simp add: rb_request_defs single_call_eqs)
  note created = rbac_api_create [OF kube_apiD(2) [OF api] this]
  show "v_RB V w (rb_key u d) = None \<and>
      (\<exists>c. v_RB V w' (rb_key u d) = Some c \<and> managed_for svc u c \<and> rb_wanted svc u d c)"
    using created stored_managed [OF created(3) managed_bindingObject] sole_sa_subjects [of b svc u]
    by (auto simp: rb_request_defs stored_as_def rb_wanted_def)
next
  fix d w b w' old
  assume api: "kube_api (svc_clientset svc) V" and c: "rb_modify svc u d w = (Inr b, w')"
    and old: "v_RB V w (rb_key u d) = Some old" "managed_for svc u old"
  from get_update_ok [OF kube_apiD(2) [OF api] c [unfolded rb_modify_def UpdateRoleBinding_eq]]
  have b: "v_RB V w' (rb_key u d) = Some b"
    "stored_as (old\<lparr>rb_RoleRef := snd (snd d), rb_Subjects := sa_subjects svc u\<rparr>) b"
    using old(1) by (auto simp: rb_key_def)
  have "managed_for svc u b"
    by (rule stored_managed [OF b(2)])
       (use old(2) in \<open>simp add: managed_for_def has_label_def any_sa_subjects\<close>)
  then show "\<exists>c. v_RB V w' (rb_key u d) = Some c \<and> managed_for svc u c \<and> rb_wanted svc u d c"
    using b sole_sa_subjects [of b svc u] by (auto simp: rb_wanted_def stored_as_def)
next
  fix k w x w'
  assume "kube_api (svc_clientset svc) V" "rb_remove svc k w = (Inr x, w')"
  then show "v_RB V w' k = None"
    using rbac_api_delete [OF kube_apiD(2)] by (cases k) (auto simp: rb_request_defs single_call_eqs)
qed

section \<open>Other resources are not touched\<close>

lemma crb_calls_keep:
  assumes "rbac_client_keeps f (cs_ClusterRoleBindings (svc_clientset svc))"
  shows "keeps f (GetClusterRoleBindings svc u)" "keeps f (crb_create svc u d)"
    "keeps f (crb_modify svc u d)" "keeps f (crb_remove svc k)"
proof -
  note r = rbac_client_keepsD [OF assms]
  show "keeps f (GetClusterRoleBindings svc u)"
    unfolding GetClusterRoleBindings_def by (intro keeps_rules r)
  show "keeps f (crb_modify svc u d)"
    unfolding crb_modify_def UpdateClusterRoleBinding_eq by (intro keeps_rules r)
  show "keeps f (crb_create svc u d)" "keeps f (crb_remove svc k)"
    by (simp_all add: crb_request_defs single_call_eqs r)
qed

lemma rb_calls_keep:
  assumes "rbac_client_keeps f (cs_RoleBindings (svc_clientset svc))"
  shows "keeps f (GetRoleBindings svc u)" "keeps f (rb_create svc u d)"
    "keeps f (rb_modify svc u d)" "keeps f (rb_remove svc k)"
proof -
  note r = rbac_client_keepsD [OF assms]
  show "keeps f (GetRoleBindings svc u)"
    unfolding GetRoleBindings_def by (intro keeps_rules r)
  show "keeps f (rb_modify svc u d)"
    unfolding rb_modify_def UpdateRoleBinding_eq by (intro keeps_rules r)
  show "keeps f (rb_create svc u d)" "keeps f (rb_remove svc k)"
    by (simp_all add: rb_request_defs single_call_eqs r)
qed

lemma sa_calls_keep:
  assumes "sa_client_keeps f (cs_ServiceAccounts (svc_clientset svc))"
  shows "keeps f (UpsertServiceAccount svc u)" "keeps f (IssueToken svc u)"
proof -
  note r = sa_client_keepsD [OF assms]
  show "keeps f (UpsertServiceAccount svc u)"
    unfolding UpsertServiceAccount_def by (intro keeps_rules r) (simp add: single_call_eqs r)
  show "keeps f (IssueToken svc u)" by (simp add: single_call_eqs r)
qed

section \<open>What listing returns\<close>

lemma selector_ok: "CHR ''='' \<notin> set saManagedLabel" "CHR ''='' \<notin> set ''true''"
  by (simp_all add: saManagedLabel_def)

lemma listed_managed:
  assumes "rbac_api ns all cl view" "rc_List cl all (saManagedLabel @ ''=true'') w = (Inr items, w')"
  shows "distinct (map (\<lambda>b. (rb_Namespace b, rb_Name b)) (filterBindings (svc_namespace svc) u items))"
    and "set (filterBindings (svc_namespace svc) u items) = {b. managed_for svc u b \<and> (\<exists>k. view w k = Some b)}"
  using rbac_api_list [OF assms(1) _ selector_ok, of w items w'] assms(2)
  by (auto simp: filterBindings_filter managed_for_def distinct_map_filter)

lemma GetClusterRoleBindings_keeps:
  assumes api: "kube_api (svc_clientset svc) V"
  shows "keeps (v_CRB V) (GetClusterRoleBindings svc u)" "keeps (v_RB V) (GetRoleBindings svc u)"
proof -
  show "keeps (v_CRB V) (GetClusterRoleBindings svc u)"
    unfolding GetClusterRoleBindings_def
    by (intro keeps_rules rbac_api_reads(1) [OF kube_apiD(1) [OF api]])
  show "keeps (v_RB V) (GetRoleBindings svc u)"
    unfolding GetRoleBindings_def
    by (intro keeps_rules rbac_api_reads(1) [OF kube_apiD(2) [OF api]])
qed

lemma GetClusterRoleBindings_spec:
  assumes api: "kube_api (svc_clientset svc) V" and run: "GetClusterRoleBindings svc u w = (Inr bs, w')"
  shows "v_CRB V w' = v_CRB V w" and "distinct (map rb_Name bs)"
    and "set bs = {b. managed_for svc u b \<and> (\<exists>k. v_CRB V w k = Some b)}"
proof -
  obtain items where l: "rc_List (cs_ClusterRoleBindings (svc_clientset svc)) () (saManagedLabel @ ''=true'') w = (Inr items, w')"
    and bs: "bs = filterBindings (svc_namespace svc) u items"
    using run by (auto simp: GetClusterRoleBindings_def split: prod.splits sum.splits)
  note rbac = kube_apiD(1) [OF api]
  show "v_CRB V w' = v_CRB V w" using keeps_eq [OF rbac_api_reads(1) [OF rbac] l] .
  show bs_set: "set bs = {b. managed_for svc u b \<and> (\<exists>k. v_CRB V w k = Some b)}"
    using listed_managed(2) [OF rbac l] bs by simp
  have "\<forall>b\<in>set bs. rb_Namespace b = ''''"
    using bs_set rbac_api_key [OF rbac] by (auto simp: split_paired_all)
  then have "inj_on (\<lambda>b. (rb_Namespace b, rb_Name b)) (set bs) \<Longrightarrow> inj_on rb_Name (set bs)"
    by (auto simp: inj_on_def)
  then show "distinct (map rb_Name bs)"
    using listed_managed(1) [OF rbac l, of svc u] bs by (auto simp: distinct_map)
qed

lemma GetRoleBindings_spec:
  assumes api: "kube_api (svc_clientset svc) V" and run: "GetRoleBindings svc u w = (Inr bs, w')"
  shows "v_RB V w' = v_RB V w" and "distinct (map (\<lambda>b. (rb_Namespace b, rb_Name b)) bs)"
    and "set bs = {b. managed_for svc u b \<and> (\<exists>k. v_RB V w k = Some b)}"
proof -
  obtain items where l: "rc_List (cs_RoleBindings (svc_clientset svc)) '''' (saManagedLabel @ ''=true'') w = (Inr items, w')"
    and bs: "bs = filterBindings (svc_namespace svc) u items"
    using run by (auto simp: GetRoleBindings_def split: prod.splits sum.splits)
  note rbac = kube_apiD(2) [OF api]
  show "v_RB V w' = v_RB V w" using keeps_eq [OF rbac_api_reads(1) [OF rbac] l] .
  show "distinct (map (\<lambda>b. (rb_Namespace b, rb_Name b)) bs)"
    and "set bs = {b. managed_for svc u b \<and> (\<exists>k. v_RB V w k = Some b)}"
    using listed_managed [OF rbac l] bs by simp_all
qed

end
