(* ===== verification/Ldap.thy ===== *)
theory Ldap
  imports Env
begin

text \<open>
  \<open>internal/services/ldap/ldap.service.go\<close>: looking a user and its groups up, each in a
  connection of its own. The LDAP client library is a parameter: a record of its calls on an
  arbitrary world. \<open>fmt.Sprintf\<close> with one string argument is modelled for the directives
  \<open>%s\<close>, \<open>%v\<close> and \<open>%%\<close>; on a format with any other directive it is the parameter
  \<open>ls_Sprintf_other\<close>.
\<close>

section \<open>Formatting one argument\<close>

fun simple_format :: "string \<Rightarrow> bool" where
  "simple_format [] = True"
| "simple_format [c] = (c \<noteq> CHR ''%'')"
| "simple_format (c # d # fmt) =
     (if c = CHR ''%'' then d \<in> {CHR ''s'', CHR ''v'', CHR ''%''} \<and> simple_format fmt
      else simple_format (d # fmt))"

text \<open>\<open>used\<close>: the argument has been consumed by an earlier directive.\<close>

fun format1 :: "string \<Rightarrow> bool \<Rightarrow> string \<Rightarrow> string" where
  "format1 a used [] = (if used then '''' else ''%!(EXTRA string='' @ a @ '')'')"
| "format1 a used [c] = c # format1 a used []"
| "format1 a used (c # d # fmt) =
     (if c = CHR ''%'' then
        (if d = CHR ''%'' then CHR ''%'' # format1 a used fmt
         else if used then ''%!'' @ [d] @ ''(MISSING)'' @ format1 a used fmt
         else a @ format1 a True fmt)
      else c # format1 a used (d # fmt))"

definition Sprintf1 :: "(string \<Rightarrow> string \<Rightarrow> string) \<Rightarrow> string \<Rightarrow> string \<Rightarrow> string" where
  "Sprintf1 other fmt a = (if simple_format fmt then format1 a False fmt else other fmt a)"

section \<open>The client library\<close>

datatype ldap_error = LDAPResultNoSuchObject | LDAPResultAmbiguousResponse | LdapError string

datatype ldap_scope = ScopeBaseObject | ScopeSingleLevel | ScopeWholeSubtree

datatype ldap_deref = NeverDerefAliases | DerefAlways

record Entry =
  entry_DN :: string

record SearchRequest =
  sr_BaseDN :: string
  sr_Scope :: ldap_scope
  sr_DerefAliases :: ldap_deref
  sr_SizeLimit :: int
  sr_TimeLimit :: int
  sr_TypesOnly :: bool
  sr_Filter :: string
  sr_Attributes :: "string list"

type_synonym conn = nat

record 'w ldap_lib =
  ll_DialURL :: "string \<Rightarrow> ('w, ldap_error, conn) action"
  ll_Close :: "conn \<Rightarrow> ('w, ldap_error, unit) action"
  ll_Bind :: "conn \<Rightarrow> string \<Rightarrow> string \<Rightarrow> ('w, ldap_error, unit) action"
  ll_Search :: "conn \<Rightarrow> SearchRequest \<Rightarrow> ('w, ldap_error, Entry list) action"

record 'w ldapSvc =
  ls_env :: Env
  ls_lib :: "'w ldap_lib"
  ls_Sprintf_other :: "string \<Rightarrow> string \<Rightarrow> string"

section \<open>The service\<close>

definition New_Ldap :: "Env \<Rightarrow> 'w ldap_lib \<Rightarrow> (string \<Rightarrow> string \<Rightarrow> string) \<Rightarrow> 'w ldapSvc" where
  "New_Ldap env lib other = \<lparr>ls_env = env, ls_lib = lib, ls_Sprintf_other = other\<rparr>"

text \<open>
  Dial, bind, run \<open>fn\<close>, and close on every path once the dial succeeded (the deferred
  close, whose own error is only logged).
\<close>

definition withConnection ::
  "'w ldapSvc \<Rightarrow> (conn \<Rightarrow> ('w, ldap_error, 'a) action) \<Rightarrow> ('w, ldap_error, 'a) action" where
  "withConnection s fn w =
     (case ll_DialURL (ls_lib s) (env_LDAPURL (ls_env s)) w of
        (Inl err, w1) \<Rightarrow> (Inl err, w1)
      | (Inr conn, w1) \<Rightarrow>
          (let (r, w2) =
             (case ll_Bind (ls_lib s) conn (env_LDAPBindDN (ls_env s)) (env_LDAPBindPassword (ls_env s)) w1 of
                (Inl err, w2) \<Rightarrow> (Inl err, w2)
              | (Inr _, w2) \<Rightarrow> fn conn w2)
           in (r, snd (ll_Close (ls_lib s) conn w2))))"

definition searchRequest :: "string \<Rightarrow> string \<Rightarrow> SearchRequest" where
  "searchRequest baseDN flt =
     \<lparr>sr_BaseDN = baseDN, sr_Scope = ScopeWholeSubtree, sr_DerefAliases = NeverDerefAliases,
      sr_SizeLimit = 0, sr_TimeLimit = 0, sr_TypesOnly = False, sr_Filter = flt,
      sr_Attributes = [''dn'']\<rparr>"

definition GetUser :: "'w ldapSvc \<Rightarrow> string \<Rightarrow> ('w, ldap_error, Entry) action" where
  "GetUser s username =
     withConnection s (\<lambda>conn w.
       case ll_Search (ls_lib s) conn
              (searchRequest (env_LDAPUserBaseDN (ls_env s))
                 (Sprintf1 (ls_Sprintf_other s) (env_LDAPUserFilter (ls_env s)) username)) w of
         (Inl err, w') \<Rightarrow> (Inl err, w')
       | (Inr entries, w') \<Rightarrow>
           (if length entries = 0 then (Inl LDAPResultNoSuchObject, w')
            else if length entries > 1 then (Inl LDAPResultAmbiguousResponse, w')
            else (Inr (entries ! 0), w')))"

definition GetUserGroups :: "'w ldapSvc \<Rightarrow> string \<Rightarrow> ('w, ldap_error, string list) action" where
  "GetUserGroups s dn =
     withConnection s (\<lambda>conn w.
       case ll_Search (ls_lib s) conn
              (searchRequest (env_LDAPGroupBaseDN (ls_env s))
                 (Sprintf1 (ls_Sprintf_other s) (env_LDAPGroupFilter (ls_env s)) dn)) w of
         (Inl err, w') \<Rightarrow> (Inl err, w')
       | (Inr entries, w') \<Rightarrow>
           (Inr (fold (\<lambda>entry groups. groups @ [entry_DN entry]) entries []), w'))"

end
