(* ===== verification/Scheme.thy ===== *)
theory Scheme
  imports KubeTypes
begin

text \<open>
  \<open>k8s/api/rbac.kerbernetes.io/v1/register.go\<close>: the group and version of the custom resource,
  its qualified names, and the registration of its types; and the choice by kind of
  \<open>applyconfiguration/utils.go\<close>. The identifier types of the API machinery are records here.
\<close>

record GroupVersion =
  gv_Group :: string
  gv_Version :: string

record GroupVersionKind =
  gvk_Group :: string
  gvk_Version :: string
  gvk_Kind :: string

record GroupVersionResource =
  gvr_Group :: string
  gvr_Version :: string
  gvr_Resource :: string

record GroupKind =
  gk_Group :: string
  gk_Kind :: string

record GroupResource =
  gr_Group :: string
  gr_Resource :: string

definition WithKind :: "GroupVersion \<Rightarrow> string \<Rightarrow> GroupVersionKind" where
  "WithKind gv kind = \<lparr>gvk_Group = gv_Group gv, gvk_Version = gv_Version gv, gvk_Kind = kind\<rparr>"

definition WithResource :: "GroupVersion \<Rightarrow> string \<Rightarrow> GroupVersionResource" where
  "WithResource gv resource =
     \<lparr>gvr_Group = gv_Group gv, gvr_Version = gv_Version gv, gvr_Resource = resource\<rparr>"

definition to_GroupKind :: "GroupVersionKind \<Rightarrow> GroupKind" where
  "to_GroupKind gvk = \<lparr>gk_Group = gvk_Group gvk, gk_Kind = gvk_Kind gvk\<rparr>"

definition to_GroupResource :: "GroupVersionResource \<Rightarrow> GroupResource" where
  "to_GroupResource gvr = \<lparr>gr_Group = gvr_Group gvr, gr_Resource = gvr_Resource gvr\<rparr>"

definition GroupName :: string where
  "GroupName = ''rbac.kerbernetes.io''"

definition SchemeGroupVersion :: GroupVersion where
  "SchemeGroupVersion = \<lparr>gv_Group = GroupName, gv_Version = ''v1''\<rparr>"

definition Kind :: "string \<Rightarrow> GroupKind" where
  "Kind kind = to_GroupKind (WithKind SchemeGroupVersion kind)"

definition Resource :: "string \<Rightarrow> GroupResource" where
  "Resource resource = to_GroupResource (WithResource SchemeGroupVersion resource)"

text \<open>
  A scheme maps kinds to Go types. \<open>AddKnownTypes\<close> registers types under their own names;
  \<open>AddToGroupVersion\<close> adds the library's types of a group version.
\<close>

type_synonym scheme = "(GroupVersionKind \<times> string) list"

definition AddKnownTypes :: "GroupVersion \<Rightarrow> string list \<Rightarrow> scheme \<Rightarrow> scheme" where
  "AddKnownTypes gv types s = fold (\<lambda>ty. AList.update (WithKind gv ty) ty) types s"

definition addKnownTypes :: "(GroupVersion \<Rightarrow> scheme \<Rightarrow> scheme) \<Rightarrow> scheme \<Rightarrow> scheme" where
  "addKnownTypes AddToGroupVersion s =
     AddToGroupVersion SchemeGroupVersion
       (AddKnownTypes SchemeGroupVersion [''LdapGroupBinding'', ''LdapGroupBindingList''] s)"

text \<open>The apply configuration for a kind, by the name of its type; \<open>None\<close> is nil.\<close>

definition ForKind :: "GroupVersionKind \<Rightarrow> string option" where
  "ForKind kind =
     (if kind = WithKind SchemeGroupVersion ''LdapGroupBinding'' then
        Some ''LdapGroupBindingApplyConfiguration''
      else if kind = WithKind SchemeGroupVersion ''LdapGroupBindingItem'' then
        Some ''LdapGroupBindingItemApplyConfiguration''
      else if kind = WithKind SchemeGroupVersion ''LdapGroupBindingSpec'' then
        Some ''LdapGroupBindingSpecApplyConfiguration''
      else None)"

end
