(* ===== verification/InformerFactory.thy ===== *)
theory InformerFactory
  imports Scheme
begin

text \<open>
  The generated informer factory, \<open>k8s/generated/informers/externalversions\<close>: \<open>factory.go\<close>,
  \<open>generic.go\<close>, \<open>rbac.kerbernetes.io/interface.go\<close>, \<open>v1/interface.go\<close> and
  \<open>v1/ldapgroupbinding.go\<close>. An informer is an object of the client library that several
  callers share, so it lives in a heap and is known by its address. The heap records what the
  code passes to \<open>cache.NewSharedIndexInformer\<close> and to its methods. Client sets and functions
  that are only handed on are known by their address too. Each method of the factory runs
  under its lock and is one step.
\<close>

section \<open>Informers of the client library\<close>

type_synonym addr = nat
type_synonym rtype = string
type_synonym duration = goint

record ListOptions =
  lo_LabelSelector :: string
  lo_FieldSelector :: string

type_synonym TweakListOptionsFunc = "ListOptions \<Rightarrow> ListOptions"

text \<open>\<open>inf_List\<close> and \<open>inf_Watch\<close> are the options the client is asked with.\<close>

record SharedIndexInformer =
  inf_client :: addr
  inf_List :: "ListOptions \<Rightarrow> ListOptions"
  inf_Watch :: "ListOptions \<Rightarrow> ListOptions"
  inf_type :: rtype
  inf_resync :: duration
  inf_indexers :: "string list"
  inf_transform :: "addr option"
  inf_handlers :: nat

record informer_heap =
  ih_next :: addr
  ih_objs :: "addr \<Rightarrow> SharedIndexInformer option"

definition new_informer :: "SharedIndexInformer \<Rightarrow> informer_heap \<Rightarrow> addr \<times> informer_heap" where
  "new_informer i h = (ih_next h, h\<lparr>ih_next := Suc (ih_next h), ih_objs := (ih_objs h)(ih_next h \<mapsto> i)\<rparr>)"

definition SetTransform :: "addr option \<Rightarrow> addr \<Rightarrow> informer_heap \<Rightarrow> informer_heap" where
  "SetTransform t a h =
     h\<lparr>ih_objs := (ih_objs h)(a := map_option (inf_transform_update (\<lambda>_. t)) (ih_objs h a))\<rparr>"

section \<open>The factory\<close>

record sharedInformerFactory =
  fct_client :: addr
  fct_namespace :: string
  fct_tweakListOptions :: "TweakListOptionsFunc option"
  fct_defaultResync :: duration
  fct_customResync :: "(rtype, duration) gomap"
  fct_transform :: "addr option"
  fct_informers :: "(rtype, addr) gomap"
  fct_startedInformers :: "(rtype, bool) gomap"
  fct_wg :: nat
  fct_shuttingDown :: bool

type_synonym SharedInformerOption = "sharedInformerFactory \<Rightarrow> sharedInformerFactory"

text \<open>The configuration is listed in the order in which the loop over the map visits it.\<close>

definition WithCustomResyncConfig :: "(rtype \<times> duration) list \<Rightarrow> SharedInformerOption" where
  "WithCustomResyncConfig resyncConfig factory =
     fold (\<lambda>(k, v) f. f\<lparr>fct_customResync := AList.update k v (fct_customResync f)\<rparr>) resyncConfig factory"

definition WithTweakListOptions :: "TweakListOptionsFunc option \<Rightarrow> SharedInformerOption" where
  "WithTweakListOptions tweak factory = factory\<lparr>fct_tweakListOptions := tweak\<rparr>"

definition WithNamespace :: "string \<Rightarrow> SharedInformerOption" where
  "WithNamespace namespace factory = factory\<lparr>fct_namespace := namespace\<rparr>"

definition WithTransform :: "addr option \<Rightarrow> SharedInformerOption" where
  "WithTransform transform factory = factory\<lparr>fct_transform := transform\<rparr>"

definition NewSharedInformerFactoryWithOptions ::
  "addr \<Rightarrow> duration \<Rightarrow> SharedInformerOption list \<Rightarrow> sharedInformerFactory" where
  "NewSharedInformerFactoryWithOptions client defaultResync options =
     fold (\<lambda>opt factory. opt factory) options
       \<lparr>fct_client = client, fct_namespace = '''', fct_tweakListOptions = None,
        fct_defaultResync = defaultResync, fct_customResync = [], fct_transform = None,
        fct_informers = [], fct_startedInformers = [], fct_wg = 0, fct_shuttingDown = False\<rparr>"

definition NewSharedInformerFactory :: "addr \<Rightarrow> duration \<Rightarrow> sharedInformerFactory" where
  "NewSharedInformerFactory client defaultResync =
     NewSharedInformerFactoryWithOptions client defaultResync []"

definition NewFilteredSharedInformerFactory ::
  "addr \<Rightarrow> duration \<Rightarrow> string \<Rightarrow> TweakListOptionsFunc option \<Rightarrow> sharedInformerFactory" where
  "NewFilteredSharedInformerFactory client defaultResync namespace tweak =
     NewSharedInformerFactoryWithOptions client defaultResync
       [WithNamespace namespace, WithTweakListOptions tweak]"

text \<open>
  \<open>Start\<close> returns the informers whose \<open>Run\<close> it puts into a goroutine; \<open>ord\<close> is the order of
  the loop over the map.
\<close>

definition is_started :: "sharedInformerFactory \<Rightarrow> rtype \<Rightarrow> bool" where
  "is_started f ty \<longleftrightarrow> map_of (fct_startedInformers f) ty = Some True"

fun start_loop ::
  "(rtype \<times> addr) list \<Rightarrow> sharedInformerFactory \<Rightarrow> sharedInformerFactory \<times> addr list" where
  "start_loop [] f = (f, [])"
| "start_loop ((informerType, informer) # es) f =
     (if \<not> is_started f informerType then
        (let f1 = f\<lparr>fct_wg := Suc (fct_wg f)\<rparr>;
             f2 = f1\<lparr>fct_startedInformers := AList.update informerType True (fct_startedInformers f1)\<rparr>;
             (f3, run) = start_loop es f2
         in (f3, informer # run))
      else start_loop es f)"

definition factory_Start ::
  "(rtype list \<Rightarrow> rtype list) \<Rightarrow> sharedInformerFactory \<Rightarrow> sharedInformerFactory \<times> addr list" where
  "factory_Start ord f =
     (if fct_shuttingDown f then (f, []) else start_loop (range_entries ord (fct_informers f)) f)"

text \<open>A goroutine of \<open>Start\<close> ends when its \<open>Run\<close> returns.\<close>

definition Done :: "sharedInformerFactory \<Rightarrow> sharedInformerFactory" where
  "Done f = f\<lparr>fct_wg := fct_wg f - 1\<rparr>"

text \<open>\<open>Shutdown\<close> marks the factory; it returns when the count of goroutines is zero.\<close>

definition Shutdown :: "sharedInformerFactory \<Rightarrow> sharedInformerFactory" where
  "Shutdown f = f\<lparr>fct_shuttingDown := True\<rparr>"

definition Shutdown_returns :: "sharedInformerFactory \<Rightarrow> bool" where
  "Shutdown_returns f \<longleftrightarrow> fct_shuttingDown f \<and> fct_wg f = 0"

text \<open>\<open>synced a\<close> is the result of \<open>cache.WaitForCacheSync\<close> on the informer at \<open>a\<close>.\<close>

definition factory_WaitForCacheSync ::
  "(rtype list \<Rightarrow> rtype list) \<Rightarrow> (addr \<Rightarrow> bool) \<Rightarrow> sharedInformerFactory \<Rightarrow> (rtype, bool) gomap" where
  "factory_WaitForCacheSync ord synced f =
     (let informers = filter (\<lambda>(ty, i). is_started f ty) (fct_informers f)
      in map (\<lambda>(ty, i). (ty, synced i)) (range_entries ord informers))"

type_synonym NewInformerFunc = "addr \<Rightarrow> duration \<Rightarrow> informer_heap \<Rightarrow> addr \<times> informer_heap"

definition InformerFor ::
  "rtype \<Rightarrow> NewInformerFunc \<Rightarrow> sharedInformerFactory \<Rightarrow> informer_heap \<Rightarrow>
     addr \<times> sharedInformerFactory \<times> informer_heap" where
  "InformerFor informerType newFunc f h =
     (case map_of (fct_informers f) informerType of
        Some informer \<Rightarrow> (informer, f, h)
      | None \<Rightarrow>
          (let resyncPeriod = (case map_of (fct_customResync f) informerType of
                 Some period \<Rightarrow> period | None \<Rightarrow> fct_defaultResync f);
               (informer, h1) = newFunc (fct_client f) resyncPeriod h;
               h2 = SetTransform (fct_transform f) informer h1
           in (informer, f\<lparr>fct_informers := AList.update informerType informer (fct_informers f)\<rparr>, h2)))"

section \<open>The informer of LdapGroupBindings\<close>

text \<open>
  The group, version and resource accessors hand the factory on, with the namespace and the
  list options it was made with. The factory itself is passed to the operations.
\<close>

record group_access =
  grp_namespace :: string
  grp_tweakListOptions :: "TweakListOptionsFunc option"

record ldapGroupBindingInformer =
  lgi_tweakListOptions :: "TweakListOptionsFunc option"

definition RbacKerbernetes :: "sharedInformerFactory \<Rightarrow> group_access" where
  "RbacKerbernetes f = \<lparr>grp_namespace = fct_namespace f, grp_tweakListOptions = fct_tweakListOptions f\<rparr>"

definition V1 :: "group_access \<Rightarrow> group_access" where
  "V1 g = \<lparr>grp_namespace = grp_namespace g, grp_tweakListOptions = grp_tweakListOptions g\<rparr>"

definition LdapGroupBindings :: "group_access \<Rightarrow> ldapGroupBindingInformer" where
  "LdapGroupBindings v = \<lparr>lgi_tweakListOptions = grp_tweakListOptions v\<rparr>"

definition tweaked :: "TweakListOptionsFunc option \<Rightarrow> ListOptions \<Rightarrow> ListOptions" where
  "tweaked tweak options = (case tweak of None \<Rightarrow> options | Some f \<Rightarrow> f options)"

definition NewFilteredLdapGroupBindingInformer ::
  "addr \<Rightarrow> duration \<Rightarrow> string list \<Rightarrow> TweakListOptionsFunc option \<Rightarrow> informer_heap \<Rightarrow>
     addr \<times> informer_heap" where
  "NewFilteredLdapGroupBindingInformer client resyncPeriod indexers tweak h =
     new_informer
       \<lparr>inf_client = client, inf_List = tweaked tweak, inf_Watch = tweaked tweak,
        inf_type = ''*v1.LdapGroupBinding'', inf_resync = resyncPeriod, inf_indexers = indexers,
        inf_transform = None, inf_handlers = 0\<rparr> h"

definition NewLdapGroupBindingInformer ::
  "addr \<Rightarrow> duration \<Rightarrow> string list \<Rightarrow> informer_heap \<Rightarrow> addr \<times> informer_heap" where
  "NewLdapGroupBindingInformer client resyncPeriod indexers =
     NewFilteredLdapGroupBindingInformer client resyncPeriod indexers None"

definition defaultInformer :: "ldapGroupBindingInformer \<Rightarrow> NewInformerFunc" where
  "defaultInformer i client resyncPeriod =
     NewFilteredLdapGroupBindingInformer client resyncPeriod [''namespace''] (lgi_tweakListOptions i)"

definition Informer ::
  "ldapGroupBindingInformer \<Rightarrow> sharedInformerFactory \<Rightarrow> informer_heap \<Rightarrow>
     addr \<times> sharedInformerFactory \<times> informer_heap" where
  "Informer i = InformerFor ''*v1.LdapGroupBinding'' (defaultInformer i)"

record genericInformer =
  gi_informer :: addr
  gi_resource :: GroupResource

definition ForResource ::
  "GroupVersionResource \<Rightarrow> sharedInformerFactory \<Rightarrow> informer_heap \<Rightarrow>
     (string + genericInformer) \<times> sharedInformerFactory \<times> informer_heap" where
  "ForResource resource f h =
     (if resource = WithResource SchemeGroupVersion ''ldapgroupbindings'' then
        (case Informer (LdapGroupBindings (V1 (RbacKerbernetes f))) f h of
           (informer, f', h') \<Rightarrow>
             (Inr \<lparr>gi_informer = informer, gi_resource = to_GroupResource resource\<rparr>, f', h'))
      else (Inl ''no informer found'', f, h))"

section \<open>Facts about the operations\<close>

text \<open>What the loop of \<open>Start\<close> does, for a map's entries.\<close>

lemma start_loop_spec:
  assumes "distinct (map fst es)" and "start_loop es f = (f', run)"
  shows "run = map snd (filter (\<lambda>(ty, i). \<not> is_started f ty) es)"
    and "is_started f' ty \<longleftrightarrow> is_started f ty \<or> ty \<in> fst ` set es"
    and "fct_wg f' = fct_wg f + length run"
    and "fct_informers f' = fct_informers f" "fct_shuttingDown f' = fct_shuttingDown f"
proof -
  have "run = map snd (filter (\<lambda>(ty, i). \<not> is_started f ty) es) \<and>
      (\<forall>ty. is_started f' ty \<longleftrightarrow> is_started f ty \<or> ty \<in> fst ` set es) \<and>
      fct_wg f' = fct_wg f + length run \<and>
      fct_informers f' = fct_informers f \<and> fct_shuttingDown f' = fct_shuttingDown f"
    using assms
  proof (induction es arbitrary: f f' run)
    case Nil
    then show ?case by simp
  next
    case (Cons e es)
    obtain ty i where e: "e = (ty, i)" by fastforce
    show ?case
    proof (cases "is_started f ty")
      case True
      then show ?thesis using Cons e by auto
    next
      case False
      let ?f2 = "f\<lparr>fct_wg := Suc (fct_wg f), fct_startedInformers := AList.update ty True (fct_startedInformers f)\<rparr>"
      obtain f3 run' where loop: "start_loop es ?f2 = (f3, run')" by fastforce
      have "f' = f3" "run = i # run'" using Cons.prems(2) False e loop by simp_all
      moreover have started: "is_started ?f2 t \<longleftrightarrow> is_started f t \<or> t = ty" for t
        by (auto simp: is_started_def update_conv')
      moreover have "filter (\<lambda>(t, i). \<not> is_started ?f2 t) es = filter (\<lambda>(t, i). \<not> is_started f t) es"
        using Cons.prems(1) e by (intro filter_cong) (auto simp: started rev_image_eqI)
      moreover have "distinct (map fst es)" using Cons.prems(1) by simp
      moreover note Cons.IH [OF this loop]
      ultimately show ?thesis using Cons.prems(1) e False by auto
    qed
  qed
  then show "run = map snd (filter (\<lambda>(ty, i). \<not> is_started f ty) es)"
    and "is_started f' ty \<longleftrightarrow> is_started f ty \<or> ty \<in> fst ` set es"
    and "fct_wg f' = fct_wg f + length run"
    and "fct_informers f' = fct_informers f" "fct_shuttingDown f' = fct_shuttingDown f"
    by simp_all
qed

lemma factory_Start_informers: "fct_informers (fst (factory_Start ord f)) = fct_informers f"
proof -
  have "fct_informers (fst (start_loop es f)) = fct_informers f" for es
    by (induction es f rule: start_loop.induct) (auto simp: Let_def split: prod.splits)
  then show ?thesis by (simp add: factory_Start_def)
qed

lemma SetTransform_next: "ih_next (SetTransform t a h) = ih_next h"
  by (simp add: SetTransform_def)

section \<open>The interface\<close>

text \<open>
  What a user of the factory relies on: asking for a type again gives the same informer and
  makes none, and starting does not change which informer belongs to a type.
\<close>

locale informer_source =
  fixes informer_for :: "rtype \<Rightarrow> NewInformerFunc \<Rightarrow> 'f \<Rightarrow> informer_heap \<Rightarrow> addr \<times> 'f \<times> informer_heap"
    and start :: "'f \<Rightarrow> 'f \<times> addr list"
    and known :: "'f \<Rightarrow> rtype \<Rightarrow> addr option"
  assumes for_known: "known f ty = Some i \<Longrightarrow> informer_for ty new f h = (i, f, h)"
    and for_new: "informer_for ty new f h = (i, f', h') \<Longrightarrow> known f' ty = Some i"
    and for_other: "informer_for ty new f h = (i, f', h') \<Longrightarrow> ty' \<noteq> ty \<Longrightarrow> known f' ty' = known f ty'"
    and start_known: "known (fst (start f)) = known f"
begin

lemma for_again:
  assumes "informer_for ty new f h = (i, f', h')"
  shows "informer_for ty new' f' h'' = (i, f', h'')"
  by (rule for_known [OF for_new [OF assms]])

lemma for_after_start:
  assumes "informer_for ty new f h = (i, f', h')"
  shows "informer_for ty new' (fst (start f')) h'' = (i, fst (start f'), h'')"
proof -
  have "known (fst (start f')) ty = Some i" using for_new [OF assms] by (simp only: start_known)
  then show ?thesis by (rule for_known)
qed

lemma for_keeps:
  "known f ty = Some i \<Longrightarrow> informer_for ty' new f h = (j, f', h') \<Longrightarrow> known f' ty = Some i"
  by (cases "ty' = ty") (auto simp: for_known dest: for_other)

end

definition informer_of :: "sharedInformerFactory \<Rightarrow> rtype \<Rightarrow> addr option" where
  "informer_of f ty = map_of (fct_informers f) ty"

interpretation fct: informer_source InformerFor "factory_Start ord" informer_of for ord
  by unfold_locales
     (auto simp: informer_of_def InformerFor_def factory_Start_informers update_conv' Let_def fun_eq_iff
       split: option.splits prod.splits)

end
