(* ===== verification/Slices.thy ===== *)
theory Slices
  imports Prelude
begin

text \<open>
  Go slices over a store of arrays, for code whose behaviour depends on two slices sharing
  one array. A slice is an array address, a length and a capacity (no slice of the modelled
  code has an offset). An array is the list of its cells written so far; the cells beyond it
  up to the capacity hold the zero value and are outside every slice. \<open>extra\<close> gives the spare
  capacity the runtime adds when \<open>append\<close> has to allocate, which the language leaves open.
\<close>

record 'a store =
  st_next :: nat
  st_arrays :: "nat \<Rightarrow> 'a list"

record slice =
  sl_arr :: nat
  sl_len :: nat
  sl_cap :: nat

definition slice_elems :: "'a store \<Rightarrow> slice \<Rightarrow> 'a list" where
  "slice_elems st s = take (sl_len s) (st_arrays st (sl_arr s))"

text \<open>\<open>[]T{}\<close>, \<open>s[i] = x\<close> for an index in range, and \<open>append(s, x)\<close>.\<close>

definition empty_slice :: "'a store \<Rightarrow> 'a store \<times> slice" where
  "empty_slice st =
     (st\<lparr>st_next := Suc (st_next st), st_arrays := (st_arrays st)(st_next st := [])\<rparr>,
      \<lparr>sl_arr = st_next st, sl_len = 0, sl_cap = 0\<rparr>)"

definition slice_set :: "'a store \<Rightarrow> slice \<Rightarrow> nat \<Rightarrow> 'a \<Rightarrow> 'a store" where
  "slice_set st s i x =
     st\<lparr>st_arrays := (st_arrays st)(sl_arr s := (st_arrays st (sl_arr s))[i := x])\<rparr>"

definition slice_append :: "(nat \<Rightarrow> nat) \<Rightarrow> 'a store \<Rightarrow> slice \<Rightarrow> 'a \<Rightarrow> 'a store \<times> slice" where
  "slice_append extra st s x =
     (if sl_len s < sl_cap s then
        (st\<lparr>st_arrays := (st_arrays st)(sl_arr s :=
              take (sl_len s) (st_arrays st (sl_arr s)) @ x # drop (Suc (sl_len s)) (st_arrays st (sl_arr s)))\<rparr>,
         s\<lparr>sl_len := Suc (sl_len s)\<rparr>)
      else
        (st\<lparr>st_next := Suc (st_next st),
            st_arrays := (st_arrays st)(st_next st := slice_elems st s @ [x])\<rparr>,
         \<lparr>sl_arr = st_next st, sl_len = Suc (sl_len s), sl_cap = Suc (sl_len s) + extra (sl_len s)\<rparr>))"

text \<open>A slice of the store: allocated, and its cells written.\<close>

definition slice_ok :: "'a store \<Rightarrow> slice \<Rightarrow> bool" where
  "slice_ok st s \<longleftrightarrow>
     sl_arr s < st_next st \<and> sl_len s \<le> length (st_arrays st (sl_arr s)) \<and> sl_len s \<le> sl_cap s"

lemma length_slice_elems: "slice_ok st s \<Longrightarrow> length (slice_elems st s) = sl_len s"
  by (simp add: slice_ok_def slice_elems_def)

lemma empty_slice_ok:
  "slice_ok (fst (empty_slice st)) (snd (empty_slice st))"
  "slice_elems (fst (empty_slice st)) (snd (empty_slice st)) = []"
  by (simp_all add: empty_slice_def slice_ok_def slice_elems_def)

lemma slice_set_elems:
  "slice_elems (slice_set st s i x) s = (slice_elems st s)[i := x]"
  by (simp add: slice_set_def slice_elems_def take_update_swap)

lemma slice_set_ok: "slice_ok st t \<Longrightarrow> slice_ok (slice_set st s i x) t"
  by (auto simp: slice_set_def slice_ok_def)

lemma slice_append_elems:
  "slice_ok st s \<Longrightarrow>
   slice_elems (fst (slice_append extra st s x)) (snd (slice_append extra st s x)) =
     slice_elems st s @ [x]"
  by (simp add: slice_append_def slice_elems_def slice_ok_def)

lemma slice_append_ok:
  "slice_ok st s \<Longrightarrow> slice_ok (fst (slice_append extra st s x)) (snd (slice_append extra st s x))"
  by (auto simp: slice_append_def slice_elems_def slice_ok_def)

text \<open>
  What another slice of the store sees. An append writes past the end of every slice that is
  no longer than the one appended to; an index assignment is seen through every slice of the
  same array that reaches the index.
\<close>

lemma slice_append_other:
  assumes "slice_ok st t" and "sl_arr t = sl_arr s \<Longrightarrow> sl_len t \<le> sl_len s"
  shows "slice_elems (fst (slice_append extra st s x)) t = slice_elems st t"
    and "slice_ok st s \<Longrightarrow> slice_ok (fst (slice_append extra st s x)) t"
  using assms by (auto simp: slice_append_def slice_elems_def slice_ok_def)

lemma empty_slice_other:
  assumes "slice_ok st t"
  shows "slice_elems (fst (empty_slice st)) t = slice_elems st t"
    and "slice_ok (fst (empty_slice st)) t"
    and "sl_arr (snd (empty_slice st)) \<noteq> sl_arr t"
  using assms by (auto simp: empty_slice_def slice_elems_def slice_ok_def)

lemma slice_set_other:
  "slice_elems (slice_set st s i x) t =
     (if sl_arr t = sl_arr s then (slice_elems st t)[i := x] else slice_elems st t)"
  by (simp add: slice_set_def slice_elems_def take_update_swap)

end
