(* ===== verification/LdapGroupBindings.thy ===== *)
theory LdapGroupBindings
  imports InformerFactory Slices
begin

text \<open>
  \<open>internal/services/k8s/ldapgroupbindings/ldapgroupbindings.service.go\<close>: the cache of
  LdapGroupBindings kept by an informer's event handlers and read by the authentication
  service. The cache is a Go slice, so the model keeps it in a store of arrays: \<open>GetBindings\<close>
  returns the slice itself, and what a reader sees later depends on the sharing. Each
  operation runs under the service's lock and is one step.
\<close>

section \<open>State and operations\<close>

text \<open>\<open>lgs_stopped\<close>: the channel \<open>stopCh\<close> is closed.\<close>

record ldapGroupBindingService =
  lgs_clientSet :: addr
  lgs_cache :: slice
  lgs_store :: "LdapGroupBinding store"
  lgs_informerFactory :: sharedInformerFactory
  lgs_informer :: ldapGroupBindingInformer
  lgs_stopped :: bool

text \<open>
  The service as the constructor makes it on a client set: a factory without resync, its
  informer of LdapGroupBindings, an empty slice literal, an open channel.
\<close>

definition initial_service :: "addr \<Rightarrow> ldapGroupBindingService" where
  "initial_service cs =
     (let informerFactory = NewSharedInformerFactory cs 0;
          informer = V1 (RbacKerbernetes informerFactory);
          (st, s) = empty_slice \<lparr>st_next = 0, st_arrays = (\<lambda>_. [])\<rparr>
      in \<lparr>lgs_clientSet = cs, lgs_cache = s, lgs_store = st, lgs_informerFactory = informerFactory,
          lgs_informer = LdapGroupBindings informer, lgs_stopped = False\<rparr>)"

definition add ::
  "(nat \<Rightarrow> nat) \<Rightarrow> LdapGroupBinding \<Rightarrow> ldapGroupBindingService \<Rightarrow> ldapGroupBindingService" where
  "add extra binding svc =
     (let (st, s) = slice_append extra (lgs_store svc) (lgs_cache svc) binding in
      svc\<lparr>lgs_cache := s, lgs_store := st\<rparr>)"

text \<open>The loop of \<open>update\<close>: the index of the first cached binding with the name, if any.\<close>

fun find_cached :: "string \<Rightarrow> nat \<Rightarrow> LdapGroupBinding list \<Rightarrow> nat option" where
  "find_cached name i [] = None"
| "find_cached name i (b # bs) = (if lgb_Name b = name then Some i else find_cached name (Suc i) bs)"

definition update ::
  "(nat \<Rightarrow> nat) \<Rightarrow> LdapGroupBinding \<Rightarrow> ldapGroupBindingService \<Rightarrow> ldapGroupBindingService" where
  "update extra binding svc =
     (case find_cached (lgb_Name binding) 0 (slice_elems (lgs_store svc) (lgs_cache svc)) of
        Some i \<Rightarrow> svc\<lparr>lgs_store := slice_set (lgs_store svc) (lgs_cache svc) i binding\<rparr>
      | None \<Rightarrow>
          (let (st, s) = slice_append extra (lgs_store svc) (lgs_cache svc) binding in
           svc\<lparr>lgs_cache := s, lgs_store := st\<rparr>))"

fun delete_loop ::
  "(nat \<Rightarrow> nat) \<Rightarrow> string \<Rightarrow> LdapGroupBinding list \<Rightarrow> LdapGroupBinding store \<times> slice \<Rightarrow>
     LdapGroupBinding store \<times> slice" where
  "delete_loop extra name [] (st, out) = (st, out)"
| "delete_loop extra name (b # bs) (st, out) =
     (if lgb_Name b \<noteq> name then delete_loop extra name bs (slice_append extra st out b)
      else delete_loop extra name bs (st, out))"

definition delete_binding ::
  "(nat \<Rightarrow> nat) \<Rightarrow> LdapGroupBinding \<Rightarrow> ldapGroupBindingService \<Rightarrow> ldapGroupBindingService" where
  "delete_binding extra binding svc =
     (let (st, out) = delete_loop extra (lgb_Name binding)
            (slice_elems (lgs_store svc) (lgs_cache svc)) (empty_slice (lgs_store svc)) in
      svc\<lparr>lgs_cache := out, lgs_store := st\<rparr>)"

definition GetBindings :: "ldapGroupBindingService \<Rightarrow> slice" where
  "GetBindings svc = lgs_cache svc"

text \<open>The bindings a caller sees through a slice it holds.\<close>

definition bindings_seen :: "ldapGroupBindingService \<Rightarrow> slice \<Rightarrow> LdapGroupBinding list" where
  "bindings_seen svc s = slice_elems (lgs_store svc) s"

section \<open>Event handlers\<close>

text \<open>
  What the informer passes to a handler is of an interface type. A delete handler may get a
  tombstone, \<open>cache.DeletedFinalStateUnknown\<close>, when the informer missed the deletion. The
  handlers assert the type of the object without checking: any other type panics, which is
  \<open>None\<close> here.
\<close>

datatype informer_obj =
    Obj LdapGroupBinding
  | DeletedFinalStateUnknown string "LdapGroupBinding option"

datatype event =
    AddFunc informer_obj
  | UpdateFunc informer_obj informer_obj
  | DeleteFunc informer_obj

fun assert_binding :: "informer_obj \<Rightarrow> LdapGroupBinding option" where
  "assert_binding (Obj b) = Some b"
| "assert_binding (DeletedFinalStateUnknown key obj) = None"

fun initInformer ::
  "(nat \<Rightarrow> nat) \<Rightarrow> event \<Rightarrow> ldapGroupBindingService \<Rightarrow> ldapGroupBindingService option" where
  "initInformer extra (AddFunc obj) svc =
     (case assert_binding obj of None \<Rightarrow> None | Some binding \<Rightarrow> Some (add extra binding svc))"
| "initInformer extra (UpdateFunc oldObj newObj) svc =
     (case assert_binding newObj of None \<Rightarrow> None | Some binding \<Rightarrow> Some (update extra binding svc))"
| "initInformer extra (DeleteFunc obj) svc =
     (case assert_binding obj of None \<Rightarrow> None | Some binding \<Rightarrow> Some (delete_binding extra binding svc))"

fun handle_events ::
  "(nat \<Rightarrow> nat) \<Rightarrow> event list \<Rightarrow> ldapGroupBindingService \<Rightarrow> ldapGroupBindingService option" where
  "handle_events extra [] svc = Some svc"
| "handle_events extra (e # es) svc =
     (case initInformer extra e svc of None \<Rightarrow> None | Some svc' \<Rightarrow> handle_events extra es svc')"

text \<open>
  \<open>Start\<close> runs the factory's informers (returned as the fourth component), waits for the cache
  of the service's informer and then for the end of its context. \<open>synced\<close> says whether the
  informer ever gets its cache synced, \<open>ctxDone\<close> whether the context ever ends.
  \<open>cache.WaitForCacheSync\<close> polls until the cache is synced and gives up only when the channel
  it is passed is closed, here the service's own \<open>stopCh\<close>, which nothing but \<open>Start\<close> closes: with
  the channel open a cache that never syncs keeps \<open>Start\<close> blocked, as does a context that never
  ends. Closing the channel a second time panics.
\<close>

datatype start_error = FailedToSyncInformerCache

datatype start_outcome = Returned "start_error + unit" | Blocked | PanicClosedChannel

definition Start ::
  "(rtype list \<Rightarrow> rtype list) \<Rightarrow> (addr \<Rightarrow> bool) \<Rightarrow> bool \<Rightarrow> ldapGroupBindingService \<Rightarrow> informer_heap \<Rightarrow>
     start_outcome \<times> ldapGroupBindingService \<times> informer_heap \<times> addr list" where
  "Start ord synced ctxDone svc h =
     (let (fct1, run) = factory_Start ord (lgs_informerFactory svc);
          (informer, fct2, h1) = Informer (lgs_informer svc) fct1 h;
          svc1 = svc\<lparr>lgs_informerFactory := fct2\<rparr>
      in if \<not> synced informer then
           (if lgs_stopped svc1 then (Returned (Inl FailedToSyncInformerCache), svc1, h1, run)
            else (Blocked, svc1, h1, run))
         else if \<not> ctxDone then (Blocked, svc1, h1, run)
         else if lgs_stopped svc1 then (PanicClosedChannel, svc1, h1, run)
         else (Returned (Inr ()), svc1\<lparr>lgs_stopped := True\<rparr>, h1, run))"

text \<open>
  The constructor: \<open>NewForConfig\<close> makes the client set from the REST configuration and
  \<open>AddEventHandler\<close> registers the handlers with an informer; either may fail.
\<close>

datatype lgb_error = LgbConfigError string | FailedToInitializeInformer string

definition New_LdapGroupBindings ::
  "('c \<Rightarrow> string + addr) \<Rightarrow> (addr \<Rightarrow> informer_heap \<Rightarrow> (string + unit) \<times> informer_heap) \<Rightarrow> 'c \<Rightarrow>
     informer_heap \<Rightarrow> (lgb_error + ldapGroupBindingService) \<times> informer_heap" where
  "New_LdapGroupBindings NewForConfig AddEventHandler restConfig h =
     (case NewForConfig restConfig of
        Inl err \<Rightarrow> (Inl (LgbConfigError err), h)
      | Inr cs \<Rightarrow>
          (let svc = initial_service cs;
               (informer, fct, h1) = Informer (lgs_informer svc) (lgs_informerFactory svc) h;
               svc1 = svc\<lparr>lgs_informerFactory := fct\<rparr>
           in case AddEventHandler informer h1 of
                (Inl err, h2) \<Rightarrow> (Inl (FailedToInitializeInformer err), h2)
              | (Inr _, h2) \<Rightarrow> (Inr svc1, h2)))"

section \<open>The operations on the list of bindings\<close>

definition cached :: "ldapGroupBindingService \<Rightarrow> LdapGroupBinding list" where
  "cached svc = slice_elems (lgs_store svc) (lgs_cache svc)"

definition cache_ok :: "ldapGroupBindingService \<Rightarrow> bool" where
  "cache_ok svc \<longleftrightarrow> slice_ok (lgs_store svc) (lgs_cache svc)"

fun replace_named :: "LdapGroupBinding \<Rightarrow> LdapGroupBinding list \<Rightarrow> LdapGroupBinding list" where
  "replace_named b [] = [b]"
| "replace_named b (c # cs) = (if lgb_Name c = lgb_Name b then b # cs else c # replace_named b cs)"

lemma find_cached_Some:
  "find_cached name i bs = Some j \<Longrightarrow>
     i \<le> j \<and> j - i < length bs \<and> lgb_Name (bs ! (j - i)) = name \<and>
     (lgb_Name b = name \<longrightarrow> bs[j - i := b] = replace_named b bs)"
proof (induction bs arbitrary: i)
  case Nil
  then show ?case by simp
next
  case (Cons c cs)
  show ?case
  proof (cases "lgb_Name c = name")
    case True
    then show ?thesis using Cons.prems by auto
  next
    case False
    with Cons have "Suc i \<le> j \<and> j - Suc i < length cs \<and> lgb_Name (cs ! (j - Suc i)) = name \<and>
        (lgb_Name b = name \<longrightarrow> cs[j - Suc i := b] = replace_named b cs)"
      by simp
    moreover from this have "j - i = Suc (j - Suc i)" by arith
    ultimately show ?thesis using False by auto
  qed
qed

lemma find_cached_None:
  "find_cached name i bs = None \<Longrightarrow>
     name \<notin> lgb_Name ` set bs \<and> (lgb_Name b = name \<longrightarrow> replace_named b bs = bs @ [b])"
  by (induction bs arbitrary: i) (auto split: if_splits)

lemma delete_loop_spec:
  assumes "slice_ok st out"
  shows "case delete_loop extra name bs (st, out) of (st', out') \<Rightarrow>
    slice_ok st' out' \<and> slice_elems st' out' = slice_elems st out @ filter (\<lambda>b. lgb_Name b \<noteq> name) bs"
  using assms
proof (induction bs arbitrary: st out)
  case Nil
  then show ?case by simp
next
  case (Cons b bs)
  obtain st1 out1 where s1: "slice_append extra st out b = (st1, out1)" by fastforce
  have "slice_ok st1 out1" "slice_elems st1 out1 = slice_elems st out @ [b]"
    using slice_append_ok [OF Cons.prems, of extra b] slice_append_elems [OF Cons.prems, of extra b] s1
    by simp_all
  then show ?case
    using Cons.IH [of st1 out1] Cons.IH [OF Cons.prems] s1 by (auto split: prod.splits)
qed

lemma initial_cached: "cache_ok (initial_service cs)" "cached (initial_service cs) = []"
  by (simp_all add: initial_service_def Let_def empty_slice_def cache_ok_def cached_def
      slice_ok_def slice_elems_def)

lemma add_cached:
  assumes "cache_ok svc"
  shows "cached (add extra b svc) = cached svc @ [b]" "cache_ok (add extra b svc)"
  using assms slice_append_elems [of "lgs_store svc" "lgs_cache svc" extra b]
    slice_append_ok [of "lgs_store svc" "lgs_cache svc" extra b]
  by (simp_all add: add_def cached_def cache_ok_def case_prod_beta)

lemma update_cached:
  assumes "cache_ok svc"
  shows "cached (update extra b svc) = replace_named b (cached svc)" "cache_ok (update extra b svc)"
proof -
  show "cached (update extra b svc) = replace_named b (cached svc)"
  proof (cases "find_cached (lgb_Name b) 0 (cached svc)")
    case None
    then show ?thesis
      using assms slice_append_elems [of "lgs_store svc" "lgs_cache svc" extra b]
        find_cached_None [OF None, of b]
      by (simp add: update_def cached_def cache_ok_def case_prod_beta)
  next
    case (Some i)
    then show ?thesis
      using find_cached_Some [OF Some, of b]
      by (simp add: update_def cached_def slice_set_elems)
  qed
  show "cache_ok (update extra b svc)"
    using assms slice_append_ok [of "lgs_store svc" "lgs_cache svc" extra b]
    by (simp add: update_def cache_ok_def slice_set_ok case_prod_beta split: option.splits)
qed

lemma delete_cached:
  assumes "cache_ok svc"
  shows "cached (delete_binding extra b svc) = filter (\<lambda>c. lgb_Name c \<noteq> lgb_Name b) (cached svc)"
    and "cache_ok (delete_binding extra b svc)"
proof -
  obtain st0 s0 where e: "empty_slice (lgs_store svc) = (st0, s0)" by fastforce
  obtain st1 s1 where d: "delete_loop extra (lgb_Name b) (cached svc) (st0, s0) = (st1, s1)" by fastforce
  have "slice_ok st0 s0" "slice_elems st0 s0 = []"
    using empty_slice_ok [of "lgs_store svc"] e by simp_all
  then have "slice_ok st1 s1" "slice_elems st1 s1 = filter (\<lambda>c. lgb_Name c \<noteq> lgb_Name b) (cached svc)"
    using delete_loop_spec [of st0 s0 "lgb_Name b" "cached svc" extra] d by simp_all
  then show "cached (delete_binding extra b svc) = filter (\<lambda>c. lgb_Name c \<noteq> lgb_Name b) (cached svc)"
    and "cache_ok (delete_binding extra b svc)"
    using e d by (simp_all add: delete_binding_def cached_def cache_ok_def)
qed

section \<open>The contract of the cache\<close>

text \<open>The bindings as a map from names.\<close>

definition by_name :: "LdapGroupBinding list \<Rightarrow> string \<Rightarrow> LdapGroupBinding option" where
  "by_name bs = map_of (map (\<lambda>b. (lgb_Name b, b)) bs)"

lemma by_name_None: "by_name bs n = None \<longleftrightarrow> n \<notin> lgb_Name ` set bs"
  by (auto simp: by_name_def map_of_eq_None_iff image_image)

lemma by_name_Some: "by_name bs n = Some b \<Longrightarrow> b \<in> set bs \<and> lgb_Name b = n"
  by (auto simp: by_name_def dest!: map_of_SomeD)

lemma by_name_append: "n \<notin> lgb_Name ` set bs \<Longrightarrow> lgb_Name b = n \<Longrightarrow> by_name (bs @ [b]) = (by_name bs)(n \<mapsto> b)"
  using by_name_None [of bs n]
  by (intro ext) (auto simp: by_name_def map_add_def split: option.splits)

lemma by_name_filter: "by_name (filter (\<lambda>c. lgb_Name c \<noteq> n) bs) = (by_name bs)(n := None)"
  by (induction bs) (auto simp: by_name_def)

lemma by_name_replace:
  "distinct (map lgb_Name bs) \<Longrightarrow> by_name (replace_named b bs) = (by_name bs)(lgb_Name b \<mapsto> b)"
  by (induction bs) (auto simp: by_name_def)

lemma distinct_replace:
  "distinct (map lgb_Name bs) \<Longrightarrow>
     distinct (map lgb_Name (replace_named b bs)) \<and>
     lgb_Name ` set (replace_named b bs) = insert (lgb_Name b) (lgb_Name ` set bs)"
  by (induction bs) auto

text \<open>
  The interface the handlers use and what it promises: the list of cached bindings after
  each operation.
\<close>

locale binding_cache =
  fixes c_add :: "LdapGroupBinding \<Rightarrow> 's \<Rightarrow> 's"
    and c_update :: "LdapGroupBinding \<Rightarrow> 's \<Rightarrow> 's"
    and c_delete :: "LdapGroupBinding \<Rightarrow> 's \<Rightarrow> 's"
    and c_list :: "'s \<Rightarrow> LdapGroupBinding list"
    and c_invar :: "'s \<Rightarrow> bool"
  assumes list_add: "c_invar s \<Longrightarrow> c_list (c_add b s) = c_list s @ [b]"
    and list_update: "c_invar s \<Longrightarrow> c_list (c_update b s) = replace_named b (c_list s)"
    and list_delete: "c_invar s \<Longrightarrow> c_list (c_delete b s) = filter (\<lambda>c. lgb_Name c \<noteq> lgb_Name b) (c_list s)"
    and invar_add: "c_invar s \<Longrightarrow> c_invar (c_add b s)"
    and invar_update: "c_invar s \<Longrightarrow> c_invar (c_update b s)"
    and invar_delete: "c_invar s \<Longrightarrow> c_invar (c_delete b s)"
begin

text \<open>\<open>mirrors s m\<close>: the cache holds exactly the objects of \<open>m\<close>, one per name.\<close>

definition mirrors :: "'s \<Rightarrow> (string \<Rightarrow> LdapGroupBinding option) \<Rightarrow> bool" where
  "mirrors s m \<longleftrightarrow> c_invar s \<and> distinct (map lgb_Name (c_list s)) \<and> by_name (c_list s) = m"

lemma mirrors_add:
  assumes "mirrors s m" and "m (lgb_Name b) = None"
  shows "mirrors (c_add b s) (m(lgb_Name b \<mapsto> b))"
proof -
  have "lgb_Name b \<notin> lgb_Name ` set (c_list s)"
    using assms by (auto simp: mirrors_def by_name_None [symmetric])
  then show ?thesis
    using assms by (auto simp: mirrors_def list_add invar_add by_name_append)
qed

lemma mirrors_update:
  "mirrors s m \<Longrightarrow> mirrors (c_update b s) (m(lgb_Name b \<mapsto> b))"
  by (auto simp: mirrors_def list_update invar_update by_name_replace distinct_replace)

lemma mirrors_delete:
  "mirrors s m \<Longrightarrow> mirrors (c_delete b s) (m(lgb_Name b := None))"
  by (auto simp: mirrors_def list_delete invar_delete by_name_filter distinct_map_filter)

end

interpretation lgb: binding_cache "add extra" "update extra" "delete_binding extra" cached cache_ok
  for extra
  by unfold_locales (simp_all add: add_cached update_cached delete_cached)

end
