(* ===== verification/Auth.thy ===== *)
theory Auth
  imports ServiceAccounts Ldap LdapGroupBindings
begin

text \<open>
  \<open>internal/services/auth/auth.service.go\<close>: a login. It makes sure the service account
  exists, with LDAP enabled brings the user's ClusterRoleBindings and RoleBindings in line
  with the LdapGroupBindings of the user's groups, and issues a token. The two Go maps that
  track the bindings not yet accounted for are passed by reference in the source; here each
  step takes the map and returns it updated. Log calls are left out.
\<close>

section \<open>State\<close>

text \<open>
  The service's fields. The cache of LdapGroupBindings is changed by the informer while
  requests run, so it is read from the world. \<open>as_crbOrder\<close> and \<open>as_rbOrder\<close> are the orders
  in which the two loops over Go maps visit the keys.
\<close>

record ('c, 'w) authService =
  as_env :: Env
  as_k8sSvc :: "('c, 'w) k8sService"
  as_serviceAccountsSvc :: "'w serviceAccountsService"
  as_ldapGroupBindingsSvc :: "'w \<Rightarrow> ldapGroupBindingService"
  as_ldapSvc :: "'w ldapSvc"
  as_crbOrder :: "string list \<Rightarrow> string list"
  as_rbOrder :: "string list \<Rightarrow> string list"

record Status =
  st_Token :: string
  st_ExpirationTimestamp :: int

record Credentials =
  cr_Kind :: string
  cr_ApiVersion :: string
  cr_Status :: "Status option"

type_synonym crbMap = "(string, rbac_binding) gomap"
type_synonym rbMap = "(string, rbac_binding) gomap"

section \<open>The bindings there are\<close>

definition getExistingClusterRoleBindings ::
  "('c, 'w) authService \<Rightarrow> string \<Rightarrow> ('w, http_error, crbMap) action" where
  "getExistingClusterRoleBindings s saName w =
     (case GetClusterRoleBindings (as_serviceAccountsSvc s) saName w of
        (Inl err, w') \<Rightarrow> (Inl (Error500InternalServerError ''failed to get cluster role bindings''), w')
      | (Inr bs, w') \<Rightarrow> (Inr (from_pairs rb_Name bs), w'))"

definition getExistingRoleBindings ::
  "('c, 'w) authService \<Rightarrow> string \<Rightarrow> ('w, http_error, rbMap) action" where
  "getExistingRoleBindings s saName w =
     (case GetRoleBindings (as_serviceAccountsSvc s) saName w of
        (Inl err, w') \<Rightarrow> (Inl (Error500InternalServerError ''failed to get role bindings''), w')
      | (Inr bs, w') \<Rightarrow> (Inr (from_pairs rb_Name bs), w'))"

section \<open>Making sure a wanted binding exists\<close>

definition ensureClusterRoleBinding ::
  "('c, 'w) authService \<Rightarrow> string \<Rightarrow> string \<Rightarrow> LdapGroupBindingItem \<Rightarrow> string \<Rightarrow> crbMap \<Rightarrow> 'w \<Rightarrow>
     (http_error + unit) \<times> crbMap \<times> 'w" where
  "ensureClusterRoleBinding s saName ldapGroupBindingName binding bindingName existingMap w =
     (case map_of existingMap bindingName of
        None \<Rightarrow>
          (case CreateClusterRoleBinding (as_serviceAccountsSvc s) saName (item_Name binding)
                  ldapGroupBindingName w of
             (Inl err, w') \<Rightarrow>
               (Inl (Error500InternalServerError ''failed to create cluster role binding''), existingMap, w')
           | (Inr newBinding, w') \<Rightarrow> (Inr (), AList.delete bindingName existingMap, w'))
      | Some existing \<Rightarrow>
          (if rr_Name (rb_RoleRef existing) \<noteq> item_Name binding then
             (case UpdateClusterRoleBinding (as_serviceAccountsSvc s) saName (item_Name binding)
                     ldapGroupBindingName w of
                (Inl err, w') \<Rightarrow>
                  (Inl (Error500InternalServerError ''failed to update cluster role binding''), existingMap, w')
              | (Inr _, w') \<Rightarrow> (Inr (), AList.delete bindingName existingMap, w'))
           else (Inr (), AList.delete bindingName existingMap, w)))"

text \<open>The subject comparison: anything but the one expected subject differs.\<close>

definition subjectDiffer :: "string \<Rightarrow> string \<Rightarrow> rbac_binding \<Rightarrow> bool" where
  "subjectDiffer saName saNamespace existing =
     (if length (rb_Subjects existing) \<noteq> 1 then True
      else let subject = rb_Subjects existing ! 0 in
           sub_Kind subject \<noteq> ''ServiceAccount'' \<or> sub_Name subject \<noteq> saName \<or>
           sub_Namespace subject \<noteq> saNamespace)"

definition item_roleRef :: "LdapGroupBindingItem \<Rightarrow> RoleRef" where
  "item_roleRef binding =
     \<lparr>rr_APIGroup = item_ApiGroup binding, rr_Kind = item_Kind binding, rr_Name = item_Name binding\<rparr>"

definition ensureRoleBinding ::
  "('c, 'w) authService \<Rightarrow> string \<Rightarrow> string \<Rightarrow> LdapGroupBindingItem \<Rightarrow> string \<Rightarrow> rbMap \<Rightarrow> 'w \<Rightarrow>
     (http_error + unit) \<times> rbMap \<times> 'w" where
  "ensureRoleBinding s saName ldapGroupBindingName binding bindingName existingMap w =
     (if item_Namespace binding = '''' then (Inr (), existingMap, w)
      else
        (let roleRef = item_roleRef binding;
             saNamespace = GetNamespace (as_k8sSvc s)
         in case map_of existingMap bindingName of
              None \<Rightarrow>
                (case CreateRoleBinding (as_serviceAccountsSvc s) saName (item_Namespace binding)
                        ldapGroupBindingName roleRef w of
                   (Inl err, w') \<Rightarrow>
                     (Inl (Error500InternalServerError ''failed to create role binding''), existingMap, w')
                 | (Inr newBinding, w') \<Rightarrow> (Inr (), AList.delete bindingName existingMap, w'))
            | Some existing \<Rightarrow>
                (if subjectDiffer saName saNamespace existing \<or>
                    rr_Name (rb_RoleRef existing) \<noteq> item_Name binding \<or>
                    rr_Kind (rb_RoleRef existing) \<noteq> item_Kind binding \<or>
                    rr_APIGroup (rb_RoleRef existing) \<noteq> item_ApiGroup binding
                 then
                   (case UpdateRoleBinding (as_serviceAccountsSvc s) saName (item_Namespace binding)
                           roleRef ldapGroupBindingName w of
                      (Inl err, w') \<Rightarrow>
                        (Inl (Error500InternalServerError ''failed to update role binding''), existingMap, w')
                    | (Inr _, w') \<Rightarrow> (Inr (), AList.delete bindingName existingMap, w'))
                 else (Inr (), AList.delete bindingName existingMap, w))))"

section \<open>Removing what is left over\<close>

definition removeUnusedClusterRoleBindings ::
  "('c, 'w) authService \<Rightarrow> string \<Rightarrow> crbMap \<Rightarrow> ('w, http_error, unit) action" where
  "removeUnusedClusterRoleBindings s saName bindings w =
     for_each (\<lambda>(name, binding) w.
         case DeleteClusterRoleBinding (as_serviceAccountsSvc s) name w of
           (Inl err, w') \<Rightarrow> (Inl (Error500InternalServerError ''failed to delete cluster role binding''), w')
         | (Inr _, w') \<Rightarrow> (Inr (), w'))
       (range_entries (as_crbOrder s) bindings) w"

definition removeUnusedRoleBindings ::
  "('c, 'w) authService \<Rightarrow> string \<Rightarrow> rbMap \<Rightarrow> ('w, http_error, unit) action" where
  "removeUnusedRoleBindings s saName bindings w =
     for_each (\<lambda>(name, binding) w.
         case DeleteRoleBinding (as_serviceAccountsSvc s) (rb_Namespace binding) name w of
           (Inl err, w') \<Rightarrow> (Inl (Error500InternalServerError ''failed to delete role binding''), w')
         | (Inr _, w') \<Rightarrow> (Inr (), w'))
       (range_entries (as_rbOrder s) bindings) w"

section \<open>Reconciliation\<close>

text \<open>
  The body of the inner loop of step 2, over the state that the loop threads: the two maps
  and the world.
\<close>

definition ensureBinding ::
  "('c, 'w) authService \<Rightarrow> string \<Rightarrow> LdapGroupBinding \<Rightarrow> LdapGroupBindingItem \<Rightarrow>
     (crbMap \<times> rbMap \<times> 'w, http_error, unit) action" where
  "ensureBinding s saName ldapGroupBinding binding st =
     (case st of (clusterRoleBindingsMap, roleBindingsMap, w) \<Rightarrow>
        (let bindingName = GenBindingName saName (item_Name binding) (lgb_Name ldapGroupBinding) in
         if item_Kind binding = ''ClusterRole'' then
           (case ensureClusterRoleBinding s saName (lgb_Name ldapGroupBinding) binding bindingName
                   clusterRoleBindingsMap w of
              (r, m, w') \<Rightarrow> (r, m, roleBindingsMap, w'))
         else if item_Kind binding = ''Role'' then
           (case ensureRoleBinding s saName (lgb_Name ldapGroupBinding) binding bindingName
                   roleBindingsMap w of
              (r, m, w') \<Rightarrow> (r, clusterRoleBindingsMap, m, w'))
         else (Inr (), clusterRoleBindingsMap, roleBindingsMap, w)))"

definition ensureBindings ::
  "('c, 'w) authService \<Rightarrow> string \<Rightarrow> LdapGroupBinding list \<Rightarrow>
     (crbMap \<times> rbMap \<times> 'w, http_error, unit) action" where
  "ensureBindings s saName ldapGroupBindings =
     for_each (\<lambda>ldapGroupBinding.
         for_each (ensureBinding s saName ldapGroupBinding) (lgb_items ldapGroupBinding))
       ldapGroupBindings"

definition reconcileClusterAndRoleBindings ::
  "('c, 'w) authService \<Rightarrow> string \<Rightarrow> LdapGroupBinding list \<Rightarrow> ('w, http_error, unit) action" where
  "reconcileClusterAndRoleBindings s saName ldapGroupBindings w =
     (case getExistingClusterRoleBindings s saName w of
        (Inl err, w1) \<Rightarrow> (Inl err, w1)
      | (Inr clusterRoleBindingsMap, w1) \<Rightarrow>
     (case getExistingRoleBindings s saName w1 of
        (Inl err, w2) \<Rightarrow> (Inl err, w2)
      | (Inr roleBindingsMap, w2) \<Rightarrow>
     (case ensureBindings s saName ldapGroupBindings (clusterRoleBindingsMap, roleBindingsMap, w2) of
        (Inl err, _, _, w3) \<Rightarrow> (Inl err, w3)
      | (Inr _, clusterRoleBindingsMap', roleBindingsMap', w3) \<Rightarrow>
     (case removeUnusedClusterRoleBindings s saName clusterRoleBindingsMap' w3 of
        (Inl err, w4) \<Rightarrow> (Inl err, w4)
      | (Inr _, w4) \<Rightarrow>
     (case removeUnusedRoleBindings s saName roleBindingsMap' w4 of
        (Inl err, w5) \<Rightarrow> (Inl err, w5)
      | (Inr _, w5) \<Rightarrow> (Inr (), w5))))))"

section \<open>The login\<close>

text \<open>The bindings of the groups the user is in, in the order of the cache.\<close>

definition userGroupBindings :: "string list \<Rightarrow> LdapGroupBinding list \<Rightarrow> LdapGroupBinding list" where
  "userGroupBindings groups ldapBindings =
     (let groupsMap = fold (\<lambda>group m. AList.update group True m) groups [] in
      fold (\<lambda>binding userBindings.
          case map_of groupsMap (spec_LdapGroupDN (lgb_Spec binding)) of
            Some _ \<Rightarrow> userBindings @ [binding]
          | None \<Rightarrow> userBindings)
        ldapBindings [])"

definition ldapReconcilate ::
  "('c, 'w) authService \<Rightarrow> string \<Rightarrow> ServiceAccount \<Rightarrow> ('w, http_error, unit) action" where
  "ldapReconcilate s username sa w =
     (case GetUser (as_ldapSvc s) username w of
        (Inl err, w1) \<Rightarrow> (Inl (Error401Unauthorized ''failed to authenticate user on LDAP''), w1)
      | (Inr user, w1) \<Rightarrow>
     (case GetUserGroups (as_ldapSvc s) (entry_DN user) w1 of
        (Inl err, w2) \<Rightarrow> (Inl (Error401Unauthorized ''failed to authenticate user on LDAP''), w2)
      | (Inr groups, w2) \<Rightarrow>
          (let cache = as_ldapGroupBindingsSvc s w2;
               ldapBindings = bindings_seen cache (GetBindings cache);
               userBindings = userGroupBindings groups ldapBindings
           in case reconcileClusterAndRoleBindings s (sa_Name sa) userBindings w2 of
                (Inl err, w3) \<Rightarrow>
                  (Inl (Error500InternalServerError ''Failed to reconcile cluster role bindings''), w3)
              | (Inr _, w3) \<Rightarrow> (Inr (), w3))))"

definition AuthAccount ::
  "('c, 'w) authService \<Rightarrow> string \<Rightarrow> ('w, http_error, Credentials) action" where
  "AuthAccount s username w =
     (case UpsertServiceAccount (as_serviceAccountsSvc s) username w of
        (Inl err, w1) \<Rightarrow> (Inl (Error500InternalServerError ''Failed to upsert service account''), w1)
      | (Inr sa, w1) \<Rightarrow>
     (case (if env_LDAPEnabled (as_env s) then ldapReconcilate s username sa w1 else (Inr (), w1)) of
        (Inl err, w2) \<Rightarrow> (Inl err, w2)
      | (Inr _, w2) \<Rightarrow>
     (case IssueToken (as_serviceAccountsSvc s) (sa_Name sa) w2 of
        (Inl err, w3) \<Rightarrow> (Inl (Error500InternalServerError ''Failed to issue token''), w3)
      | (Inr token, w3) \<Rightarrow>
          (Inr \<lparr>cr_Kind = ''ExecCredential'',
             cr_ApiVersion = ''client.authentication.k8s.io/v1beta1'',
             cr_Status = Some \<lparr>st_Token = tst_Token (tr_Status token),
               st_ExpirationTimestamp = tst_ExpirationTimestamp (tr_Status token)\<rparr>\<rparr>, w3))))"

text \<open>The constructor: every service gets the same environment and Kubernetes service.\<close>

definition New_Auth ::
  "Env \<Rightarrow> ('c, 'w) k8sService \<Rightarrow> 'w serviceAccountsService \<Rightarrow> ('w \<Rightarrow> ldapGroupBindingService) \<Rightarrow>
     'w ldapSvc \<Rightarrow> (string list \<Rightarrow> string list) \<Rightarrow> (string list \<Rightarrow> string list) \<Rightarrow>
     ('c, 'w) authService" where
  "New_Auth env k8sSvc serviceAccountsSvc ldapGroupBindingsSvc ldapSvc crbOrder rbOrder =
     \<lparr>as_env = env, as_k8sSvc = k8sSvc, as_serviceAccountsSvc = serviceAccountsSvc,
      as_ldapGroupBindingsSvc = ldapGroupBindingsSvc, as_ldapSvc = ldapSvc,
      as_crbOrder = crbOrder, as_rbOrder = rbOrder\<rparr>"

end
