(* ===== verification/AuthReconcile.thy ===== *)
theory AuthReconcile
  imports Auth
begin

text \<open>
  The reconciliation of \<open>auth.service.go\<close>, proved: both halves are instances of the steps of
  theory Reconcile, and the loops over the LdapGroupBindings bring the stored bindings of a
  user to exactly the wanted ones. The last sections give the set of roles a user holds and
  is due as the abstract view.
\<close>

section \<open>Requests\<close>

text \<open>The items of a list of LdapGroupBindings, each with its LdapGroupBinding, in loop order.\<close>

definition all_items :: "LdapGroupBinding list \<Rightarrow> (LdapGroupBinding \<times> LdapGroupBindingItem) list" where
  "all_items ls = concat (map (\<lambda>l. map (Pair l) (lgb_items l)) ls)"

definition cluster_requests :: "(LdapGroupBinding \<times> LdapGroupBindingItem) list \<Rightarrow> crb_request list" where
  "cluster_requests ps =
     map (\<lambda>(l, i). (lgb_Name l, item_Name i)) (filter (\<lambda>(l, i). item_Kind i = ''ClusterRole'') ps)"

definition role_requests :: "(LdapGroupBinding \<times> LdapGroupBindingItem) list \<Rightarrow> rb_request list" where
  "role_requests ps =
     map (\<lambda>(l, i). (lgb_Name l, item_Namespace i, item_roleRef i))
       (filter (\<lambda>(l, i). item_Kind i = ''Role'' \<and> item_Namespace i \<noteq> '''') ps)"

lemma cluster_requests_simps [simp]:
  "cluster_requests [] = []"
  "cluster_requests (ps @ qs) = cluster_requests ps @ cluster_requests qs"
  "cluster_requests [(l, i)] = (if item_Kind i = ''ClusterRole'' then [(lgb_Name l, item_Name i)] else [])"
  by (simp_all add: cluster_requests_def)

lemma role_requests_simps [simp]:
  "role_requests [] = []"
  "role_requests (ps @ qs) = role_requests ps @ role_requests qs"
  "role_requests [(l, i)] = (if item_Kind i = ''Role'' \<and> item_Namespace i \<noteq> ''''
     then [(lgb_Name l, item_Namespace i, item_roleRef i)] else [])"
  by (simp_all add: role_requests_def)

definition crb_name :: "string \<Rightarrow> crb_request \<Rightarrow> string" where
  "crb_name u d = GenBindingName u (snd d) (fst d)"

definition crb_differs :: "crb_request \<Rightarrow> rbac_binding \<Rightarrow> bool" where
  "crb_differs d b \<longleftrightarrow> rr_Name (rb_RoleRef b) \<noteq> snd d"

definition rb_name :: "string \<Rightarrow> rb_request \<Rightarrow> string" where
  "rb_name u d = GenBindingName u (rr_Name (snd (snd d))) (fst d)"

definition rb_differs :: "'w serviceAccountsService \<Rightarrow> string \<Rightarrow> rb_request \<Rightarrow> rbac_binding \<Rightarrow> bool" where
  "rb_differs svc u d b \<longleftrightarrow>
     subjectDiffer u (svc_namespace svc) b \<or>
     rr_Name (rb_RoleRef b) \<noteq> rr_Name (snd (snd d)) \<or>
     rr_Kind (rb_RoleRef b) \<noteq> rr_Kind (snd (snd d)) \<or>
     rr_APIGroup (rb_RoleRef b) \<noteq> rr_APIGroup (snd (snd d))"

lemma subjectDiffer_sole: "subjectDiffer u (svc_namespace svc) b \<longleftrightarrow> \<not> sole_subject svc u b"
  by (auto simp: subjectDiffer_def sole_subject_def subject_is_def length_Suc_conv Let_def)

interpretation crbs: managed_store "v_CRB V" "crb_create svc u" "crb_modify svc u" "crb_remove svc"
    "crb_key u" "managed_for svc u" crb_wanted "kube_api (svc_clientset svc) V" "crb_name u" crb_differs
  for V svc u
  by unfold_locales (auto simp: crb_key_def crb_name_def crb_differs_def crb_wanted_def)

interpretation rbs: managed_store "v_RB V" "rb_create svc u" "rb_modify svc u" "rb_remove svc"
    "rb_key u" "managed_for svc u" "rb_wanted svc u" "kube_api (svc_clientset svc) V" "rb_name u"
    "rb_differs svc u"
  for V svc u
  by unfold_locales (auto simp: rb_key_def rb_name_def rb_differs_def rb_wanted_def subjectDiffer_sole)

section \<open>The code's steps are instances\<close>

text \<open>The service accounts service works in the namespace of the Kubernetes service.\<close>

definition wired :: "('c, 'w) authService \<Rightarrow> bool" where
  "wired s \<longleftrightarrow> svc_namespace (as_serviceAccountsSvc s) = GetNamespace (as_k8sSvc s)"

lemma ensureBinding_ClusterRole:
  assumes "item_Kind i = ''ClusterRole''"
  shows "ensureBinding s u l i (cm, rm, w) =
    (case ensure_step (crb_create (as_serviceAccountsSvc s) u) (crb_modify (as_serviceAccountsSvc s) u)
        (crb_name u) crb_differs
        (Error500InternalServerError ''failed to create cluster role binding'')
        (Error500InternalServerError ''failed to update cluster role binding'')
        (lgb_Name l, item_Name i) cm w of (r, m, w') \<Rightarrow> (r, m, rm, w'))"
  unfolding ensureBinding_def ensureClusterRoleBinding_def ensure_step_def crb_request_defs
    crb_name_def crb_differs_def fst_conv snd_conv
  using assms by (simp split: option.split)

lemma ensureBinding_Role:
  assumes "item_Kind i = ''Role''" and "item_Namespace i \<noteq> ''''" and "wired s"
  shows "ensureBinding s u l i (cm, rm, w) =
    (case ensure_step (rb_create (as_serviceAccountsSvc s) u) (rb_modify (as_serviceAccountsSvc s) u)
        (rb_name u) (rb_differs (as_serviceAccountsSvc s) u)
        (Error500InternalServerError ''failed to create role binding'')
        (Error500InternalServerError ''failed to update role binding'')
        (lgb_Name l, item_Namespace i, item_roleRef i) rm w of (r, m, w') \<Rightarrow> (r, cm, m, w'))"
  unfolding ensureBinding_def ensureRoleBinding_def ensure_step_def rb_request_defs
    rb_name_def rb_differs_def item_roleRef_def fst_conv snd_conv RoleRef.select_convs Let_def
  using assms by (auto simp: wired_def split: option.split prod.split)

lemma ensureBinding_other:
  assumes "item_Kind i \<noteq> ''ClusterRole''" and "item_Kind i = ''Role'' \<Longrightarrow> item_Namespace i = ''''"
  shows "ensureBinding s u l i (cm, rm, w) = (Inr (), cm, rm, w)"
  using assms by (simp add: ensureBinding_def ensureRoleBinding_def)

lemma ensureBindings_flat:
  "ensureBindings s u ls = for_each (\<lambda>(l, i). ensureBinding s u l i) (all_items ls)"
  by (simp add: fun_eq_iff ensureBindings_def all_items_def for_each_nested)

lemma removeUnusedClusterRoleBindings_eq:
  "removeUnusedClusterRoleBindings s u m =
     for_each (remove_step (crb_remove (as_serviceAccountsSvc s))
         (Error500InternalServerError ''failed to delete cluster role binding''))
       (map (\<lambda>(n, b). ((), n)) (range_entries (as_crbOrder s) m))"
  unfolding fun_eq_iff removeUnusedClusterRoleBindings_def for_each_map case_prod_unfold
    remove_step_def [abs_def] crb_remove_def fst_conv snd_conv by blast

lemma removeUnusedRoleBindings_eq:
  "removeUnusedRoleBindings s u m =
     for_each (remove_step (rb_remove (as_serviceAccountsSvc s))
         (Error500InternalServerError ''failed to delete role binding''))
       (map (\<lambda>(n, b). (rb_Namespace b, n)) (range_entries (as_rbOrder s) m))"
  unfolding fun_eq_iff removeUnusedRoleBindings_def for_each_map case_prod_unfold
    remove_step_def [abs_def] rb_remove_def fst_conv snd_conv by blast

section \<open>One pass over the items\<close>

text \<open>The calls on one kind of binding keep the view of the other.\<close>

lemma crb_calls_keep_rb:
  assumes "kube_api (svc_clientset svc) V"
  shows "keeps (v_RB V) (crb_create svc u d)" "keeps (v_RB V) (crb_modify svc u d)"
    "keeps (v_RB V) (crb_remove svc k)" "keeps (v_RB V) (GetClusterRoleBindings svc u)"
  using crb_calls_keep [OF kube_apiD(4) [OF assms]] by simp_all

lemma rb_calls_keep_crb:
  assumes "kube_api (svc_clientset svc) V"
  shows "keeps (v_CRB V) (rb_create svc u d)" "keeps (v_CRB V) (rb_modify svc u d)"
    "keeps (v_CRB V) (rb_remove svc k)" "keeps (v_CRB V) (GetRoleBindings svc u)"
  using rb_calls_keep [OF kube_apiD(6) [OF assms]] by simp_all

lemma crb_step_keeps_rb:
  "kube_api (svc_clientset svc) V \<Longrightarrow>
   v_RB V (snd (snd (ensure_step (crb_create svc u) (crb_modify svc u) nm df ec em d m w))) = v_RB V w"
  by (rule ensure_step_keeps) (simp_all add: crb_calls_keep_rb)

lemma rb_step_keeps_crb:
  "kube_api (svc_clientset svc) V \<Longrightarrow>
   v_CRB V (snd (snd (ensure_step (rb_create svc u) (rb_modify svc u) nm df ec em d m w))) = v_CRB V w"
  by (rule ensure_step_keeps) (simp_all add: rb_calls_keep_crb)

lemma ensureBinding_crb_view:
  assumes api: "kube_api (svc_clientset (as_serviceAccountsSvc s)) V" and "wired s"
    and kind: "item_Kind i \<noteq> ''ClusterRole''"
    and run: "ensureBinding s u l i (cm, rm, w) = (r, cm', rm', w')"
  shows "cm' = cm" and "v_CRB V w' = v_CRB V w"
proof -
  have "cm' = cm \<and> v_CRB V w' = v_CRB V w"
  proof (cases "item_Kind i = ''Role'' \<and> item_Namespace i \<noteq> ''''")
    case True
    obtain r1 m1 w1 where e: "ensure_step (rb_create (as_serviceAccountsSvc s) u) (rb_modify (as_serviceAccountsSvc s) u)
        (rb_name u) (rb_differs (as_serviceAccountsSvc s) u)
        (Error500InternalServerError ''failed to create role binding'')
        (Error500InternalServerError ''failed to update role binding'')
        (lgb_Name l, item_Namespace i, item_roleRef i) rm w = (r1, m1, w1)"
      by (metis prod_cases3)
    have "cm' = cm" "w' = w1"
      using run True assms(2) e by (simp_all add: ensureBinding_Role)
    then show ?thesis using rb_step_keeps_crb [OF api] e by (metis snd_conv)
  next
    case False
    then show ?thesis using run kind by (simp add: ensureBinding_other)
  qed
  then show "cm' = cm" and "v_CRB V w' = v_CRB V w" by simp_all
qed

lemma ensureBinding_rb_view:
  assumes api: "kube_api (svc_clientset (as_serviceAccountsSvc s)) V"
    and kind: "item_Kind i = ''Role'' \<Longrightarrow> item_Namespace i = ''''"
    and run: "ensureBinding s u l i (cm, rm, w) = (r, cm', rm', w')"
  shows "rm' = rm" and "v_RB V w' = v_RB V w"
proof -
  have "rm' = rm \<and> v_RB V w' = v_RB V w"
  proof (cases "item_Kind i = ''ClusterRole''")
    case True
    obtain r1 m1 w1 where e: "ensure_step (crb_create (as_serviceAccountsSvc s) u) (crb_modify (as_serviceAccountsSvc s) u)
        (crb_name u) crb_differs
        (Error500InternalServerError ''failed to create cluster role binding'')
        (Error500InternalServerError ''failed to update cluster role binding'')
        (lgb_Name l, item_Name i) cm w = (r1, m1, w1)"
      by (metis prod_cases3)
    have "rm' = rm" "w' = w1"
      using run True e by (simp_all add: ensureBinding_ClusterRole)
    then show ?thesis using crb_step_keeps_rb [OF api] e by (metis snd_conv)
  next
    case False
    then show ?thesis using run kind by (simp add: ensureBinding_other)
  qed
  then show "rm' = rm" and "v_RB V w' = v_RB V w" by simp_all
qed

text \<open>After the loop every ClusterRole item has its binding and is struck from the map.\<close>

lemma ensureBinding_ensured_crb:
  assumes api: "kube_api (svc_clientset (as_serviceAccountsSvc s)) V" and wired: "wired s"
    and tracks: "crbs.tracks V u (as_serviceAccountsSvc s) cm0 w0 (set (cluster_requests (all_items ls)))"
    and ps: "all_items ls = ps @ (l, i) # rest"
    and e: "crbs.ensured V u (as_serviceAccountsSvc s) cm0 w0 (cluster_requests ps) cm w"
    and run: "ensureBinding s u l i (cm, rm, w) = (Inr r, cm', rm', w')"
  shows "crbs.ensured V u (as_serviceAccountsSvc s) cm0 w0 (cluster_requests (ps @ [(l, i)])) cm' w'"
proof (cases "item_Kind i = ''ClusterRole''")
  case True
  then have "(lgb_Name l, item_Name i) \<in> set (cluster_requests (all_items ls))"
    using ps by (simp add: cluster_requests_def image_iff)
  then show ?thesis
    using crbs.ensured_step [OF api e tracks] run True
    by (auto simp: ensureBinding_ClusterRole split: prod.splits)
next
  case False
  note same = ensureBinding_crb_view [OF api wired False run]
  show ?thesis using e False same(1) crbs.ensured_view [OF same(2)] by simp
qed

lemma ensureBinding_ensured_rb:
  assumes api: "kube_api (svc_clientset (as_serviceAccountsSvc s)) V" and wired: "wired s"
    and tracks: "rbs.tracks V u (as_serviceAccountsSvc s) rm0 w0 (set (role_requests (all_items ls)))"
    and ps: "all_items ls = ps @ (l, i) # rest"
    and e: "rbs.ensured V u (as_serviceAccountsSvc s) rm0 w0 (role_requests ps) rm w"
    and run: "ensureBinding s u l i (cm, rm, w) = (Inr r, cm', rm', w')"
  shows "rbs.ensured V u (as_serviceAccountsSvc s) rm0 w0 (role_requests (ps @ [(l, i)])) rm' w'"
proof (cases "item_Kind i = ''Role'' \<and> item_Namespace i \<noteq> ''''")
  case True
  then have "(lgb_Name l, item_Namespace i, item_roleRef i) \<in> set (role_requests (all_items ls))"
    using ps by (simp add: role_requests_def image_iff)
  then show ?thesis
    using rbs.ensured_step [OF api e tracks] run True wired
    by (auto simp: ensureBinding_Role split: prod.splits)
next
  case False
  note same = ensureBinding_rb_view [OF api _ run]
  show ?thesis using e False same(1) rbs.ensured_view [OF same(2)] by auto
qed

lemma ensureBindings_crbs:
  assumes api: "kube_api (svc_clientset (as_serviceAccountsSvc s)) V" and wired: "wired s"
    and dist: "distinct (map fst cm0)"
    and tracks: "crbs.tracks V u (as_serviceAccountsSvc s) cm0 w0 (set (cluster_requests (all_items ls)))"
    and run: "ensureBindings s u ls (cm0, rm0, w0) = (Inr x, cm, rm, w)"
  shows "crbs.ensured V u (as_serviceAccountsSvc s) cm0 w0 (cluster_requests (all_items ls)) cm w"
proof -
  let ?svc = "as_serviceAccountsSvc s"
  let ?P = "\<lambda>rest (m, _, v). \<exists>done. all_items ls = done @ rest \<and>
      crbs.ensured V u ?svc cm0 w0 (cluster_requests done) m v"
  have "?P [] (cm, rm, w)"
  proof (rule for_each_success [OF run [unfolded ensureBindings_flat], where P = ?P])
    show "?P (all_items ls) (cm0, rm0, w0)" using crbs.ensured_Nil [OF dist] by simp
  next
    fix p rest v v' r
    assume P: "?P (p # rest) v" and step: "(case p of (l, i) \<Rightarrow> ensureBinding s u l i) v = (Inr r, v')"
    obtain l i where p: "p = (l, i)" by fastforce
    obtain m1 r1 w1 where v: "v = (m1, r1, w1)" by (metis prod_cases3)
    obtain m2 r2 w2 where v': "v' = (m2, r2, w2)" by (metis prod_cases3)
    obtain ps where ps: "all_items ls = ps @ p # rest"
      and e: "crbs.ensured V u ?svc cm0 w0 (cluster_requests ps) m1 w1"
      using P v by auto
    have "ensureBinding s u l i (m1, r1, w1) = (Inr r, m2, r2, w2)" using step p v v' by simp
    note ensureBinding_ensured_crb [OF api wired tracks ps [unfolded p] e this]
    then have "?P rest (m2, r2, w2)"
      using ps p by (intro case_prodI exI [of _ "ps @ [p]"]) simp
    then show "?P rest v'" using v' by simp
  qed
  then show ?thesis by simp
qed

lemma ensureBindings_rbs:
  assumes api: "kube_api (svc_clientset (as_serviceAccountsSvc s)) V" and wired: "wired s"
    and dist: "distinct (map fst rm0)"
    and tracks: "rbs.tracks V u (as_serviceAccountsSvc s) rm0 w0 (set (role_requests (all_items ls)))"
    and run: "ensureBindings s u ls (cm0, rm0, w0) = (Inr x, cm, rm, w)"
  shows "rbs.ensured V u (as_serviceAccountsSvc s) rm0 w0 (role_requests (all_items ls)) rm w"
proof -
  let ?svc = "as_serviceAccountsSvc s"
  let ?P = "\<lambda>rest (_, m, v). \<exists>done. all_items ls = done @ rest \<and>
      rbs.ensured V u ?svc rm0 w0 (role_requests done) m v"
  have "?P [] (cm, rm, w)"
  proof (rule for_each_success [OF run [unfolded ensureBindings_flat], where P = ?P])
    show "?P (all_items ls) (cm0, rm0, w0)" using rbs.ensured_Nil [OF dist] by simp
  next
    fix p rest v v' r
    assume P: "?P (p # rest) v" and step: "(case p of (l, i) \<Rightarrow> ensureBinding s u l i) v = (Inr r, v')"
    obtain l i where p: "p = (l, i)" by fastforce
    obtain m1 r1 w1 where v: "v = (m1, r1, w1)" by (metis prod_cases3)
    obtain m2 r2 w2 where v': "v' = (m2, r2, w2)" by (metis prod_cases3)
    obtain ps where ps: "all_items ls = ps @ p # rest"
      and e: "rbs.ensured V u ?svc rm0 w0 (role_requests ps) r1 w1"
      using P v by auto
    have "ensureBinding s u l i (m1, r1, w1) = (Inr r, m2, r2, w2)" using step p v v' by simp
    note ensureBinding_ensured_rb [OF api wired tracks ps [unfolded p] e this]
    then have "?P rest (m2, r2, w2)"
      using ps p by (intro case_prodI exI [of _ "ps @ [p]"]) simp
    then show "?P rest v'" using v' by simp
  qed
  then show ?thesis by simp
qed

section \<open>A whole reconciliation\<close>

lemma reconcile_steps:
  assumes "reconcileClusterAndRoleBindings s u ls w = (Inr x, w')"
  obtains cbs rbl cm rm w1 w2 w3 w4 where
    "GetClusterRoleBindings (as_serviceAccountsSvc s) u w = (Inr cbs, w1)"
    "GetRoleBindings (as_serviceAccountsSvc s) u w1 = (Inr rbl, w2)"
    "ensureBindings s u ls (from_pairs rb_Name cbs, from_pairs rb_Name rbl, w2) = (Inr (), cm, rm, w3)"
    "removeUnusedClusterRoleBindings s u cm w3 = (Inr (), w4)"
    "removeUnusedRoleBindings s u rm w4 = (Inr (), w')"
  using assms
  by (auto simp: reconcileClusterAndRoleBindings_def getExistingClusterRoleBindings_def
      getExistingRoleBindings_def split: prod.splits sum.splits)

lemma remove_crb_keeps_rb:
  assumes "kube_api (svc_clientset (as_serviceAccountsSvc s)) V"
  shows "keeps (v_RB V) (removeUnusedClusterRoleBindings s u m)"
  unfolding removeUnusedClusterRoleBindings_eq
  by (intro keeps_for_each remove_step_keeps crb_calls_keep_rb(3) [OF assms])

lemma remove_rb_keeps_crb:
  assumes "kube_api (svc_clientset (as_serviceAccountsSvc s)) V"
  shows "keeps (v_CRB V) (removeUnusedRoleBindings s u m)"
  unfolding removeUnusedRoleBindings_eq
  by (intro keeps_for_each remove_step_keeps rb_calls_keep_crb(3) [OF assms])

lemma tracks_crbs:
  assumes api: "kube_api (svc_clientset svc) V" and get: "GetClusterRoleBindings svc u w = (Inr cbs, w1)"
  shows "crbs.tracks V u svc (from_pairs rb_Name cbs) w D"
proof -
  { fix d b
    assume "map_of (from_pairs rb_Name cbs) (crb_name u d) = Some b"
    then have b: "b \<in> set cbs" "rb_Name b = crb_name u d" by (auto dest: map_of_from_pairs_Some)
    then obtain k where k: "v_CRB V w k = Some b" "managed_for svc u b"
      using GetClusterRoleBindings_spec(3) [OF api get] by auto
    moreover have "k = crb_key u d"
      using rbac_api_key [OF kube_apiD(1) [OF api], of w "fst k" "snd k" b] k(1) b(2)
      by (cases k) (simp add: crb_key_def crb_name_def)
    ultimately have "v_CRB V w (crb_key u d) = Some b \<and> managed_for svc u b" by simp }
  then show ?thesis by (auto simp: crbs.tracks_def)
qed

text \<open>What is left in the map after the loop are the user's ClusterRoleBindings nobody wants.\<close>

lemma leftover_crbs:
  assumes api: "kube_api (svc_clientset svc) V" and ord: "visits_each ord"
    and get: "GetClusterRoleBindings svc u w = (Inr cbs, w1)"
    and e: "crbs.ensured V u svc (from_pairs rb_Name cbs) w0 ds cm w3"
    and same: "v_CRB V w0 = v_CRB V w"
  shows "k \<in> set (map (\<lambda>(n, b). ((), n)) (range_entries ord cm)) \<longleftrightarrow>
    (\<exists>b. v_CRB V w0 k = Some b \<and> managed_for svc u b) \<and> k \<notin> crb_key u ` set ds"
proof -
  obtain n where k: "k = ((), n)" by (cases k) simp
  have dist: "distinct (map fst cm)" using e by (simp add: crbs.ensured_def)
  have "k \<in> set (map (\<lambda>(n, b). ((), n)) (range_entries ord cm)) \<longleftrightarrow> (\<exists>b. map_of cm n = Some b)"
    using range_entries_iff [OF ord dist] k by force
  also have "\<dots> \<longleftrightarrow> (\<exists>b\<in>set cbs. rb_Name b = n) \<and> n \<notin> crb_name u ` set ds"
    using e map_of_from_pairs_None [of rb_Name cbs n]
    by (cases "map_of (from_pairs rb_Name cbs) n") (auto simp: crbs.ensured_def)
  also have "(\<exists>b\<in>set cbs. rb_Name b = n) \<longleftrightarrow> (\<exists>b. v_CRB V w0 k = Some b \<and> managed_for svc u b)"
    using GetClusterRoleBindings_spec(3) [OF api get] rbac_api_key [OF kube_apiD(1) [OF api]] same k
    by fastforce
  also have "n \<in> crb_name u ` set ds \<longleftrightarrow> k \<in> crb_key u ` set ds"
    using k by (auto simp: crb_name_def crb_key_def image_iff)
  finally show ?thesis .
qed

lemma reconcile_crbs:
  assumes api: "kube_api (svc_clientset (as_serviceAccountsSvc s)) V" and wired: "wired s"
    and ord: "visits_each (as_crbOrder s)"
    and run: "reconcileClusterAndRoleBindings s u ls w = (Inr x, w')"
  shows "crbs.reconciled V u (as_serviceAccountsSvc s) w (cluster_requests (all_items ls)) w'"
proof -
  obtain cbs rbl cm rm w1 w2 w3 w4 where
    get: "GetClusterRoleBindings (as_serviceAccountsSvc s) u w = (Inr cbs, w1)"
    "GetRoleBindings (as_serviceAccountsSvc s) u w1 = (Inr rbl, w2)"
    and ens: "ensureBindings s u ls (from_pairs rb_Name cbs, from_pairs rb_Name rbl, w2) = (Inr (), cm, rm, w3)"
    and rmc: "removeUnusedClusterRoleBindings s u cm w3 = (Inr (), w4)"
    and rmr: "removeUnusedRoleBindings s u rm w4 = (Inr (), w')"
    by (rule reconcile_steps [OF run])
  have w2: "v_CRB V w2 = v_CRB V w"
    using GetClusterRoleBindings_spec(1) [OF api get(1)] keeps_eq [OF rb_calls_keep_crb(4) [OF api] get(2)]
    by simp
  have "crbs.tracks V u (as_serviceAccountsSvc s) (from_pairs rb_Name cbs) w2 (set (cluster_requests (all_items ls)))"
    using tracks_crbs [OF api get(1)] w2 by (simp add: crbs.tracks_def)
  note e = ensureBindings_crbs [OF api wired from_pairs_distinct this ens]
  have "crbs.reconciled V u (as_serviceAccountsSvc s) w2 (cluster_requests (all_items ls)) w4"
    by (rule crbs.ensured_removed [OF api e rmc [unfolded removeUnusedClusterRoleBindings_eq]
          leftover_crbs [OF api ord get(1) e w2]])
  moreover have "v_CRB V w' = v_CRB V w4" using keeps_eq [OF remove_rb_keeps_crb [OF api] rmr] .
  ultimately show ?thesis using w2 by (simp add: crbs.reconciled_def)
qed

text \<open>
  RoleBindings are looked up by name alone, although a name may exist in several namespaces.
  The reconciliation is right when this does not matter: no name of the user's RoleBindings
  is used in two namespaces, and an item whose binding exists asks for it in the namespace
  where it is.
\<close>

definition namespaces_settled ::
  "'w KubeView \<Rightarrow> 'w serviceAccountsService \<Rightarrow> string \<Rightarrow> LdapGroupBinding list \<Rightarrow> 'w \<Rightarrow> bool" where
  "namespaces_settled V svc u ls w \<longleftrightarrow>
     (\<forall>k b. v_RB V w k = Some b \<longrightarrow> managed_for svc u b \<longrightarrow>
        (\<forall>k' b'. v_RB V w k' = Some b' \<longrightarrow> managed_for svc u b' \<longrightarrow> snd k' = snd k \<longrightarrow> k' = k) \<and>
        (\<forall>d\<in>set (role_requests (all_items ls)). rb_name u d = snd k \<longrightarrow> fst (snd d) = fst k))"

lemma settled_names:
  assumes api: "kube_api (svc_clientset svc) V" and get: "GetRoleBindings svc u w = (Inr rbl, w1)"
    and settled: "namespaces_settled V svc u ls w" and b: "v_RB V w k = Some b" "managed_for svc u b"
  shows "map_of (from_pairs rb_Name rbl) (snd k) = Some b"
proof -
  note key = rbac_api_key [OF kube_apiD(2) [OF api]]
  have k: "k = (rb_Namespace b, rb_Name b)" using key [of w "fst k" "snd k" b] b(1) by simp
  have "b \<in> set rbl" using GetRoleBindings_spec(3) [OF api get] b by blast
  then obtain c where c: "map_of (from_pairs rb_Name rbl) (snd k) = Some c"
    using map_of_from_pairs_None [of rb_Name rbl "snd k"] k
    by (cases "map_of (from_pairs rb_Name rbl) (snd k)") auto
  then have "c \<in> set rbl" "rb_Name c = snd k" using map_of_from_pairs_Some by metis+
  then obtain k' where k': "v_RB V w k' = Some c" "managed_for svc u c"
    using GetRoleBindings_spec(3) [OF api get] by auto
  then have "snd k' = snd k" using key [of w "fst k'" "snd k'" c] \<open>rb_Name c = snd k\<close> by simp
  then have "k' = k" using settled b k' unfolding namespaces_settled_def by blast
  then show ?thesis using k' b c by simp
qed

lemma tracks_rbs:
  assumes api: "kube_api (svc_clientset svc) V" and get: "GetRoleBindings svc u w = (Inr rbl, w1)"
    and settled: "namespaces_settled V svc u ls w"
  shows "rbs.tracks V u svc (from_pairs rb_Name rbl) w (set (role_requests (all_items ls)))"
proof -
  { fix d b
    assume d: "d \<in> set (role_requests (all_items ls))"
      and "map_of (from_pairs rb_Name rbl) (rb_name u d) = Some b"
    then have b: "b \<in> set rbl" "rb_Name b = rb_name u d" by (auto dest: map_of_from_pairs_Some)
    then obtain k where k: "v_RB V w k = Some b" "managed_for svc u b"
      using GetRoleBindings_spec(3) [OF api get] by auto
    then have n: "snd k = rb_name u d"
      using rbac_api_key [OF kube_apiD(2) [OF api], of w "fst k" "snd k" b] b(2) by simp
    then have "fst (snd d) = fst k"
      using settled k d unfolding namespaces_settled_def by metis
    then have "rb_key u d = k" using n by (cases k) (simp add: rb_key_def rb_name_def)
    then have "v_RB V w (rb_key u d) = Some b \<and> managed_for svc u b" using k by simp }
  then show ?thesis by (auto simp: rbs.tracks_def)
qed

lemma leftover_rbs:
  assumes api: "kube_api (svc_clientset svc) V" and ord: "visits_each ord"
    and get: "GetRoleBindings svc u w = (Inr rbl, w2)"
    and settled: "namespaces_settled V svc u ls w"
    and e: "rbs.ensured V u svc (from_pairs rb_Name rbl) w (role_requests (all_items ls)) rm w3"
  shows "k \<in> set (map (\<lambda>(n, b). (rb_Namespace b, n)) (range_entries ord rm)) \<longleftrightarrow>
    (\<exists>b. v_RB V w k = Some b \<and> managed_for svc u b) \<and>
    k \<notin> rb_key u ` set (role_requests (all_items ls))"
proof -
  let ?ds = "role_requests (all_items ls)"
  note key = rbac_api_key [OF kube_apiD(2) [OF api]]
  have dist: "distinct (map fst rm)" using e by (simp add: rbs.ensured_def)
  have "k \<in> set (map (\<lambda>(n, b). (rb_Namespace b, n)) (range_entries ord rm)) \<longleftrightarrow>
      (\<exists>b. map_of rm (snd k) = Some b \<and> rb_Namespace b = fst k)"
    using range_entries_iff [OF ord dist] by (cases k) force
  also have "\<dots> \<longleftrightarrow> (\<exists>b. map_of (from_pairs rb_Name rbl) (snd k) = Some b \<and> rb_Namespace b = fst k) \<and>
      snd k \<notin> rb_name u ` set ?ds"
    using e by (auto simp: rbs.ensured_def)
  also have "(\<exists>b. map_of (from_pairs rb_Name rbl) (snd k) = Some b \<and> rb_Namespace b = fst k) \<longleftrightarrow>
      (\<exists>b. v_RB V w k = Some b \<and> managed_for svc u b)" (is "?l \<longleftrightarrow> ?r")
  proof
    assume ?l
    then obtain b where b: "b \<in> set rbl" "rb_Name b = snd k" "rb_Namespace b = fst k"
      by (auto dest: map_of_from_pairs_Some)
    then obtain k' where k': "v_RB V w k' = Some b" "managed_for svc u b"
      using GetRoleBindings_spec(3) [OF api get] by auto
    then have "k' = k" using key [of w "fst k'" "snd k'" b] b by (cases k; cases k') simp
    then show ?r using k' by blast
  next
    assume ?r
    then obtain b where b: "v_RB V w k = Some b" "managed_for svc u b" by blast
    then show ?l using settled_names [OF api get settled b] key [of w "fst k" "snd k" b] by simp
  qed
  also have "?r \<and> snd k \<notin> rb_name u ` set ?ds \<longleftrightarrow> ?r \<and> k \<notin> rb_key u ` set ?ds"
  proof -
    have "?r \<Longrightarrow> d \<in> set ?ds \<Longrightarrow> rb_name u d = snd k \<Longrightarrow> k = rb_key u d" for d
      using settled unfolding namespaces_settled_def
      by (metis prod.collapse rb_key_def rb_name_def)
    moreover have "snd (rb_key u d) = rb_name u d" for d by (simp add: rb_key_def rb_name_def)
    ultimately show ?thesis by (metis (no_types, lifting) image_iff)
  qed
  finally show ?thesis .
qed

lemma namespaces_settled_view:
  "v_RB V w' = v_RB V w \<Longrightarrow> namespaces_settled V svc u ls w' = namespaces_settled V svc u ls w"
  by (simp add: namespaces_settled_def)

lemma reconcile_rbs:
  assumes api: "kube_api (svc_clientset (as_serviceAccountsSvc s)) V" and wired: "wired s"
    and ord: "visits_each (as_rbOrder s)"
    and settled: "namespaces_settled V (as_serviceAccountsSvc s) u ls w"
    and run: "reconcileClusterAndRoleBindings s u ls w = (Inr x, w')"
  shows "rbs.reconciled V u (as_serviceAccountsSvc s) w (role_requests (all_items ls)) w'"
proof -
  obtain cbs rbl cm rm w1 w2 w3 w4 where
    get: "GetClusterRoleBindings (as_serviceAccountsSvc s) u w = (Inr cbs, w1)"
    "GetRoleBindings (as_serviceAccountsSvc s) u w1 = (Inr rbl, w2)"
    and ens: "ensureBindings s u ls (from_pairs rb_Name cbs, from_pairs rb_Name rbl, w2) = (Inr (), cm, rm, w3)"
    and rmc: "removeUnusedClusterRoleBindings s u cm w3 = (Inr (), w4)"
    and rmr: "removeUnusedRoleBindings s u rm w4 = (Inr (), w')"
    by (rule reconcile_steps [OF run])
  have w1: "v_RB V w1 = v_RB V w" using keeps_eq [OF crb_calls_keep_rb(4) [OF api] get(1)] .
  have w2: "v_RB V w2 = v_RB V w1" using GetRoleBindings_spec(1) [OF api get(2)] .
  have settled1: "namespaces_settled V (as_serviceAccountsSvc s) u ls w1"
    using settled namespaces_settled_view [OF w1] by simp
  have "rbs.tracks V u (as_serviceAccountsSvc s) (from_pairs rb_Name rbl) w2 (set (role_requests (all_items ls)))"
    using tracks_rbs [OF api get(2) settled1] w2 by (simp add: rbs.tracks_def)
  note e2 = ensureBindings_rbs [OF api wired from_pairs_distinct this ens]
  have w4: "v_RB V w4 = v_RB V w3" using keeps_eq [OF remove_crb_keeps_rb [OF api] rmc] .
  have e: "rbs.ensured V u (as_serviceAccountsSvc s) (from_pairs rb_Name rbl) w1 (role_requests (all_items ls)) rm w4"
    using e2 rbs.ensured_view [OF w4] rbs.ensured_start [OF w2] by blast
  have "rbs.reconciled V u (as_serviceAccountsSvc s) w1 (role_requests (all_items ls)) w'"
    by (rule rbs.ensured_removed [OF api e rmr [unfolded removeUnusedRoleBindings_eq]
          leftover_rbs [OF api ord get(2) settled1 e]])
  then show ?thesis using w1 by (simp add: rbs.reconciled_def)
qed

end
