(* ===== verification/Grants.thy ===== *)
theory Grants
  imports AuthReconcile
begin

text \<open>
  What a user may do, as the abstract state of the authentication service: the cluster roles
  and the namespaced roles that the bindings under management give. A reconciliation makes
  the roles held equal to the roles due, and changes no binding that is not the user's.
\<close>

section \<open>Roles held and roles due\<close>

definition cluster_roles ::
  "'w KubeView \<Rightarrow> 'w serviceAccountsService \<Rightarrow> string \<Rightarrow> 'w \<Rightarrow> string set" where
  "cluster_roles V svc u w = {rr_Name (rb_RoleRef b) | k b. v_CRB V w k = Some b \<and> managed_for svc u b}"

definition roles ::
  "'w KubeView \<Rightarrow> 'w serviceAccountsService \<Rightarrow> string \<Rightarrow> 'w \<Rightarrow> (string \<times> string \<times> string) set" where
  "roles V svc u w =
     {(rb_Namespace b, rr_Kind (rb_RoleRef b), rr_Name (rb_RoleRef b)) | k b.
        v_RB V w k = Some b \<and> managed_for svc u b}"

definition due_cluster_roles :: "LdapGroupBinding list \<Rightarrow> string set" where
  "due_cluster_roles ls =
     {item_Name i | l i. l \<in> set ls \<and> i \<in> set (lgb_items l) \<and> item_Kind i = ''ClusterRole''}"

definition due_roles :: "LdapGroupBinding list \<Rightarrow> (string \<times> string \<times> string) set" where
  "due_roles ls =
     {(item_Namespace i, ''Role'', item_Name i) | l i.
        l \<in> set ls \<and> i \<in> set (lgb_items l) \<and> item_Kind i = ''Role'' \<and> item_Namespace i \<noteq> ''''}"

lemma set_cluster_requests:
  "set (cluster_requests (all_items ls)) =
     {(lgb_Name l, item_Name i) | l i. l \<in> set ls \<and> i \<in> set (lgb_items l) \<and> item_Kind i = ''ClusterRole''}"
  by (auto simp: cluster_requests_def all_items_def image_iff)

lemma set_role_requests:
  "set (role_requests (all_items ls)) =
     {(lgb_Name l, item_Namespace i, item_roleRef i) | l i.
        l \<in> set ls \<and> i \<in> set (lgb_items l) \<and> item_Kind i = ''Role'' \<and> item_Namespace i \<noteq> ''''}"
  by (auto simp: role_requests_def all_items_def image_iff)

lemma due_cluster_roles_requests: "due_cluster_roles ls = snd ` set (cluster_requests (all_items ls))"
  unfolding due_cluster_roles_def set_cluster_requests by force

lemma due_roles_requests:
  "due_roles ls = (\<lambda>d. (fst (snd d), rr_Kind (snd (snd d)), rr_Name (snd (snd d)))) `
     set (role_requests (all_items ls))"
  unfolding due_roles_def set_role_requests by (force simp: item_roleRef_def)

lemma reconciled_cluster_roles:
  assumes r: "crbs.reconciled V u svc w0 (cluster_requests (all_items ls)) w"
  shows "cluster_roles V svc u w = due_cluster_roles ls"
  unfolding cluster_roles_def due_cluster_roles_requests
  by (rule crbs.reconciled_image [OF r]) (simp add: crb_wanted_def)

lemma reconciled_roles:
  assumes api: "kube_api (svc_clientset svc) V"
    and r: "rbs.reconciled V u svc w0 (role_requests (all_items ls)) w"
  shows "roles V svc u w = due_roles ls"
  unfolding roles_def due_roles_requests
proof (rule rbs.reconciled_image [OF r])
  fix d b
  assume "v_RB V w (rb_key u d) = Some b" "rb_wanted svc u d b"
  then show "(rb_Namespace b, rr_Kind (rb_RoleRef b), rr_Name (rb_RoleRef b)) =
      (fst (snd d), rr_Kind (snd (snd d)), rr_Name (snd (snd d)))"
    using rbac_api_key [OF kube_apiD(2) [OF api], of w "fst (rb_key u d)" "snd (rb_key u d)" b]
    by (simp add: rb_wanted_def rb_key_def)
qed

section \<open>What no outcome changes\<close>

text \<open>
  The loop of step 2 touches the requested bindings only, and only strikes names from the two
  maps. This holds whether it ends or stops at an error.
\<close>

lemma crb_step_frame:
  assumes api: "kube_api (svc_clientset (as_serviceAccountsSvc s)) V" and kind: "item_Kind i = ''ClusterRole''"
    and run: "ensureBinding s u l i (cm, rm, v) = (r, cm', rm', v')"
  shows "k \<noteq> crb_key u (lgb_Name l, item_Name i) \<Longrightarrow> v_CRB V v' k = v_CRB V v k"
    and "map_of cm' \<subseteq>\<^sub>m map_of cm"
proof -
  let ?svc = "as_serviceAccountsSvc s" and ?d = "(lgb_Name l, item_Name i)"
  let ?step = "ensure_step (crb_create ?svc u) (crb_modify ?svc u) (crb_name u) crb_differs
      (Error500InternalServerError ''failed to create cluster role binding'')
      (Error500InternalServerError ''failed to update cluster role binding'') ?d cm v"
  have e: "?step = (r, cm', v')"
    using run unfolding ensureBinding_ClusterRole [OF kind] by (auto split: prod.splits)
  show "k \<noteq> crb_key u ?d \<Longrightarrow> v_CRB V v' k = v_CRB V v k"
    using crbs.ensure_step_frame [OF api, of k u ?d] e by (metis snd_conv)
  have "map_of (fst (snd ?step)) \<subseteq>\<^sub>m map_of cm" by (rule crbs.ensure_step_map)
  then show "map_of cm' \<subseteq>\<^sub>m map_of cm" using e by simp
qed

lemma rb_step_frame:
  assumes api: "kube_api (svc_clientset (as_serviceAccountsSvc s)) V" and wired: "wired s"
    and kind: "item_Kind i = ''Role''" "item_Namespace i \<noteq> ''''"
    and run: "ensureBinding s u l i (cm, rm, v) = (r, cm', rm', v')"
  shows "k \<noteq> rb_key u (lgb_Name l, item_Namespace i, item_roleRef i) \<Longrightarrow> v_RB V v' k = v_RB V v k"
    and "map_of rm' \<subseteq>\<^sub>m map_of rm"
proof -
  let ?svc = "as_serviceAccountsSvc s" and ?d = "(lgb_Name l, item_Namespace i, item_roleRef i)"
  let ?step = "ensure_step (rb_create ?svc u) (rb_modify ?svc u) (rb_name u) (rb_differs ?svc u)
      (Error500InternalServerError ''failed to create role binding'')
      (Error500InternalServerError ''failed to update role binding'') ?d rm v"
  have e: "?step = (r, rm', v')"
    using run unfolding ensureBinding_Role [OF kind wired] by (auto split: prod.splits)
  show "k \<noteq> rb_key u ?d \<Longrightarrow> v_RB V v' k = v_RB V v k"
    using rbs.ensure_step_frame [OF api, of k u ?d] e by (metis snd_conv)
  have "map_of (fst (snd ?step)) \<subseteq>\<^sub>m map_of rm" by (rule rbs.ensure_step_map)
  then show "map_of rm' \<subseteq>\<^sub>m map_of rm" using e by simp
qed

lemma ensureBindings_frame_crb:
  assumes api: "kube_api (svc_clientset (as_serviceAccountsSvc s)) V" and wired: "wired s"
    and k: "k \<notin> crb_key u ` set (cluster_requests (all_items ls))"
    and run: "ensureBindings s u ls (cm0, rm0, w) = (r, cm, rm, w')"
  shows "v_CRB V w' k = v_CRB V w k \<and> map_of cm \<subseteq>\<^sub>m map_of cm0"
proof -
  let ?P = "\<lambda>st. v_CRB V (snd (snd st)) k = v_CRB V w k \<and> map_of (fst st) \<subseteq>\<^sub>m map_of cm0"
  have "?P (snd (for_each (\<lambda>(l, i). ensureBinding s u l i) (all_items ls) (cm0, rm0, w)))"
  proof (rule for_each_invariant)
    fix p and st :: "crbMap \<times> rbMap \<times> _"
    assume p: "p \<in> set (all_items ls)" and P: "?P st"
    obtain l i where li: "p = (l, i)" by fastforce
    obtain cm rm v where st: "st = (cm, rm, v)" by (metis prod_cases3)
    obtain r cm' rm' v' where run: "ensureBinding s u l i (cm, rm, v) = (r, cm', rm', v')"
      by (metis prod_cases4)
    have "v_CRB V v' k = v_CRB V v k \<and> map_of cm' \<subseteq>\<^sub>m map_of cm"
    proof (cases "item_Kind i = ''ClusterRole''")
      case True
      have "(lgb_Name l, item_Name i) \<in> set (cluster_requests (all_items ls))"
        using p li True by (force simp: cluster_requests_def image_iff)
      then have "k \<noteq> crb_key u (lgb_Name l, item_Name i)" using k by blast
      then show ?thesis using crb_step_frame [OF api True run] by simp
    next
      case False
      then show ?thesis using ensureBinding_crb_view [OF api wired False run] by simp
    qed
    then show "?P (snd ((case p of (l, i) \<Rightarrow> ensureBinding s u l i) st))"
      using P st li run by (auto intro: map_le_trans)
  qed simp
  then show ?thesis using run by (simp add: ensureBindings_flat)
qed

lemma ensureBindings_frame_rb:
  assumes api: "kube_api (svc_clientset (as_serviceAccountsSvc s)) V" and wired: "wired s"
    and k: "k \<notin> rb_key u ` set (role_requests (all_items ls))"
    and run: "ensureBindings s u ls (cm0, rm0, w) = (r, cm, rm, w')"
  shows "v_RB V w' k = v_RB V w k \<and> map_of rm \<subseteq>\<^sub>m map_of rm0"
proof -
  let ?P = "\<lambda>st. v_RB V (snd (snd st)) k = v_RB V w k \<and> map_of (fst (snd st)) \<subseteq>\<^sub>m map_of rm0"
  have "?P (snd (for_each (\<lambda>(l, i). ensureBinding s u l i) (all_items ls) (cm0, rm0, w)))"
  proof (rule for_each_invariant)
    fix p and st :: "crbMap \<times> rbMap \<times> _"
    assume p: "p \<in> set (all_items ls)" and P: "?P st"
    obtain l i where li: "p = (l, i)" by fastforce
    obtain cm rm v where st: "st = (cm, rm, v)" by (metis prod_cases3)
    obtain r cm' rm' v' where run: "ensureBinding s u l i (cm, rm, v) = (r, cm', rm', v')"
      by (metis prod_cases4)
    have "v_RB V v' k = v_RB V v k \<and> map_of rm' \<subseteq>\<^sub>m map_of rm"
    proof (cases "item_Kind i = ''Role'' \<and> item_Namespace i \<noteq> ''''")
      case True
      have "(lgb_Name l, item_Namespace i, item_roleRef i) \<in> set (role_requests (all_items ls))"
        using p li True by (force simp: role_requests_def image_iff)
      then have "k \<noteq> rb_key u (lgb_Name l, item_Namespace i, item_roleRef i)" using k by blast
      then show ?thesis using rb_step_frame [OF api wired _ _ run] True by simp
    next
      case False
      then show ?thesis using ensureBinding_rb_view [OF api _ run] by simp
    qed
    then show "?P (snd ((case p of (l, i) \<Rightarrow> ensureBinding s u l i) st))"
      using P st li run by (auto intro: map_le_trans)
  qed simp
  then show ?thesis using run by (simp add: ensureBindings_flat)
qed

text \<open>The removal loops delete bindings of their map only.\<close>

lemma remove_crb_frame:
  assumes api: "kube_api (svc_clientset (as_serviceAccountsSvc s)) V"
    and k: "map_of m (snd k) = None"
  shows "v_CRB V (snd (removeUnusedClusterRoleBindings s u m w)) k = v_CRB V w k"
  unfolding removeUnusedClusterRoleBindings_eq
proof (rule crb.remove_all_frame [OF api])
  show "k \<notin> set (map (\<lambda>(n, b). ((), n)) (range_entries (as_crbOrder s) m))"
    using k by (auto simp: range_entries_def map_filter_def)
qed

lemma remove_rb_frame:
  assumes api: "kube_api (svc_clientset (as_serviceAccountsSvc s)) V"
    and k: "\<And>b. map_of m (snd k) = Some b \<Longrightarrow> rb_Namespace b \<noteq> fst k"
  shows "v_RB V (snd (removeUnusedRoleBindings s u m w)) k = v_RB V w k"
  unfolding removeUnusedRoleBindings_eq
proof (rule rb.remove_all_frame [OF api])
  show "k \<notin> set (map (\<lambda>(n, b). (rb_Namespace b, n)) (range_entries (as_rbOrder s) m))"
    using k by (auto simp: range_entries_def map_filter_def)
qed

lemma listed_crb:
  assumes api: "kube_api (svc_clientset svc) V" and get: "GetClusterRoleBindings svc u w = (Inr cbs, w1)"
    and b: "map_of (from_pairs rb_Name cbs) (snd k) = Some b"
  shows "v_CRB V w k = Some b \<and> managed_for svc u b"
proof -
  from b have "b \<in> set cbs" "rb_Name b = snd k" by (auto dest: map_of_from_pairs_Some)
  then obtain k' where k': "v_CRB V w k' = Some b" "managed_for svc u b"
    using GetClusterRoleBindings_spec(3) [OF api get] by auto
  then have "k' = k"
    using rbac_api_key [OF kube_apiD(1) [OF api], of w "fst k'" "snd k'" b] \<open>rb_Name b = snd k\<close>
    by (cases k; cases k') auto
  then show ?thesis using k' by simp
qed

lemma listed_rb:
  assumes api: "kube_api (svc_clientset svc) V" and get: "GetRoleBindings svc u w = (Inr rbl, w1)"
    and b: "map_of (from_pairs rb_Name rbl) (snd k) = Some b" "rb_Namespace b = fst k"
  shows "v_RB V w k = Some b \<and> managed_for svc u b"
proof -
  from b have "b \<in> set rbl" "rb_Name b = snd k" by (auto dest: map_of_from_pairs_Some)
  then obtain k' where k': "v_RB V w k' = Some b" "managed_for svc u b"
    using GetRoleBindings_spec(3) [OF api get] by auto
  then have "k' = k"
    using rbac_api_key [OF kube_apiD(2) [OF api], of w "fst k'" "snd k'" b] \<open>rb_Name b = snd k\<close> b(2)
    by (cases k; cases k') auto
  then show ?thesis using k' by simp
qed

text \<open>
  Whatever the outcome, a binding that is neither requested nor under management is left
  as it is.
\<close>

lemma reconcile_frame_crb:
  assumes api: "kube_api (svc_clientset (as_serviceAccountsSvc s)) V" and wired: "wired s"
    and k: "k \<notin> crb_key u ` set (cluster_requests (all_items ls))"
    and foreign: "\<And>b. v_CRB V w k = Some b \<Longrightarrow> \<not> managed_for (as_serviceAccountsSvc s) u b"
  shows "v_CRB V (snd (reconcileClusterAndRoleBindings s u ls w)) k = v_CRB V w k"
proof -
  let ?svc = "as_serviceAccountsSvc s"
  obtain g1 w1 where get1: "GetClusterRoleBindings ?svc u w = (g1, w1)" by fastforce
  obtain g2 w2 where get2: "GetRoleBindings ?svc u w1 = (g2, w2)" by fastforce
  have w1: "v_CRB V w1 = v_CRB V w"
    using keeps_eq [OF GetClusterRoleBindings_keeps(1) [OF api] get1] .
  have w2: "v_CRB V w2 = v_CRB V w"
    using keeps_eq [OF rb_calls_keep_crb(4) [OF api] get2] w1 by simp
  have rest: "v_CRB V (snd (removeUnusedRoleBindings s u m v)) k = v_CRB V v k" for m v
    by (simp add: keepsD [OF remove_rb_keeps_crb [OF api]])
  show ?thesis
  proof (cases "\<exists>cbs rbl. g1 = Inr cbs \<and> g2 = Inr rbl")
    case False
    then show ?thesis
      using get1 get2 w1 w2
      by (auto simp: reconcileClusterAndRoleBindings_def getExistingClusterRoleBindings_def
          getExistingRoleBindings_def split: sum.splits)
  next
    case True
    then obtain cbs rbl where g: "g1 = Inr cbs" "g2 = Inr rbl" by blast
    obtain r cm rm w3 where ens: "ensureBindings s u ls (from_pairs rb_Name cbs, from_pairs rb_Name rbl, w2) = (r, cm, rm, w3)"
      by (metis prod_cases4)
    note frame = ensureBindings_frame_crb [OF api wired k ens]
    have "map_of cm (snd k) = None"
    proof (rule ccontr)
      assume "map_of cm (snd k) \<noteq> None"
      then obtain b where "map_of (from_pairs rb_Name cbs) (snd k) = Some b"
        using frame by (metis domIff map_le_def option.collapse)
      then show False using listed_crb [OF api get1 [unfolded g]] foreign by blast
    qed
    then have rmc: "v_CRB V (snd (removeUnusedClusterRoleBindings s u cm v)) k = v_CRB V v k" for v
      by (rule remove_crb_frame [OF api])
    have rmc3: "\<And>x w4. removeUnusedClusterRoleBindings s u cm w3 = (x, w4) \<Longrightarrow> v_CRB V w4 k = v_CRB V w3 k"
      using rmc [of w3] by simp
    have rmr: "\<And>x v v'. removeUnusedRoleBindings s u rm v = (x, v') \<Longrightarrow> v_CRB V v' k = v_CRB V v k"
      using rest by (metis snd_conv)
    show ?thesis
      using get1 get2 g ens w2 frame
      by (auto simp: reconcileClusterAndRoleBindings_def getExistingClusterRoleBindings_def
          getExistingRoleBindings_def rmc3 rmr split: prod.splits sum.splits)
  qed
qed

lemma reconcile_frame_rb:
  assumes api: "kube_api (svc_clientset (as_serviceAccountsSvc s)) V" and wired: "wired s"
    and k: "k \<notin> rb_key u ` set (role_requests (all_items ls))"
    and foreign: "\<And>b. v_RB V w k = Some b \<Longrightarrow> \<not> managed_for (as_serviceAccountsSvc s) u b"
  shows "v_RB V (snd (reconcileClusterAndRoleBindings s u ls w)) k = v_RB V w k"
proof -
  let ?svc = "as_serviceAccountsSvc s"
  obtain g1 w1 where get1: "GetClusterRoleBindings ?svc u w = (g1, w1)" by fastforce
  obtain g2 w2 where get2: "GetRoleBindings ?svc u w1 = (g2, w2)" by fastforce
  have w1: "v_RB V w1 = v_RB V w"
    using keeps_eq [OF crb_calls_keep_rb(4) [OF api] get1] .
  have w2: "v_RB V w2 = v_RB V w"
    using keeps_eq [OF GetClusterRoleBindings_keeps(2) [OF api] get2] w1 by simp
  show ?thesis
  proof (cases "\<exists>cbs rbl. g1 = Inr cbs \<and> g2 = Inr rbl")
    case False
    then show ?thesis
      using get1 get2 w1 w2
      by (auto simp: reconcileClusterAndRoleBindings_def getExistingClusterRoleBindings_def
          getExistingRoleBindings_def split: sum.splits)
  next
    case True
    then obtain cbs rbl where g: "g1 = Inr cbs" "g2 = Inr rbl" by blast
    obtain r cm rm w3 where ens: "ensureBindings s u ls (from_pairs rb_Name cbs, from_pairs rb_Name rbl, w2) = (r, cm, rm, w3)"
      by (metis prod_cases4)
    note frame = ensureBindings_frame_rb [OF api wired k ens]
    have "rb_Namespace b \<noteq> fst k" if "map_of rm (snd k) = Some b" for b
    proof
      assume ns: "rb_Namespace b = fst k"
      have "map_of (from_pairs rb_Name rbl) (snd k) = Some b"
        using frame that by (metis domI map_le_def)
      then show False using listed_rb [OF api get2 [unfolded g] _ ns] foreign w1 by metis
    qed
    then have rmr: "\<And>x v v'. removeUnusedRoleBindings s u rm v = (x, v') \<Longrightarrow> v_RB V v' k = v_RB V v k"
      using remove_rb_frame [OF api] by (metis snd_conv)
    have rmc: "\<And>x v v'. removeUnusedClusterRoleBindings s u cm v = (x, v') \<Longrightarrow> v_RB V v' k = v_RB V v k"
      using keeps_eq [OF remove_crb_keeps_rb [OF api]] by metis
    show ?thesis
      using get1 get2 g ens w2 frame
      by (auto simp: reconcileClusterAndRoleBindings_def getExistingClusterRoleBindings_def
          getExistingRoleBindings_def rmc rmr split: prod.splits sum.splits)
  qed
qed

end
