(* ===== verification/Liveness.thy ===== *)
theory Liveness
  imports Grants
begin

text \<open>
  When a reconciliation ends without an error: the API server answers valid requests, no two
  items name the same binding, and a binding that exists under a wanted name is one of the
  user's with the wanted role. The loops themselves always end, since they range over finite
  lists; what is shown is that no error stops them.
\<close>

section \<open>Both kinds of binding on a live server\<close>

definition crb_object :: "'w serviceAccountsService \<Rightarrow> string \<Rightarrow> crb_request \<Rightarrow> rbac_binding" where
  "crb_object svc u d = bindingObject svc u (fst d)
     \<lparr>rr_APIGroup = ''rbac.authorization.k8s.io'', rr_Kind = ''ClusterRole'', rr_Name = snd d\<rparr>"

definition rb_object :: "'w serviceAccountsService \<Rightarrow> string \<Rightarrow> rb_request \<Rightarrow> rbac_binding" where
  "rb_object svc u d = bindingObject svc u (fst d) (snd (snd d))"

text \<open>
  A RoleBinding that \<open>UpdateRoleBinding\<close> can bring in line: the role reference, which the
  server does not change, is the wanted one already.
\<close>

definition rb_fits ::
  "(string \<Rightarrow> rbac_binding \<Rightarrow> bool) \<Rightarrow> 'w serviceAccountsService \<Rightarrow> string \<Rightarrow> rb_request \<Rightarrow> rbac_binding \<Rightarrow> bool" where
  "rb_fits admits svc u d b \<longleftrightarrow>
     rb_RoleRef b = snd (snd d) \<and>
     admits (fst (snd d)) (b\<lparr>rb_RoleRef := snd (snd d), rb_Subjects := sa_subjects svc u\<rparr>)"

abbreviation crb_live :: "(unit \<Rightarrow> rbac_binding \<Rightarrow> bool) \<Rightarrow> 'w Clientset \<Rightarrow> 'w KubeView \<Rightarrow> bool" where
  "crb_live admits K V \<equiv> rbac_live admits () (cs_ClusterRoleBindings K) (v_CRB V)"

abbreviation rb_live :: "(string \<Rightarrow> rbac_binding \<Rightarrow> bool) \<Rightarrow> 'w Clientset \<Rightarrow> 'w KubeView \<Rightarrow> bool" where
  "rb_live admits K V \<equiv> rbac_live admits '''' (cs_RoleBindings K) (v_RB V)"

lemma success_pair: "fst p = Inr x \<Longrightarrow> \<exists>w'. p = (Inr x, w')"
  by (cases p) simp

interpretation crbl: live_store "v_CRB V" "crb_create svc u" "crb_modify svc u" "crb_remove svc"
    "crb_key u" "managed_for svc u" crb_wanted "kube_api (svc_clientset svc) V" "crb_name u" crb_differs
    "crb_live admits (svc_clientset svc) V" "\<lambda>d. admits () (crb_object svc u d)" "\<lambda>_ _. False"
  for V svc u admits
proof unfold_locales
  fix d w
  assume live: "crb_live admits (svc_clientset svc) V" and "admits () (crb_object svc u d)"
    and "v_CRB V w (crb_key u d) = None"
  then have "\<exists>b. fst (rc_Create (cs_ClusterRoleBindings (svc_clientset svc)) () (crb_object svc u d) w) = Inr b"
    using rbac_liveD(3) [OF live, of "()" "crb_object svc u d" w]
    by (simp add: crb_key_def crb_object_def)
  then show "\<exists>b w'. crb_create svc u d w = (Inr b, w')"
    by (auto simp: crb_create_def single_call_eqs crb_object_def dest: success_pair)
next
  fix w :: 'a and k
  assume live: "crb_live admits (svc_clientset svc) V" and "v_CRB V w k \<noteq> None"
  then show "\<exists>w'. crb_remove svc k w = (Inr (), w')"
    using rbac_liveD(5) [OF live, of w "()" "snd k"]
    by (cases k) (auto simp: crb_remove_def single_call_eqs dest: success_pair)
qed simp

interpretation rbl: live_store "v_RB V" "rb_create svc u" "rb_modify svc u" "rb_remove svc"
    "rb_key u" "managed_for svc u" "rb_wanted svc u" "kube_api (svc_clientset svc) V" "rb_name u"
    "rb_differs svc u" "rb_live admits (svc_clientset svc) V" "\<lambda>d. admits (fst (snd d)) (rb_object svc u d)"
    "rb_fits admits svc u"
  for V svc u admits
proof unfold_locales
  fix d w
  assume live: "rb_live admits (svc_clientset svc) V" and "admits (fst (snd d)) (rb_object svc u d)"
    and "v_RB V w (rb_key u d) = None"
  then have "\<exists>b. fst (rc_Create (cs_RoleBindings (svc_clientset svc)) (fst (snd d)) (rb_object svc u d) w) = Inr b"
    using rbac_liveD(3) [OF live, of "fst (snd d)" "rb_object svc u d" w]
    by (simp add: rb_key_def rb_object_def)
  then show "\<exists>b w'. rb_create svc u d w = (Inr b, w')"
    by (auto simp: rb_create_def single_call_eqs rb_object_def dest: success_pair)
next
  fix w :: 'a and k
  assume live: "rb_live admits (svc_clientset svc) V" and "v_RB V w k \<noteq> None"
  then show "\<exists>w'. rb_remove svc k w = (Inr (), w')"
    using rbac_liveD(5) [OF live, of w "fst k" "snd k"]
    by (auto simp: rb_remove_def single_call_eqs dest: success_pair)
next
  fix d w b
  assume api: "kube_api (svc_clientset svc) V" and live: "rb_live admits (svc_clientset svc) V"
    and b: "v_RB V w (rb_key u d) = Some b" and fits: "rb_fits admits svc u d b"
  let ?cl = "cs_RoleBindings (svc_clientset svc)" and ?n = "snd (rb_key u d)"
  let ?o = "b\<lparr>rb_RoleRef := snd (snd d), rb_Subjects := sa_subjects svc u\<rparr>"
  obtain v where get: "rc_Get ?cl (fst (snd d)) ?n w = (Inr b, v)"
    using rbac_liveD(2) [OF live, of w "fst (snd d)" ?n b] b
    by (auto simp: rb_key_def dest: success_pair)
  have "v_RB V v = v_RB V w" using keeps_eq [OF rbac_api_reads(2) [OF kube_apiD(2) [OF api]] get] .
  moreover have "rb_Name ?o = ?n"
    using rbac_api_key [OF kube_apiD(2) [OF api], of w "fst (snd d)" ?n b] b by (simp add: rb_key_def)
  ultimately have stored: "v_RB V v (fst (snd d), rb_Name ?o) = Some b"
    using b by (metis fst_conv prod.collapse rb_key_def)
  have "rb_RoleRef ?o = rb_RoleRef b" and ok: "admits (fst (snd d)) ?o"
    using fits by (simp_all add: rb_fits_def)
  then have "\<exists>c. fst (rc_Update ?cl (fst (snd d)) ?o v) = Inr c"
    by (intro rbac_liveD(4) [OF live ok stored])
  then obtain c w' where "rc_Update ?cl (fst (snd d)) ?o v = (Inr c, w')" by (auto dest: success_pair)
  then show "\<exists>c w'. rb_modify svc u d w = (Inr c, w')"
    using get by (simp add: rb_modify_def UpdateRoleBinding_eq rb_key_def)
qed

section \<open>When a reconciliation is possible\<close>

text \<open>
  No two items name one ClusterRoleBinding, the server admits those that have to be created,
  and one that exists is the user's and has the role. The same for RoleBindings, where an
  existing one may also be one that an update brings in line.
\<close>

definition cluster_ready ::
  "(unit \<Rightarrow> rbac_binding \<Rightarrow> bool) \<Rightarrow> 'w KubeView \<Rightarrow> 'w serviceAccountsService \<Rightarrow> string \<Rightarrow>
     LdapGroupBinding list \<Rightarrow> 'w \<Rightarrow> bool" where
  "cluster_ready admits V svc u ls w \<longleftrightarrow>
     distinct (map (crb_key u) (cluster_requests (all_items ls))) \<and>
     (\<forall>d\<in>set (cluster_requests (all_items ls)). admits () (crb_object svc u d) \<and>
        (\<forall>b. v_CRB V w (crb_key u d) = Some b \<longrightarrow> managed_for svc u b \<and> crb_wanted d b))"

definition roles_ready ::
  "(string \<Rightarrow> rbac_binding \<Rightarrow> bool) \<Rightarrow> 'w KubeView \<Rightarrow> 'w serviceAccountsService \<Rightarrow> string \<Rightarrow>
     LdapGroupBinding list \<Rightarrow> 'w \<Rightarrow> bool" where
  "roles_ready admits V svc u ls w \<longleftrightarrow>
     namespaces_settled V svc u ls w \<and>
     distinct (map (rb_key u) (role_requests (all_items ls))) \<and>
     (\<forall>d\<in>set (role_requests (all_items ls)). admits (fst (snd d)) (rb_object svc u d) \<and>
        (\<forall>b. v_RB V w (rb_key u d) = Some b \<longrightarrow>
           managed_for svc u b \<and> (rb_differs svc u d b \<longrightarrow> rb_fits admits svc u d b)))"

lemma roles_ready_view: "v_RB V w1 = v_RB V w \<Longrightarrow> roles_ready ra V svc u ls w1 = roles_ready ra V svc u ls w"
  unfolding roles_ready_def namespaces_settled_def by presburger

lemma crbl_ready:
  assumes api: "kube_api (svc_clientset svc) V" and get: "GetClusterRoleBindings svc u w = (Inr cbs, w1)"
    and r: "cluster_ready admits V svc u ls w"
  shows "crbl.ready V u admits svc (from_pairs rb_Name cbs) w (cluster_requests (all_items ls))"
proof -
  have map: "map_of (from_pairs rb_Name cbs) (crb_name u d) = v_CRB V w (crb_key u d)"
    if d: "d \<in> set (cluster_requests (all_items ls))" for d
  proof (cases "v_CRB V w (crb_key u d)")
    case None
    then show ?thesis
      using listed_crb [OF api get, of "crb_key u d"]
      by (cases "map_of (from_pairs rb_Name cbs) (crb_name u d)") (auto simp: crb_key_def crb_name_def)
  next
    case (Some b)
    then have "managed_for svc u b" using r d by (auto simp: cluster_ready_def)
    then have b: "b \<in> set cbs" using GetClusterRoleBindings_spec(3) [OF api get] Some by blast
    moreover have "rb_Name b = crb_name u d"
      using rbac_api_key [OF kube_apiD(1) [OF api], of w "()" "crb_name u d" b] Some
      by (simp add: crb_key_def crb_name_def)
    ultimately show ?thesis
      using map_of_from_pairs_distinct [OF GetClusterRoleBindings_spec(2) [OF api get] b] Some by simp
  qed
  have "key = crb_key u d" if "crb_name u e = crb_name u d" "key = crb_key u e" for d e key
    using that by (simp add: crb_key_def crb_name_def)
  then show ?thesis
    using r map unfolding crbl.ready_def cluster_ready_def
    by (auto simp: crb_differs_def crb_wanted_def crb_key_def crb_name_def)
qed

lemma rbl_ready:
  assumes api: "kube_api (svc_clientset svc) V" and get: "GetRoleBindings svc u w = (Inr rbl, w1)"
    and r: "roles_ready admits V svc u ls w"
  shows "rbl.ready V u svc admits (from_pairs rb_Name rbl) w (role_requests (all_items ls))"
proof -
  let ?ds = "role_requests (all_items ls)"
  have settled: "namespaces_settled V svc u ls w" using r by (simp add: roles_ready_def)
  have map: "map_of (from_pairs rb_Name rbl) (rb_name u d) = v_RB V w (rb_key u d)"
    if d: "d \<in> set ?ds" for d
  proof (cases "v_RB V w (rb_key u d)")
    case None
    then show ?thesis
      using tracks_rbs [OF api get settled] d
      by (cases "map_of (from_pairs rb_Name rbl) (rb_name u d)") (auto simp: rbs.tracks_def)
  next
    case (Some b)
    then have "managed_for svc u b" using r d by (auto simp: roles_ready_def)
    then show ?thesis
      using settled_names [OF api get settled Some] Some by (simp add: rb_key_def rb_name_def)
  qed
  have only: "rb_key u e = rb_key u d"
    if "d \<in> set ?ds" "e \<in> set ?ds" "v_RB V w (rb_key u d) = Some b" "rb_name u e = rb_name u d" for d e b
  proof -
    have "managed_for svc u b" using r that by (auto simp: roles_ready_def)
    then have "fst (snd e) = fst (rb_key u d)"
      using settled that unfolding namespaces_settled_def by (metis rb_key_def rb_name_def snd_conv)
    then show ?thesis using that(4) by (simp add: rb_key_def rb_name_def)
  qed
  show ?thesis
    using r map only unfolding rbl.ready_def roles_ready_def by blast
qed

section \<open>The reconciliation ends\<close>

lemma ensureBinding_live:
  assumes api: "kube_api (svc_clientset (as_serviceAccountsSvc s)) V" and wired: "wired s"
    and live: "crb_live ca (svc_clientset (as_serviceAccountsSvc s)) V" "rb_live ra (svc_clientset (as_serviceAccountsSvc s)) V"
    and cready: "crbl.ready V u ca (as_serviceAccountsSvc s) cm0 w0 (cluster_requests (all_items ls))"
    and rready: "rbl.ready V u (as_serviceAccountsSvc s) ra rm0 w0 (role_requests (all_items ls))"
    and split: "all_items ls = ps @ (l, i) # rest"
    and ce: "crbs.ensured V u (as_serviceAccountsSvc s) cm0 w0 (cluster_requests ps) cm w"
    and re: "rbs.ensured V u (as_serviceAccountsSvc s) rm0 w0 (role_requests ps) rm w"
  shows "\<exists>st. ensureBinding s u l i (cm, rm, w) = (Inr (), st)"
proof -
  have "all_items ls = ps @ [(l, i)] @ rest" using split by simp
  then have creq: "cluster_requests (all_items ls) = cluster_requests ps @ cluster_requests [(l, i)] @ cluster_requests rest"
    and rreq: "role_requests (all_items ls) = role_requests ps @ role_requests [(l, i)] @ role_requests rest"
    by (simp_all only: cluster_requests_simps(2) role_requests_simps(2))
  consider (C) "item_Kind i = ''ClusterRole''" | (R) "item_Kind i = ''Role''" "item_Namespace i \<noteq> ''''"
    | (N) "item_Kind i \<noteq> ''ClusterRole''" "item_Kind i = ''Role'' \<Longrightarrow> item_Namespace i = ''''"
    by blast
  then show ?thesis
  proof cases
    case C
    then have "crbl.ready V u ca (as_serviceAccountsSvc s) cm0 w0
        (cluster_requests ps @ (lgb_Name l, item_Name i) # cluster_requests rest)"
      using cready creq by simp
    note step = crbl.ensure_step_live [OF api live(1) this ce]
    show ?thesis unfolding ensureBinding_ClusterRole [OF C]
      using step [of "Error500InternalServerError ''failed to create cluster role binding''"
          "Error500InternalServerError ''failed to update cluster role binding''"] by auto
  next
    case R
    then have "rbl.ready V u (as_serviceAccountsSvc s) ra rm0 w0
        (role_requests ps @ (lgb_Name l, item_Namespace i, item_roleRef i) # role_requests rest)"
      using rready rreq by simp
    note step = rbl.ensure_step_live [OF api live(2) this re]
    show ?thesis unfolding ensureBinding_Role [OF R wired]
      using step [of "Error500InternalServerError ''failed to create role binding''"
          "Error500InternalServerError ''failed to update role binding''"] by auto
  next
    case N
    then show ?thesis by (simp add: ensureBinding_other)
  qed
qed

lemma ensureBindings_live:
  assumes api: "kube_api (svc_clientset (as_serviceAccountsSvc s)) V" and wired: "wired s"
    and live: "crb_live ca (svc_clientset (as_serviceAccountsSvc s)) V" "rb_live ra (svc_clientset (as_serviceAccountsSvc s)) V"
    and cready: "crbl.ready V u ca (as_serviceAccountsSvc s) cm0 w0 (cluster_requests (all_items ls))"
    and rready: "rbl.ready V u (as_serviceAccountsSvc s) ra rm0 w0 (role_requests (all_items ls))"
    and ct: "crbs.tracks V u (as_serviceAccountsSvc s) cm0 w0 (set (cluster_requests (all_items ls)))"
    and rt: "rbs.tracks V u (as_serviceAccountsSvc s) rm0 w0 (set (role_requests (all_items ls)))"
    and dist: "distinct (map fst cm0)" "distinct (map fst rm0)"
  shows "\<exists>st. ensureBindings s u ls (cm0, rm0, w0) = (Inr (), st)"
proof -
  let ?svc = "as_serviceAccountsSvc s"
  let ?P = "\<lambda>rest (cm, rm, v). \<exists>done. all_items ls = done @ rest \<and>
      crbs.ensured V u ?svc cm0 w0 (cluster_requests done) cm v \<and>
      rbs.ensured V u ?svc rm0 w0 (role_requests done) rm v"
  have "\<exists>st. for_each (\<lambda>(l, i). ensureBinding s u l i) (all_items ls) (cm0, rm0, w0) = (Inr (), st) \<and> ?P [] st"
  proof (rule for_each_total [where P = ?P])
    show "?P (all_items ls) (cm0, rm0, w0)"
      by (simp add: crbs.ensured_Nil rbs.ensured_Nil dist)
  next
    fix p rest st
    assume P: "?P (p # rest) st"
    obtain l i where p: "p = (l, i)" by fastforce
    obtain cm rm v where st: "st = (cm, rm, v)" by (metis prod_cases3)
    obtain ps where ps: "all_items ls = ps @ (l, i) # rest"
      and ce: "crbs.ensured V u ?svc cm0 w0 (cluster_requests ps) cm v"
      and re: "rbs.ensured V u ?svc rm0 w0 (role_requests ps) rm v"
      using P st p by auto
    obtain cm' rm' v' where run: "ensureBinding s u l i (cm, rm, v) = (Inr (), cm', rm', v')"
      using ensureBinding_live [OF api wired live cready rready ps ce re] by auto
    have "crbs.ensured V u ?svc cm0 w0 (cluster_requests (ps @ [(l, i)])) cm' v'"
      using ensureBinding_ensured_crb [OF api wired ct ps ce run] .
    moreover have "rbs.ensured V u ?svc rm0 w0 (role_requests (ps @ [(l, i)])) rm' v'"
      using ensureBinding_ensured_rb [OF api wired rt ps re run] .
    ultimately have "?P rest (cm', rm', v')" using ps by (intro case_prodI exI [of _ "ps @ [(l, i)]"]) simp
    then show "\<exists>r st'. (case p of (l, i) \<Rightarrow> ensureBinding s u l i) st = (Inr r, st') \<and> ?P rest st'"
      using run p st by auto
  qed
  then show ?thesis by (auto simp: ensureBindings_flat)
qed

text \<open>The removal loops end: what is left in the maps exists.\<close>

lemma removeUnusedClusterRoleBindings_live:
  assumes api: "kube_api (svc_clientset (as_serviceAccountsSvc s)) V"
    and live: "crb_live ca (svc_clientset (as_serviceAccountsSvc s)) V"
    and ord: "visits_each (as_crbOrder s)"
    and get: "GetClusterRoleBindings (as_serviceAccountsSvc s) u w = (Inr cbs, w1)"
    and e: "crbs.ensured V u (as_serviceAccountsSvc s) (from_pairs rb_Name cbs) w0 ds cm w3"
    and same: "v_CRB V w0 = v_CRB V w"
  shows "\<exists>w'. removeUnusedClusterRoleBindings s u cm w3 = (Inr (), w')"
  unfolding removeUnusedClusterRoleBindings_eq
proof (rule crbl.remove_all_live [OF api live])
  have "distinct (map fst cm)" using e by (simp add: crbs.ensured_def)
  then have "distinct (map fst (range_entries (as_crbOrder s) cm))"
    by (rule distinct_range_entries [OF ord])
  then show "distinct (map (\<lambda>(n, b). ((), n)) (range_entries (as_crbOrder s) cm))"
    by (simp add: distinct_map inj_on_def case_prod_beta)
  show "v_CRB V w3 k \<noteq> None" if "k \<in> set (map (\<lambda>(n, b). ((), n)) (range_entries (as_crbOrder s) cm))" for k
    using that crbs.ensured_frame [OF e, of k] unfolding leftover_crbs [OF api ord get e same] by auto
qed

lemma removeUnusedRoleBindings_live:
  assumes api: "kube_api (svc_clientset (as_serviceAccountsSvc s)) V"
    and live: "rb_live ra (svc_clientset (as_serviceAccountsSvc s)) V"
    and ord: "visits_each (as_rbOrder s)"
    and get: "GetRoleBindings (as_serviceAccountsSvc s) u w = (Inr rbl, w2)"
    and settled: "namespaces_settled V (as_serviceAccountsSvc s) u ls w"
    and e: "rbs.ensured V u (as_serviceAccountsSvc s) (from_pairs rb_Name rbl) w (role_requests (all_items ls)) rm w3"
  shows "\<exists>w'. removeUnusedRoleBindings s u rm w3 = (Inr (), w')"
  unfolding removeUnusedRoleBindings_eq
proof (rule rbl.remove_all_live [OF api live])
  have "distinct (map fst rm)" using e by (simp add: rbs.ensured_def)
  then have "distinct (map fst (range_entries (as_rbOrder s) rm))"
    by (rule distinct_range_entries [OF ord])
  then have "distinct (map snd (map (\<lambda>(n, b). (rb_Namespace b, n)) (range_entries (as_rbOrder s) rm)))"
    by (simp add: comp_def case_prod_unfold)
  then show "distinct (map (\<lambda>(n, b). (rb_Namespace b, n)) (range_entries (as_rbOrder s) rm))"
    using distinct_map by blast
  show "v_RB V w3 k \<noteq> None" if "k \<in> set (map (\<lambda>(n, b). (rb_Namespace b, n)) (range_entries (as_rbOrder s) rm))" for k
    using that rbs.ensured_frame [OF e, of k] unfolding leftover_rbs [OF api ord get settled e] by auto
qed

lemma GetBindings_live:
  shows "crb_live ca (svc_clientset svc) V \<Longrightarrow> \<exists>bs w'. GetClusterRoleBindings svc u w = (Inr bs, w')"
    and "rb_live ra (svc_clientset svc) V \<Longrightarrow> \<exists>bs w'. GetRoleBindings svc u w = (Inr bs, w')"
proof -
  assume live: "crb_live ca (svc_clientset svc) V"
  obtain items where "fst (rc_List (cs_ClusterRoleBindings (svc_clientset svc)) () (saManagedLabel @ ''=true'') w) = Inr items"
    using rbac_liveD(1) [OF live] by blast
  then show "\<exists>bs w'. GetClusterRoleBindings svc u w = (Inr bs, w')"
    by (auto simp: GetClusterRoleBindings_def dest!: success_pair)
next
  assume live: "rb_live ra (svc_clientset svc) V"
  obtain items where "fst (rc_List (cs_RoleBindings (svc_clientset svc)) '''' (saManagedLabel @ ''=true'') w) = Inr items"
    using rbac_liveD(1) [OF live] by blast
  then show "\<exists>bs w'. GetRoleBindings svc u w = (Inr bs, w')"
    by (auto simp: GetRoleBindings_def dest!: success_pair)
qed

lemma reconcile_live:
  assumes api: "kube_api (svc_clientset (as_serviceAccountsSvc s)) V" and wired: "wired s"
    and live: "crb_live ca (svc_clientset (as_serviceAccountsSvc s)) V" "rb_live ra (svc_clientset (as_serviceAccountsSvc s)) V"
    and ord: "visits_each (as_crbOrder s)" "visits_each (as_rbOrder s)"
    and cready: "cluster_ready ca V (as_serviceAccountsSvc s) u ls w"
    and rready: "roles_ready ra V (as_serviceAccountsSvc s) u ls w"
  shows "\<exists>w'. reconcileClusterAndRoleBindings s u ls w = (Inr (), w')"
proof -
  let ?svc = "as_serviceAccountsSvc s"
  obtain cbs w1 where get1: "GetClusterRoleBindings ?svc u w = (Inr cbs, w1)"
    using GetBindings_live(1) [OF live(1)] by blast
  obtain rbl w2 where get2: "GetRoleBindings ?svc u w1 = (Inr rbl, w2)"
    using GetBindings_live(2) [OF live(2)] by blast
  have c1: "v_CRB V w1 = v_CRB V w" using GetClusterRoleBindings_spec(1) [OF api get1] .
  have c2: "v_CRB V w2 = v_CRB V w" using keeps_eq [OF rb_calls_keep_crb(4) [OF api] get2] c1 by simp
  have r1: "v_RB V w1 = v_RB V w" using keeps_eq [OF crb_calls_keep_rb(4) [OF api] get1] .
  have r2: "v_RB V w2 = v_RB V w1" using GetRoleBindings_spec(1) [OF api get2] .
  have rready1: "roles_ready ra V ?svc u ls w1"
    using rready roles_ready_view [OF r1] by blast
  then have settled: "namespaces_settled V ?svc u ls w1" by (simp add: roles_ready_def)
  have cr: "crbl.ready V u ca ?svc (from_pairs rb_Name cbs) w2 (cluster_requests (all_items ls))"
    using crbl_ready [OF api get1 cready] crbl.ready_start [OF c2] by blast
  have rr: "rbl.ready V u ?svc ra (from_pairs rb_Name rbl) w2 (role_requests (all_items ls))"
    using rbl_ready [OF api get2 rready1] rbl.ready_start [OF r2] by blast
  have ct: "crbs.tracks V u ?svc (from_pairs rb_Name cbs) w2 (set (cluster_requests (all_items ls)))"
    using tracks_crbs [OF api get1] crbs.tracks_start [OF c2] by blast
  have rt: "rbs.tracks V u ?svc (from_pairs rb_Name rbl) w2 (set (role_requests (all_items ls)))"
    using tracks_rbs [OF api get2 settled] rbs.tracks_start [OF r2] by blast
  obtain cm rm w3 where ens:
    "ensureBindings s u ls (from_pairs rb_Name cbs, from_pairs rb_Name rbl, w2) = (Inr (), cm, rm, w3)"
    using ensureBindings_live [OF api wired live cr rr ct rt from_pairs_distinct from_pairs_distinct]
    by (metis prod_cases3)
  note ec = ensureBindings_crbs [OF api wired from_pairs_distinct ct ens]
    and er = ensureBindings_rbs [OF api wired from_pairs_distinct rt ens]
  obtain w4 where rmc: "removeUnusedClusterRoleBindings s u cm w3 = (Inr (), w4)"
    using removeUnusedClusterRoleBindings_live [OF api live(1) ord(1) get1 ec c2] by blast
  have w4: "v_RB V w4 = v_RB V w3" using keeps_eq [OF remove_crb_keeps_rb [OF api] rmc] .
  have "rbs.ensured V u ?svc (from_pairs rb_Name rbl) w1 (role_requests (all_items ls)) rm w4"
    using er rbs.ensured_view [OF w4] rbs.ensured_start [OF r2] by blast
  then obtain w5 where "removeUnusedRoleBindings s u rm w4 = (Inr (), w5)"
    using removeUnusedRoleBindings_live [OF api live(2) ord(2) get2 settled] by blast
  then show ?thesis
    using get1 get2 ens rmc
    by (simp add: reconcileClusterAndRoleBindings_def getExistingClusterRoleBindings_def
        getExistingRoleBindings_def)
qed

end
