(* ===== verification/Stability.thy ===== *)
theory Stability
  imports Liveness
begin

text \<open>
  What a reconciliation does not disturb: a cluster that is in line already, a grant that is
  due, and the bindings of other users.
\<close>

section \<open>A cluster in line\<close>

definition in_line ::
  "'w KubeView \<Rightarrow> 'w serviceAccountsService \<Rightarrow> string \<Rightarrow> LdapGroupBinding list \<Rightarrow> 'w \<Rightarrow> bool" where
  "in_line V svc u ls w \<longleftrightarrow>
     distinct (map (crb_name u) (cluster_requests (all_items ls))) \<and>
     distinct (map (rb_name u) (role_requests (all_items ls))) \<and>
     (\<forall>d\<in>set (cluster_requests (all_items ls)).
        \<exists>b. v_CRB V w (crb_key u d) = Some b \<and> managed_for svc u b \<and> \<not> crb_differs d b) \<and>
     (\<forall>d\<in>set (role_requests (all_items ls)).
        \<exists>b. v_RB V w (rb_key u d) = Some b \<and> managed_for svc u b \<and> \<not> rb_differs svc u d b) \<and>
     (\<forall>k b. v_CRB V w k = Some b \<longrightarrow> managed_for svc u b \<longrightarrow>
        k \<in> crb_key u ` set (cluster_requests (all_items ls))) \<and>
     (\<forall>k b. v_RB V w k = Some b \<longrightarrow> managed_for svc u b \<longrightarrow>
        k \<in> rb_key u ` set (role_requests (all_items ls)))"

lemma in_lineD:
  assumes "in_line V svc u ls w"
  shows "d \<in> set (cluster_requests (all_items ls)) \<Longrightarrow>
      \<exists>b. v_CRB V w (crb_key u d) = Some b \<and> managed_for svc u b \<and> \<not> crb_differs d b"
    and "e \<in> set (role_requests (all_items ls)) \<Longrightarrow>
      \<exists>b. v_RB V w (rb_key u e) = Some b \<and> managed_for svc u b \<and> \<not> rb_differs svc u e b"
    and "v_CRB V w k = Some b \<Longrightarrow> managed_for svc u b \<Longrightarrow> k \<in> crb_key u ` set (cluster_requests (all_items ls))"
    and "v_RB V w l = Some b \<Longrightarrow> managed_for svc u b \<Longrightarrow> l \<in> rb_key u ` set (role_requests (all_items ls))"
  using assms unfolding in_line_def by blast+

text \<open>A successful reconciliation leaves the cluster in line.\<close>

lemma reconciled_in_line:
  assumes c: "crbs.reconciled V u svc w0 (cluster_requests (all_items ls)) w"
    and r: "rbs.reconciled V u svc w0 (role_requests (all_items ls)) w"
    and names: "distinct (map (rb_name u) (role_requests (all_items ls)))"
    and groups: "\<forall>l\<in>set ls. \<forall>i\<in>set (lgb_items l). item_Kind i = ''Role'' \<longrightarrow> item_ApiGroup i \<noteq> ''''"
  shows "in_line V svc u ls w"
proof -
  have "distinct (map snd (map (crb_key u) (cluster_requests (all_items ls))))"
  proof -
    have "inj_on snd (set (map (crb_key u) (cluster_requests (all_items ls))))"
      by (auto simp: inj_on_def crb_key_def)
    moreover have "distinct (map (crb_key u) (cluster_requests (all_items ls)))"
      using c by (simp add: crbs.reconciled_def)
    ultimately show ?thesis using distinct_map by blast
  qed
  then have "distinct (map (crb_name u) (cluster_requests (all_items ls)))"
    by (simp add: comp_def crb_key_def crb_name_def [abs_def])
  moreover have "\<exists>b. v_CRB V w (crb_key u d) = Some b \<and> managed_for svc u b \<and> \<not> crb_differs d b"
    if "d \<in> set (cluster_requests (all_items ls))" for d
    using c that by (auto simp: crbs.reconciled_def crb_differs_def crb_wanted_def)
  moreover have "\<exists>b. v_RB V w (rb_key u d) = Some b \<and> managed_for svc u b \<and> \<not> rb_differs svc u d b"
    if d: "d \<in> set (role_requests (all_items ls))" for d
  proof -
    obtain b where b: "v_RB V w (rb_key u d) = Some b" "managed_for svc u b" "rb_wanted svc u d b"
      using r d by (auto simp: rbs.reconciled_def)
    moreover have "rr_APIGroup (snd (snd d)) \<noteq> ''''"
      using d groups by (auto simp: set_role_requests item_roleRef_def)
    ultimately have "\<not> rb_differs svc u d b"
      by (simp add: rb_differs_def rb_wanted_def subjectDiffer_sole)
    then show ?thesis using b by blast
  qed
  moreover have "k \<in> crb_key u ` set (cluster_requests (all_items ls))"
    if "v_CRB V w k = Some b" "managed_for svc u b" for k b
    using crbs.reconciled_keys [OF c that] .
  moreover have "k \<in> rb_key u ` set (role_requests (all_items ls))"
    if "v_RB V w k = Some b" "managed_for svc u b" for k b
    using rbs.reconciled_keys [OF r that] .
  ultimately show ?thesis using names unfolding in_line_def by blast
qed

text \<open>In a cluster in line the maps hold what the items ask for.\<close>

lemma in_line_synced_crb:
  assumes api: "kube_api (svc_clientset svc) V" and get: "GetClusterRoleBindings svc u w = (Inr cbs, w1)"
    and line: "in_line V svc u ls w"
  shows "crbs.synced u (from_pairs rb_Name cbs) (cluster_requests (all_items ls))"
proof -
  let ?ds = "cluster_requests (all_items ls)"
  have "\<exists>b. map_of (from_pairs rb_Name cbs) (crb_name u d) = Some b \<and> \<not> crb_differs d b" if d: "d \<in> set ?ds" for d
  proof -
    obtain b where b: "v_CRB V w (crb_key u d) = Some b" "managed_for svc u b" "\<not> crb_differs d b"
      using in_lineD(1) [OF line d] by blast
    have "b \<in> set cbs" using GetClusterRoleBindings_spec(3) [OF api get] b by blast
    moreover have "rb_Name b = crb_name u d"
      using rbac_api_key [OF kube_apiD(1) [OF api], of w "()" "crb_name u d" b] b(1)
      by (simp add: crb_key_def crb_name_def)
    ultimately show ?thesis
      using map_of_from_pairs_distinct [OF GetClusterRoleBindings_spec(2) [OF api get], of b] b(3) by auto
  qed
  moreover have "n \<in> crb_name u ` set ?ds" if n: "map_of (from_pairs rb_Name cbs) n \<noteq> None" for n
  proof -
    obtain b where "map_of (from_pairs rb_Name cbs) (snd ((), n)) = Some b" using n by auto
    from listed_crb [OF api get this] have "((), n) \<in> crb_key u ` set ?ds"
      using in_lineD(3) [OF line] by blast
    then show ?thesis by (auto simp: crb_key_def crb_name_def)
  qed
  ultimately show ?thesis using line by (simp add: crbs.synced_def in_line_def)
qed

lemma in_line_synced_rb:
  fixes V :: "'w KubeView"
  assumes api: "kube_api (svc_clientset svc) V" and get: "GetRoleBindings svc u w = (Inr rbl, w1)"
    and line: "in_line V svc u ls w"
  shows "rbs.synced TYPE('w) u svc (from_pairs rb_Name rbl) (role_requests (all_items ls))"
proof -
  let ?ds = "role_requests (all_items ls)"
  have inj: "d = e" if "d \<in> set ?ds" "e \<in> set ?ds" "rb_name u d = rb_name u e" for d e
    using line that by (auto simp: in_line_def distinct_map inj_on_def)
  have keys: "k \<in> rb_key u ` set ?ds" if "v_RB V w k = Some b" "managed_for svc u b" for k b
    using in_lineD(4) [OF line that] .
  have names: "snd (rb_key u d) = rb_name u d" for d by (simp add: rb_key_def rb_name_def)
  have listed: "\<exists>k. v_RB V w k = Some b \<and> managed_for svc u b \<and> snd k = n"
    if "map_of (from_pairs rb_Name rbl) n = Some b" for n b
    using listed_rb [OF api get, of "(rb_Namespace b, n)" b] that by force
  have "\<exists>b. map_of (from_pairs rb_Name rbl) (rb_name u d) = Some b \<and> \<not> rb_differs svc u d b" if d: "d \<in> set ?ds" for d
  proof -
    obtain b where b: "v_RB V w (rb_key u d) = Some b" "managed_for svc u b" "\<not> rb_differs svc u d b"
      using in_lineD(2) [OF line d] by blast
    have "b \<in> set rbl" using GetRoleBindings_spec(3) [OF api get] b by blast
    moreover have "rb_Name b = rb_name u d"
      using rbac_api_key [OF kube_apiD(2) [OF api], of w "fst (snd d)" "rb_name u d" b] b(1)
      by (simp add: rb_key_def rb_name_def)
    ultimately obtain c where c: "map_of (from_pairs rb_Name rbl) (rb_name u d) = Some c"
      using map_of_from_pairs_None [of rb_Name rbl "rb_name u d"] by fastforce
    then obtain k where k: "v_RB V w k = Some c" "managed_for svc u c" "snd k = rb_name u d"
      using listed by blast
    then obtain e where "e \<in> set ?ds" "k = rb_key u e" using keys by blast
    then have "k = rb_key u d" using inj [OF d] k(3) names by metis
    then show ?thesis using c k b by simp
  qed
  moreover have "n \<in> rb_name u ` set ?ds" if "map_of (from_pairs rb_Name rbl) n \<noteq> None" for n
    using that listed keys names by (metis (no_types, lifting) image_iff option.exhaust)
  ultimately show ?thesis using line by (simp add: rbs.synced_def in_line_def)
qed

text \<open>The loop of step 2 then strikes all names and calls nothing.\<close>

lemma ensureBindings_in_line:
  assumes wired: "wired s"
    and c: "crbs.synced u cm0 (cluster_requests (all_items ls))"
    and r: "rbs.synced TYPE('w) u (as_serviceAccountsSvc s) rm0 (role_requests (all_items ls))"
  shows "ensureBindings s u ls (cm0, rm0, w :: 'w) = (Inr (), [], [], w)"
proof -
  let ?svc = "as_serviceAccountsSvc s"
  let ?P = "\<lambda>rest (cm, rm, v). v = w \<and> crbs.synced u cm (cluster_requests rest) \<and>
      rbs.synced TYPE('w) u ?svc rm (role_requests rest)"
  have "\<exists>st. for_each (\<lambda>(l, i). ensureBinding s u l i) (all_items ls) (cm0, rm0, w) = (Inr (), st) \<and> ?P [] st"
  proof (rule for_each_total [where P = ?P])
    show "?P (all_items ls) (cm0, rm0, w)" using c r by simp
  next
    fix p rest st
    assume P: "?P (p # rest) st"
    obtain l i where p: "p = (l, i)" by fastforce
    obtain cm rm where st: "st = (cm, rm, w)" using P by (auto split: prod.splits)
    have creq: "cluster_requests (p # rest) = cluster_requests [(l, i)] @ cluster_requests rest"
      and rreq: "role_requests (p # rest) = role_requests [(l, i)] @ role_requests rest"
      using cluster_requests_simps(2) [of "[p]" rest] role_requests_simps(2) [of "[p]" rest] p by simp_all
    consider (C) "item_Kind i = ''ClusterRole''" | (R) "item_Kind i = ''Role''" "item_Namespace i \<noteq> ''''"
      | (N) "item_Kind i \<noteq> ''ClusterRole''" "item_Kind i = ''Role'' \<Longrightarrow> item_Namespace i = ''''"
      by blast
    then show "\<exists>r st'. (case p of (l, i) \<Rightarrow> ensureBinding s u l i) st = (Inr r, st') \<and> ?P rest st'"
    proof cases
      case C
      then have s: "crbs.synced u cm ((lgb_Name l, item_Name i) # cluster_requests rest)"
        and "rbs.synced TYPE('w) u ?svc rm (role_requests rest)"
        using P st creq rreq by simp_all
      then show ?thesis
        using p st by (simp add: ensureBinding_ClusterRole [OF C] crbs.synced_step [OF s])
    next
      case R
      then have s: "rbs.synced TYPE('w) u ?svc rm ((lgb_Name l, item_Namespace i, item_roleRef i) # role_requests rest)"
        and "crbs.synced u cm (cluster_requests rest)"
        using P st creq rreq by simp_all
      then show ?thesis
        using p st by (simp add: ensureBinding_Role [OF R wired] rbs.synced_step [OF s])
    next
      case N
      then have "\<not> (item_Kind i = ''Role'' \<and> item_Namespace i \<noteq> '''')" by blast
      then have "role_requests (p # rest) = role_requests rest" using rreq by simp
      then show ?thesis using N P st p creq by (simp add: ensureBinding_other)
    qed
  qed
  then show ?thesis
    by (auto simp: ensureBindings_flat dest: crbs.synced_Nil rbs.synced_Nil)
qed

lemma reconcile_in_line:
  assumes api: "kube_api (svc_clientset (as_serviceAccountsSvc s)) V" and wired: "wired s"
    and line: "in_line V (as_serviceAccountsSvc s) u ls w"
    and get1: "GetClusterRoleBindings (as_serviceAccountsSvc s) u w = (Inr cbs, w1)"
    and get2: "GetRoleBindings (as_serviceAccountsSvc s) u w1 = (Inr rbl, w2)"
  shows "reconcileClusterAndRoleBindings s u ls w = (Inr (), w2)"
proof -
  let ?svc = "as_serviceAccountsSvc s"
  have w1: "v_CRB V w1 = v_CRB V w" "v_RB V w1 = v_RB V w"
    using GetClusterRoleBindings_spec(1) [OF api get1] keeps_eq [OF crb_calls_keep_rb(4) [OF api] get1]
    by simp_all
  have "in_line V ?svc u ls w1" using line unfolding in_line_def w1 .
  then have "ensureBindings s u ls (from_pairs rb_Name cbs, from_pairs rb_Name rbl, w2) = (Inr (), [], [], w2)"
    by (intro ensureBindings_in_line [OF wired] in_line_synced_crb [OF api get1 line]
        in_line_synced_rb [OF api get2])
  then show ?thesis
    using get1 get2
    by (simp add: reconcileClusterAndRoleBindings_def getExistingClusterRoleBindings_def
        getExistingRoleBindings_def removeUnusedClusterRoleBindings_def removeUnusedRoleBindings_def
        range_entries_def map_filter_def)
qed

section \<open>A ClusterRoleBinding that exists\<close>

text \<open>
  An existing ClusterRoleBinding under a name that an item asks for: a role reference cannot be
  changed by an update, and the name is taken for a create.
\<close>

lemma UpdateClusterRoleBinding_fails:
  assumes api: "kube_api (svc_clientset svc) V"
    and b: "v_CRB V w ((), GenBindingName u r l) = Some b" and differs: "rr_Name (rb_RoleRef b) \<noteq> r"
  shows "\<exists>e. fst (UpdateClusterRoleBinding svc u r l w) = Inl e"
proof (rule ccontr)
  assume "\<not> ?thesis"
  then obtain c w' where "UpdateClusterRoleBinding svc u r l w = (Inr c, w')"
    by (cases "UpdateClusterRoleBinding svc u r l w"; cases "fst (UpdateClusterRoleBinding svc u r l w)") auto
  from get_update_ok [OF kube_apiD(1) [OF api] this [unfolded UpdateClusterRoleBinding_eq]]
  have "rb_RoleRef c = rb_RoleRef b"
    "stored_as (b\<lparr>rb_RoleRef := (rb_RoleRef b)\<lparr>rr_Name := r\<rparr>, rb_Subjects := rb_Subjects b\<rparr>) c"
    using b by auto
  then show False using differs by (simp add: stored_as_def)
qed

lemma crb_writes_refused:
  assumes api: "kube_api (svc_clientset svc) V"
    and refuses: "rbac_refuses (cs_ClusterRoleBindings (svc_clientset svc)) (v_CRB V)"
    and b: "v_CRB V w (crb_key u d) = Some b"
  shows "crb_create svc u d w = (r, w') \<Longrightarrow> (\<exists>e. r = Inl e) \<and> v_CRB V w' (crb_key u d) = Some b"
    and "crb_modify svc u d w = (r, w') \<Longrightarrow> rr_Name (rb_RoleRef b) \<noteq> snd d \<Longrightarrow>
      (\<exists>e. r = Inl e) \<and> v_CRB V w' (crb_key u d) = Some b"
proof -
  note rbac = kube_apiD(1) [OF api]
  assume run: "crb_create svc u d w = (r, w')"
  let ?o = "crb_object svc u d"
  have o: "((), rb_Name ?o) = crb_key u d" by (simp add: crb_object_def crb_key_def)
  have call: "rc_Create (cs_ClusterRoleBindings (svc_clientset svc)) () ?o w = (r, w')"
    using run by (simp add: crb_request_defs single_call_eqs crb_object_def)
  have "r \<noteq> Inr c" for c using rbac_api_create(1) [OF rbac, of "()" ?o w c w'] call b o by auto
  moreover have "v_CRB V w' (crb_key u d) = Some b"
    using rbac_refusesD(1) [OF refuses, of w "()" ?o b] b call o by simp
  ultimately show "(\<exists>e. r = Inl e) \<and> v_CRB V w' (crb_key u d) = Some b" by (cases r) auto
next
  note rbac = kube_apiD(1) [OF api]
  assume run: "crb_modify svc u d w = (r, w')" and differs: "rr_Name (rb_RoleRef b) \<noteq> snd d"
  have failed: "\<exists>e. r = Inl e"
    using UpdateClusterRoleBinding_fails [OF api, of w u "snd d" "fst d" b] b differs run
    by (simp add: crb_modify_def crb_key_def)
  obtain g v where g: "rc_Get (cs_ClusterRoleBindings (svc_clientset svc)) () (snd (crb_key u d)) w = (g, v)" by fastforce
  have v: "v_CRB V v = v_CRB V w" using keeps_eq [OF rbac_api_reads(2) [OF rbac] g] .
  have "v_CRB V w' (crb_key u d) = Some b"
  proof (cases g)
    case (Inl e)
    then show ?thesis using run g v b by (simp add: crb_modify_def UpdateClusterRoleBinding_eq crb_key_def)
  next
    case (Inr c)
    then have c: "c = b" using rbac_api_get [OF rbac] g b by (simp add: crb_key_def)
    let ?o = "b\<lparr>rb_RoleRef := (rb_RoleRef b)\<lparr>rr_Name := snd d\<rparr>, rb_Subjects := rb_Subjects b\<rparr>"
    have o: "((), rb_Name ?o) = crb_key u d"
      using rbac_api_key [OF rbac, of w "()" _ b] b by (simp add: crb_key_def)
    have "w' = snd (rc_Update (cs_ClusterRoleBindings (svc_clientset svc)) () ?o v)"
      using run g Inr c by (auto simp: crb_modify_def UpdateClusterRoleBinding_eq crb_key_def split: prod.splits sum.splits)
    then show ?thesis using rbac_refusesD(2) [OF refuses, of v "()" ?o b] b v o differs by simp
  qed
  with failed show "(\<exists>e. r = Inl e) \<and> v_CRB V w' (crb_key u d) = Some b" ..
qed

text \<open>
  One step of the loop, for an item that asks for the binding \<open>b\<close> at \<open>d\<close>: it is left as it is, and
  the step succeeds only when the map lists \<open>b\<close> and \<open>b\<close> gives the role; then the name is
  struck.
\<close>

lemma crb_step_present:
  assumes api: "kube_api (svc_clientset (as_serviceAccountsSvc s)) V"
    and refuses: "rbac_refuses (cs_ClusterRoleBindings (svc_clientset (as_serviceAccountsSvc s))) (v_CRB V)"
    and kind: "item_Kind i = ''ClusterRole''" and d: "d = (lgb_Name l, item_Name i)"
    and run: "ensureBinding s u l i (cm, rm, v) = (r, cm', rm', v')"
    and b: "v_CRB V v (crb_key u d) = Some b" and listed: "map_of cm (crb_name u d) \<in> {None, Some b}"
  shows "v_CRB V v' (crb_key u d) = Some b"
    and "r = Inr () \<Longrightarrow> rr_Name (rb_RoleRef b) = snd d \<and> map_of cm' (crb_name u d) = None"
proof -
  let ?svc = "as_serviceAccountsSvc s"
  have step: "ensure_step (crb_create ?svc u) (crb_modify ?svc u) (crb_name u) crb_differs
      (Error500InternalServerError ''failed to create cluster role binding'')
      (Error500InternalServerError ''failed to update cluster role binding'') d cm v = (r, cm', v')"
    using run unfolding ensureBinding_ClusterRole [OF kind] d by (auto split: prod.splits)
  have "v_CRB V v' (crb_key u d) = Some b \<and>
      (r = Inr () \<longrightarrow> rr_Name (rb_RoleRef b) = snd d \<and> map_of cm' (crb_name u d) = None)"
  proof (cases "map_of cm (crb_name u d)")
    case None
    obtain q v1 where c: "crb_create ?svc u d v = (q, v1)" by fastforce
    show ?thesis using crb_writes_refused(1) [OF api refuses b c] None step c by (auto simp: ensure_step_def)
  next
    case (Some c)
    then have c: "c = b" using listed by simp
    obtain q v1 where m: "crb_modify ?svc u d v = (q, v1)" by fastforce
    show ?thesis
      using crb_writes_refused(2) [OF api refuses b m] Some c step m b
      by (cases "crb_differs d b") (auto simp: ensure_step_def crb_differs_def delete_conv')
  qed
  then show "v_CRB V v' (crb_key u d) = Some b"
    and "r = Inr () \<Longrightarrow> rr_Name (rb_RoleRef b) = snd d \<and> map_of cm' (crb_name u d) = None" by simp_all
qed

text \<open>A successful step strikes the name of its binding from the map.\<close>

lemma crb_step_map:
  assumes kind: "item_Kind i = ''ClusterRole''"
    and run: "ensureBinding s u l i (cm, rm, v) = (Inr r, cm', rm', v')"
  shows "cm' = AList.delete (crb_name u (lgb_Name l, item_Name i)) cm"
  using run unfolding ensureBinding_ClusterRole [OF kind] ensure_step_def
  by (auto split: option.splits prod.splits sum.splits if_splits)

lemma ensureBindings_present:
  assumes api: "kube_api (svc_clientset (as_serviceAccountsSvc s)) V"
    and refuses: "rbac_refuses (cs_ClusterRoleBindings (svc_clientset (as_serviceAccountsSvc s))) (v_CRB V)"
    and wired: "wired s" and d: "d \<in> set (cluster_requests (all_items ls))"
    and b: "v_CRB V w (crb_key u d) = Some b" "map_of cm0 (crb_name u d) \<in> {None, Some b}"
    and run: "ensureBindings s u ls (cm0, rm0, w) = (r, cm, rm, w')"
  shows "v_CRB V w' (crb_key u d) = Some b \<and>
    (r = Inr () \<longrightarrow> rr_Name (rb_RoleRef b) = snd d \<and> map_of cm (crb_name u d) = None)"
proof -
  let ?done = "\<lambda>m. rr_Name (rb_RoleRef b) = snd d \<and> map_of m (crb_name u d) = None"
  let ?P = "\<lambda>rest st. v_CRB V (snd (snd st)) (crb_key u d) = Some b \<and>
      map_of (fst st) (crb_name u d) \<in> {None, Some b} \<and>
      (d \<in> set (cluster_requests rest) \<or> ?done (fst st))"
  let ?Q = "\<lambda>r st. v_CRB V (snd (snd st)) (crb_key u d) = Some b \<and> (r = Inr () \<longrightarrow> ?done (fst st))"
  have "case for_each (\<lambda>(l, i). ensureBinding s u l i) (all_items ls) (cm0, rm0, w) of (r, st) \<Rightarrow> ?Q r st"
  proof (rule for_each_outcome [where P = ?P])
    show "?P (all_items ls) (cm0, rm0, w)" using d b by simp
  next
    fix p rest and st :: "crbMap \<times> rbMap \<times> _"
    assume P: "?P (p # rest) st"
    obtain l i where p: "p = (l, i)" by fastforce
    obtain cm rm v where st: "st = (cm, rm, v)" by (metis prod_cases3)
    obtain r cm' rm' v' where run: "ensureBinding s u l i (cm, rm, v) = (r, cm', rm', v')"
      by (metis prod_cases4)
    let ?x = "(lgb_Name l, item_Name i)"
    have creq: "cluster_requests (p # rest) = cluster_requests [(l, i)] @ cluster_requests rest"
      using cluster_requests_simps(2) [of "[p]" rest] p by simp
    have goal: "v_CRB V v' (crb_key u d) = Some b \<and> (r = Inr () \<longrightarrow> ?P rest (cm', rm', v'))"
    proof (cases "item_Kind i = ''ClusterRole''")
      case False
      then have "cluster_requests (p # rest) = cluster_requests rest" using creq by simp
      then show ?thesis using P st ensureBinding_crb_view [OF api wired False run] by auto
    next
      case kind: True
      have req: "cluster_requests (p # rest) = ?x # cluster_requests rest" using creq kind by simp
      show ?thesis
      proof (cases "crb_key u ?x = crb_key u d")
        case True
        then have name: "crb_name u ?x = crb_name u d" by (simp add: crb_key_def crb_name_def)
        have present: "v_CRB V v (crb_key u ?x) = Some b" "map_of cm (crb_name u ?x) \<in> {None, Some b}"
          using P st True name by simp_all
        note step = crb_step_present [OF api refuses kind refl run present]
        have "d \<in> set (cluster_requests rest) \<or> d = ?x \<or> ?done cm" using P st req by auto
        then have "?P rest (cm', rm', v')" if "r = Inr ()"
          using step(1) step(2) [OF that] True name crb_step_frame(2) [OF api kind run]
          by (auto simp: map_le_def)
        then show ?thesis using step(1) True by simp
      next
        case False
        have names: "crb_name u d \<noteq> crb_name u ?x" using False by (simp add: crb_key_def crb_name_def)
        then have "map_of cm' (crb_name u d) = map_of cm (crb_name u d)" if "r = Inr ()"
          using crb_step_map [OF kind run [unfolded that]] by (simp add: delete_conv')
        moreover have "d \<noteq> ?x" using False by blast
        ultimately show ?thesis
          using P st req crb_step_frame(1) [OF api kind run False [THEN not_sym]] by auto
      qed
    qed
    then show "case (case p of (l, i) \<Rightarrow> ensureBinding s u l i) st of (Inl e, st') \<Rightarrow> ?Q (Inl e) st' | (Inr _, st') \<Rightarrow> ?P rest st'"
      using run p st by (cases r) auto
  qed auto
  then show ?thesis using run by (simp add: ensureBindings_flat)
qed

text \<open>So no outcome of a reconciliation changes it, and success means that it gives the role.\<close>

lemma reconcile_present:
  assumes api: "kube_api (svc_clientset (as_serviceAccountsSvc s)) V"
    and refuses: "rbac_refuses (cs_ClusterRoleBindings (svc_clientset (as_serviceAccountsSvc s))) (v_CRB V)"
    and wired: "wired s" and d: "d \<in> set (cluster_requests (all_items ls))"
    and b: "v_CRB V w (crb_key u d) = Some b"
  shows "v_CRB V (snd (reconcileClusterAndRoleBindings s u ls w)) (crb_key u d) = Some b"
    and "fst (reconcileClusterAndRoleBindings s u ls w) = Inr () \<Longrightarrow> rr_Name (rb_RoleRef b) = snd d"
proof -
  let ?svc = "as_serviceAccountsSvc s"
  obtain g1 w1 where get1: "GetClusterRoleBindings ?svc u w = (g1, w1)" by fastforce
  obtain g2 w2 where get2: "GetRoleBindings ?svc u w1 = (g2, w2)" by fastforce
  have w1: "v_CRB V w1 = v_CRB V w"
    using keeps_eq [OF GetClusterRoleBindings_keeps(1) [OF api] get1] .
  have w2: "v_CRB V w2 = v_CRB V w"
    using keeps_eq [OF rb_calls_keep_crb(4) [OF api] get2] w1 by simp
  have "v_CRB V (snd (reconcileClusterAndRoleBindings s u ls w)) (crb_key u d) = Some b \<and>
      (fst (reconcileClusterAndRoleBindings s u ls w) = Inr () \<longrightarrow> rr_Name (rb_RoleRef b) = snd d)"
  proof (cases "\<exists>cbs rbl. g1 = Inr cbs \<and> g2 = Inr rbl")
    case False
    then show ?thesis
      using get1 get2 w1 w2 b
      by (auto simp: reconcileClusterAndRoleBindings_def getExistingClusterRoleBindings_def
          getExistingRoleBindings_def split: sum.splits)
  next
    case True
    then obtain cbs rbl where g: "g1 = Inr cbs" "g2 = Inr rbl" by blast
    have "map_of (from_pairs rb_Name cbs) (crb_name u d) \<in> {None, Some b}"
      using listed_crb [OF api get1 [unfolded g], of "crb_key u d"] b
      by (cases "map_of (from_pairs rb_Name cbs) (crb_name u d)") (auto simp: crb_key_def crb_name_def)
    moreover obtain r cm rm w3 where
      ens: "ensureBindings s u ls (from_pairs rb_Name cbs, from_pairs rb_Name rbl, w2) = (r, cm, rm, w3)"
      by (metis prod_cases4)
    ultimately have kept: "v_CRB V w3 (crb_key u d) = Some b \<and>
        (r = Inr () \<longrightarrow> rr_Name (rb_RoleRef b) = snd d \<and> map_of cm (crb_name u d) = None)"
      using ensureBindings_present [OF api refuses wired d _ _ ens] b w2 by simp
    have rmc: "r = Inr () \<Longrightarrow> removeUnusedClusterRoleBindings s u cm w3 = (x, w4) \<Longrightarrow>
        v_CRB V w4 (crb_key u d) = Some b" for x w4
      using remove_crb_frame [OF api, of cm "crb_key u d" u w3] kept
      by (simp add: crb_key_def crb_name_def)
    have rmr: "removeUnusedRoleBindings s u rm v = (x, v') \<Longrightarrow> v_CRB V v' = v_CRB V v" for x v v'
      using keeps_eq [OF remove_rb_keeps_crb [OF api]] by metis
    show ?thesis
      using get1 get2 g ens kept
      by (auto simp: reconcileClusterAndRoleBindings_def getExistingClusterRoleBindings_def
          getExistingRoleBindings_def rmr split: prod.splits sum.splits dest: rmc)
  qed
  then show "v_CRB V (snd (reconcileClusterAndRoleBindings s u ls w)) (crb_key u d) = Some b"
    and "fst (reconcileClusterAndRoleBindings s u ls w) = Inr () \<Longrightarrow> rr_Name (rb_RoleRef b) = snd d" by simp_all
qed

section \<open>Names\<close>

text \<open>
  A user name or the name of an LdapGroupBinding without a colon can be read back from the
  binding's name; the role's name is the rest, whatever it contains.
\<close>

lemma colon_split:
  "CHR '':'' \<notin> set a \<Longrightarrow> CHR '':'' \<notin> set b \<Longrightarrow> a @ CHR '':'' # x = b @ CHR '':'' # y \<longleftrightarrow> a = b \<and> x = y"
proof (induction a arbitrary: b)
  case Nil
  then show ?case by (cases b) auto
next
  case (Cons c a)
  then show ?case by (cases b) auto
qed

lemma GenBindingName_user:
  assumes "CHR '':'' \<notin> set u" and "CHR '':'' \<notin> set v" and "GenBindingName u r l = GenBindingName v r' l'"
  shows "u = v \<and> l @ CHR '':'' # r = l' @ CHR '':'' # r'"
  using assms colon_split [OF assms(1,2), of "l @ CHR '':'' # r" "l' @ CHR '':'' # r'"]
  by (simp add: GenBindingName_def)

end
