(* ===== verification/Hazards.thy ===== *)
theory Hazards
  imports Stability
begin

text \<open>
  Where the reconciliation does not do what the items ask for: RoleBindings are tracked by name
  without their namespace.
\<close>

section \<open>One role in two namespaces\<close>

lemma ensureBinding_rb_step:
  assumes "item_Kind i = ''Role''" "item_Namespace i \<noteq> ''''" and "wired s"
    and "ensureBinding s u l i (cm, rm, v) = (r, cm', rm', v')"
  shows "ensure_step (rb_create (as_serviceAccountsSvc s) u) (rb_modify (as_serviceAccountsSvc s) u)
      (rb_name u) (rb_differs (as_serviceAccountsSvc s) u)
      (Error500InternalServerError ''failed to create role binding'')
      (Error500InternalServerError ''failed to update role binding'')
      (lgb_Name l, item_Namespace i, item_roleRef i) rm v = (r, rm', v')"
  using assms(4) unfolding ensureBinding_Role [OF assms(1-3)] by (auto split: prod.splits)

text \<open>
  A successful step strikes the name of its binding from the map and keeps every managed
  binding; it cannot succeed for a binding that exists and is not in the map.
\<close>

lemma rb_step_succeeds:
  assumes api: "kube_api (svc_clientset (as_serviceAccountsSvc s)) V" and wired: "wired s"
    and kind: "item_Kind i = ''Role''" "item_Namespace i \<noteq> ''''"
    and q: "q = (lgb_Name l, item_Namespace i, item_roleRef i)"
    and run: "ensureBinding s u l i (cm, rm, v) = (Inr r, cm', rm', v')"
  shows "\<exists>b. v_RB V v k = Some b \<and> managed_for (as_serviceAccountsSvc s) u b \<Longrightarrow>
      \<exists>b. v_RB V v' k = Some b \<and> managed_for (as_serviceAccountsSvc s) u b"
    and "rm' = AList.delete (rb_name u q) rm"
    and "map_of rm (rb_name u q) \<noteq> None \<or> v_RB V v (rb_key u q) = None"
proof -
  note estep = ensureBinding_rb_step [OF kind wired run, folded q]
  show "\<exists>b. v_RB V v k = Some b \<and> managed_for (as_serviceAccountsSvc s) u b \<Longrightarrow>
      \<exists>b. v_RB V v' k = Some b \<and> managed_for (as_serviceAccountsSvc s) u b"
    using rbs.ensure_step_mine [OF api estep] by blast
  show "rm' = AList.delete (rb_name u q) rm" using rbs.ensure_step_struck [OF estep] by blast
  show "map_of rm (rb_name u q) \<noteq> None \<or> v_RB V v (rb_key u q) = None"
  proof (rule ccontr)
    assume "\<not> ?thesis"
    then have "map_of rm (rb_name u q) = None" "v_RB V v (rb_key u q) \<noteq> None" by auto
    from rbs.ensure_step_stuck [OF api this] show False using estep by (metis fst_conv)
  qed
qed

lemma ensureBindings_two_namespaces:
  assumes api: "kube_api (svc_clientset (as_serviceAccountsSvc s)) V" and wired: "wired s"
    and d: "d \<in> set (role_requests (all_items ls))" and e: "e \<in> set (role_requests (all_items ls))"
    and names: "rb_name u d = rb_name u e" and "d \<noteq> e"
    and bd: "v_RB V w (rb_key u d) = Some b" "managed_for (as_serviceAccountsSvc s) u b"
    and be: "v_RB V w (rb_key u e) = Some c" "managed_for (as_serviceAccountsSvc s) u c"
  shows "fst (ensureBindings s u ls (cm0, rm0, w)) \<noteq> Inr x"
proof
  let ?svc = "as_serviceAccountsSvc s"
  let ?has = "\<lambda>v k. \<exists>b. v_RB V v k = Some b \<and> managed_for ?svc u b"
  let ?P = "\<lambda>rest st. ?has (snd (snd st)) (rb_key u d) \<and> ?has (snd (snd st)) (rb_key u e) \<and>
      (d \<in> set (role_requests rest) \<and> e \<in> set (role_requests rest) \<or>
       map_of (fst (snd st)) (rb_name u d) = None \<and>
         (d \<in> set (role_requests rest) \<or> e \<in> set (role_requests rest)))"
  assume "fst (ensureBindings s u ls (cm0, rm0, w)) = Inr x"
  then obtain st where "for_each (\<lambda>(l, i). ensureBinding s u l i) (all_items ls) (cm0, rm0, w) = (Inr x, st)"
    by (metis ensureBindings_flat prod.collapse)
  then have "?P [] st"
  proof (rule for_each_success [where P = ?P])
    show "?P (all_items ls) (cm0, rm0, w)" using d e bd be by simp
  next
    fix p rest r and st st' :: "crbMap \<times> rbMap \<times> _"
    assume P: "?P (p # rest) st" and step: "(case p of (l, i) \<Rightarrow> ensureBinding s u l i) st = (Inr r, st')"
    obtain l i where p: "p = (l, i)" by fastforce
    obtain cm rm v where st: "st = (cm, rm, v)" by (metis prod_cases3)
    obtain cm' rm' v' where st': "st' = (cm', rm', v')" by (metis prod_cases3)
    have run: "ensureBinding s u l i (cm, rm, v) = (Inr r, cm', rm', v')" using step p st st' by simp
    have rreq: "role_requests (p # rest) = role_requests [(l, i)] @ role_requests rest"
      using role_requests_simps(2) [of "[p]" rest] p by simp
    show "?P rest st'"
    proof (cases "item_Kind i = ''Role'' \<and> item_Namespace i \<noteq> ''''")
      case False
      then have "role_requests (p # rest) = role_requests rest" using rreq by simp
      then show ?thesis
        using P st st' ensureBinding_rb_view [OF api _ run] False by auto
    next
      case True
      let ?q = "(lgb_Name l, item_Namespace i, item_roleRef i)"
      have req: "role_requests (p # rest) = ?q # role_requests rest" using rreq True by simp
      have kind: "item_Kind i = ''Role''" "item_Namespace i \<noteq> ''''" using True by simp_all
      note step = rb_step_succeeds [OF api wired kind refl run]
      have has: "?has v (rb_key u d)" "?has v (rb_key u e)" using P st by simp_all
      have "d \<in> set (role_requests rest) \<and> e \<in> set (role_requests rest) \<or>
          map_of rm' (rb_name u d) = None \<and> (d \<in> set (role_requests rest) \<or> e \<in> set (role_requests rest))"
        using P st req step(3) has \<open>d \<noteq> e\<close> names unfolding step(2) delete_conv' by auto
      then show ?thesis using st' step(1) has by simp
    qed
  qed
  then show False by simp
qed

lemma reconcile_two_namespaces:
  assumes api: "kube_api (svc_clientset (as_serviceAccountsSvc s)) V" and wired: "wired s"
    and d: "d \<in> set (role_requests (all_items ls))" and e: "e \<in> set (role_requests (all_items ls))"
    and names: "rb_name u d = rb_name u e" and "d \<noteq> e"
    and bd: "v_RB V w (rb_key u d) = Some b" "managed_for (as_serviceAccountsSvc s) u b"
    and be: "v_RB V w (rb_key u e) = Some c" "managed_for (as_serviceAccountsSvc s) u c"
  shows "fst (reconcileClusterAndRoleBindings s u ls w) \<noteq> Inr x"
proof
  assume "fst (reconcileClusterAndRoleBindings s u ls w) = Inr x"
  then have run: "reconcileClusterAndRoleBindings s u ls w = (Inr x, snd (reconcileClusterAndRoleBindings s u ls w))"
    by (simp add: prod_eq_iff)
  obtain cbs rbl cm rm w1 w2 w3 where
    get: "GetClusterRoleBindings (as_serviceAccountsSvc s) u w = (Inr cbs, w1)"
    "GetRoleBindings (as_serviceAccountsSvc s) u w1 = (Inr rbl, w2)"
    and ens: "ensureBindings s u ls (from_pairs rb_Name cbs, from_pairs rb_Name rbl, w2) = (Inr (), cm, rm, w3)"
    by (rule reconcile_steps [OF run])
  have "v_RB V w2 = v_RB V w"
    using keeps_eq [OF crb_calls_keep_rb(4) [OF api] get(1)] GetRoleBindings_spec(1) [OF api get(2)] by simp
  then show False
    using ensureBindings_two_namespaces [OF api wired d e names \<open>d \<noteq> e\<close>, of w2 b c] bd be ens
    by (metis fst_conv)
qed

section \<open>A role moved to another namespace\<close>

text \<open>
  The loop on an item whose binding is found by its name in another namespace: the name is
  struck and nothing is written, so bindings of this name are left alone by every outcome.
\<close>

lemma ensureBindings_moved:
  assumes api: "kube_api (svc_clientset (as_serviceAccountsSvc s)) V" and wired: "wired s"
    and d: "d \<in> set (role_requests (all_items ls))"
    and dist: "distinct (map (rb_name u) (role_requests (all_items ls)))"
    and b: "map_of rm0 (rb_name u d) = Some b" "\<not> rb_differs (as_serviceAccountsSvc s) u d b"
    and run: "ensureBindings s u ls (cm0, rm0, w) = (r, cm, rm, w')"
  shows "v_RB V w' (ns, rb_name u d) = v_RB V w (ns, rb_name u d) \<and>
    (r = Inr () \<longrightarrow> map_of rm (rb_name u d) = None)"
proof -
  let ?svc = "as_serviceAccountsSvc s" and ?n = "rb_name u d"
  let ?P = "\<lambda>rest st. v_RB V (snd (snd st)) (ns, ?n) = v_RB V w (ns, ?n) \<and>
      distinct (map (rb_name u) (role_requests rest)) \<and>
      map_of (fst (snd st)) ?n = (if d \<in> set (role_requests rest) then Some b else None) \<and>
      (\<forall>e\<in>set (role_requests rest). rb_name u e = ?n \<longrightarrow> e = d)"
  let ?Q = "\<lambda>r st. v_RB V (snd (snd st)) (ns, ?n) = v_RB V w (ns, ?n) \<and>
      (r = Inr () \<longrightarrow> map_of (fst (snd st)) ?n = None)"
  have "case for_each (\<lambda>(l, i). ensureBinding s u l i) (all_items ls) (cm0, rm0, w) of (r, st) \<Rightarrow> ?Q r st"
  proof (rule for_each_outcome [where P = ?P])
    have "e = d" if "e \<in> set (role_requests (all_items ls))" "rb_name u e = ?n" for e
      using dist d that by (auto simp: distinct_map inj_on_def)
    then show "?P (all_items ls) (cm0, rm0, w)" using d dist b by simp
  next
    fix p rest and st :: "crbMap \<times> rbMap \<times> _"
    assume P: "?P (p # rest) st"
    obtain l i where p: "p = (l, i)" by fastforce
    obtain cm rm v where st: "st = (cm, rm, v)" by (metis prod_cases3)
    obtain r cm' rm' v' where run: "ensureBinding s u l i (cm, rm, v) = (r, cm', rm', v')"
      by (metis prod_cases4)
    have rreq: "role_requests (p # rest) = role_requests [(l, i)] @ role_requests rest"
      using role_requests_simps(2) [of "[p]" rest] p by simp
    have goal: "v_RB V v' (ns, ?n) = v_RB V w (ns, ?n) \<and> (r = Inr () \<longrightarrow> ?P rest (cm', rm', v'))"
    proof (cases "item_Kind i = ''Role'' \<and> item_Namespace i \<noteq> ''''")
      case False
      then have "role_requests (p # rest) = role_requests rest" using rreq by simp
      then show ?thesis using P st ensureBinding_rb_view [OF api _ run] False by auto
    next
      case True
      let ?q = "(lgb_Name l, item_Namespace i, item_roleRef i)"
      have req: "role_requests (p # rest) = ?q # role_requests rest" using rreq True by simp
      have kind: "item_Kind i = ''Role''" "item_Namespace i \<noteq> ''''" using True by simp_all
      note estep = ensureBinding_rb_step [OF kind wired run]
      show ?thesis
      proof (cases "?q = d")
        case True
        then have "r = Inr ()" "rm' = AList.delete ?n rm" "v' = v"
          using estep P st req b(2) by (simp_all add: ensure_step_def)
        moreover have "d \<notin> set (role_requests rest)" using P req True by auto
        ultimately show ?thesis using P st req by (simp add: delete_conv')
      next
        case False
        then have name: "rb_name u ?q \<noteq> ?n" using P req by auto
        then have "(ns, ?n) \<noteq> rb_key u ?q" by (auto simp: rb_key_def rb_name_def)
        then have "v_RB V v' (ns, ?n) = v_RB V v (ns, ?n)" using rb_step_frame(1) [OF api wired kind run] by blast
        moreover have "map_of rm' ?n = map_of rm ?n" if "r = Inr ()"
          using rbs.ensure_step_struck [OF estep [unfolded that]] name by (simp add: delete_conv')
        ultimately show ?thesis using P st req False by auto
      qed
    qed
    then show "case (case p of (l, i) \<Rightarrow> ensureBinding s u l i) st of (Inl e, st') \<Rightarrow> ?Q (Inl e) st' | (Inr _, st') \<Rightarrow> ?P rest st'"
      using run p st by (cases r) auto
  qed auto
  then show ?thesis using run by (simp add: ensureBindings_flat)
qed

lemma reconcile_moved:
  assumes api: "kube_api (svc_clientset (as_serviceAccountsSvc s)) V" and wired: "wired s"
    and d: "d \<in> set (role_requests (all_items ls))"
    and dist: "distinct (map (rb_name u) (role_requests (all_items ls)))"
    and b: "v_RB V w (ns, rb_name u d) = Some b" "managed_for (as_serviceAccountsSvc s) u b"
      "\<not> rb_differs (as_serviceAccountsSvc s) u d b"
    and only: "\<And>k c. v_RB V w k = Some c \<Longrightarrow> managed_for (as_serviceAccountsSvc s) u c \<Longrightarrow>
      snd k = rb_name u d \<Longrightarrow> k = (ns, rb_name u d)"
  shows "v_RB V (snd (reconcileClusterAndRoleBindings s u ls w)) (ns', rb_name u d) = v_RB V w (ns', rb_name u d)"
proof -
  let ?svc = "as_serviceAccountsSvc s" and ?n = "rb_name u d"
  obtain g1 w1 where get1: "GetClusterRoleBindings ?svc u w = (g1, w1)" by fastforce
  obtain g2 w2 where get2: "GetRoleBindings ?svc u w1 = (g2, w2)" by fastforce
  have w1: "v_RB V w1 = v_RB V w" using keeps_eq [OF crb_calls_keep_rb(4) [OF api] get1] .
  have w2: "v_RB V w2 = v_RB V w"
    using keeps_eq [OF GetClusterRoleBindings_keeps(2) [OF api] get2] w1 by simp
  show ?thesis
  proof (cases "\<exists>cbs rbl. g1 = Inr cbs \<and> g2 = Inr rbl")
    case False
    then show ?thesis
      using get1 get2 w1 w2
      by (auto simp: reconcileClusterAndRoleBindings_def getExistingClusterRoleBindings_def
          getExistingRoleBindings_def split: sum.splits)
  next
    case True
    then obtain cbs rbl where g: "g1 = Inr cbs" "g2 = Inr rbl" by blast
    note get = get2 [unfolded g]
    have name: "rb_Name b = ?n" using rbac_api_key [OF kube_apiD(2) [OF api]] b(1) by blast
    have "b \<in> set rbl" using GetRoleBindings_spec(3) [OF api get] b w1 by auto
    then obtain c where c: "map_of (from_pairs rb_Name rbl) ?n = Some c"
      using name map_of_from_pairs_None [of rb_Name rbl ?n] by (cases "map_of (from_pairs rb_Name rbl) ?n") auto
    then have "v_RB V w (rb_Namespace c, ?n) = Some c" "managed_for ?svc u c"
      using listed_rb [OF api get, of "(rb_Namespace c, ?n)" c] w1 by simp_all
    then have "c = b" using only [of "(rb_Namespace c, ?n)" c] b(1) by simp
    then have m: "map_of (from_pairs rb_Name rbl) ?n = Some b" using c by simp
    obtain r cm rm w3 where ens: "ensureBindings s u ls (from_pairs rb_Name cbs, from_pairs rb_Name rbl, w2) = (r, cm, rm, w3)"
      by (metis prod_cases4)
    note moved = ensureBindings_moved [OF api wired d dist m b(3) ens, of ns']
    have rmr: "r = Inr () \<Longrightarrow> removeUnusedRoleBindings s u rm v = (x, v') \<Longrightarrow> v_RB V v' (ns', ?n) = v_RB V v (ns', ?n)" for x v v'
      using remove_rb_frame [OF api, of rm "(ns', ?n)" u v] moved by simp
    have rmc: "removeUnusedClusterRoleBindings s u cm v = (x, v') \<Longrightarrow> v_RB V v' = v_RB V v" for x v v'
      using keeps_eq [OF remove_crb_keeps_rb [OF api]] by metis
    show ?thesis
      using get1 get2 g ens w2 moved
      by (auto simp: reconcileClusterAndRoleBindings_def getExistingClusterRoleBindings_def
          getExistingRoleBindings_def rmc rmr split: prod.splits sum.splits)
  qed
qed

end
