(* ===== verification/Login.thy ===== *)
theory Login
  imports Hazards
begin

text \<open>
  The lemmas about a whole login: what it takes from the directory and the cache, what it
  leaves of the cluster, and what it returns on each path.
\<close>

section \<open>The directory leaves the cluster alone\<close>

definition ldap_keeps :: "('w \<Rightarrow> 'v) \<Rightarrow> 'w ldap_lib \<Rightarrow> bool" where
  "ldap_keeps f L \<longleftrightarrow>
     (\<forall>url. keeps f (ll_DialURL L url)) \<and> (\<forall>c. keeps f (ll_Close L c)) \<and>
     (\<forall>c dn pw. keeps f (ll_Bind L c dn pw)) \<and> (\<forall>c r. keeps f (ll_Search L c r))"

lemma ldap_keepsD:
  assumes "ldap_keeps f L"
  shows "keeps f (ll_DialURL L url)" "keeps f (ll_Close L c)" "keeps f (ll_Bind L c dn pw)"
    "keeps f (ll_Search L c r)"
  using assms by (simp_all add: ldap_keeps_def)

lemma withConnection_keeps:
  assumes "ldap_keeps f (ls_lib s)" and "\<And>c. keeps f (fn c)"
  shows "keeps f (withConnection s fn)"
proof
  fix w
  note l = ldap_keepsD [OF assms(1)]
  show "f (snd (withConnection s fn w)) = f w"
    by (auto simp: withConnection_def keepsD l assms(2) split: prod.split sum.split
        dest!: keeps_eq [OF l(1)] keeps_eq [OF l(3)] keeps_eq [OF assms(2)])
qed

lemma GetUser_keeps:
  assumes "ldap_keeps f (ls_lib s)"
  shows "keeps f (GetUser s u)" and "keeps f (GetUserGroups s dn)"
  unfolding GetUser_def GetUserGroups_def
  by (intro withConnection_keeps assms keeps_rules ldap_keepsD(4) [OF assms])+

section \<open>The bindings of the user's groups\<close>

lemma userGroupBindings_filter:
  "userGroupBindings groups ls = filter (\<lambda>l. spec_LdapGroupDN (lgb_Spec l) \<in> set groups) ls"
proof -
  have m: "map_of (fold (\<lambda>g m. AList.update g True m) gs m0) k =
      (if k \<in> set gs then Some True else map_of m0 k)" for gs m0 k
    by (induction gs arbitrary: m0) (auto simp: update_conv')
  have "fold (\<lambda>l acc. case map_of (fold (\<lambda>g m. AList.update g True m) groups [])
          (spec_LdapGroupDN (lgb_Spec l)) of Some _ \<Rightarrow> acc @ [l] | None \<Rightarrow> acc) xs acc =
      acc @ filter (\<lambda>l. spec_LdapGroupDN (lgb_Spec l) \<in> set groups) xs" for xs acc :: "LdapGroupBinding list"
    by (induction xs arbitrary: acc) (auto simp: m)
  then show ?thesis by (simp add: userGroupBindings_def)
qed

section \<open>The service account\<close>

lemma UpsertServiceAccount_name:
  assumes api: "kube_api (svc_clientset svc) V" and run: "UpsertServiceAccount svc u w = (Inr sa, w')"
  shows "sa_Name sa = u" and "v_SA V w' (svc_namespace svc, u) = Some sa"
proof -
  note sa = sa_apiD [OF kube_apiD(3) [OF api]]
  let ?o = "\<lparr>sa_ObjectMeta = \<lparr>om_Name = u, om_Namespace = '''', om_Labels = []\<rparr>\<rparr>"
  obtain g v where g: "sc_Get (cs_ServiceAccounts (svc_clientset svc)) (svc_namespace svc) u w = (g, v)"
    by fastforce
  have v: "v_SA V v = v_SA V w" using keeps_eq [OF sa(2) g] .
  have "sa_Name sa = u \<and> v_SA V w' (svc_namespace svc, u) = Some sa"
  proof (cases g)
    case (Inl e)
    then have "sc_Create (cs_ServiceAccounts (svc_clientset svc)) (svc_namespace svc) ?o v = (Inr sa, w')"
      using run g by (auto simp: UpsertServiceAccount_def single_call_eqs split: if_splits)
    then have "v_SA V w' (svc_namespace svc, u) = Some sa" using sa(7) by fastforce
    then show ?thesis using sa(1) by blast
  next
    case (Inr a)
    then have "sa = a" "w' = v" using run g by (simp_all add: UpsertServiceAccount_def)
    moreover have "v_SA V w (svc_namespace svc, u) = Some a" using sa(4) g Inr by (metis fst_conv)
    ultimately show ?thesis using sa(1) v by metis
  qed
  then show "sa_Name sa = u" and "v_SA V w' (svc_namespace svc, u) = Some sa" by simp_all
qed

section \<open>The paths of a login\<close>

lemma ldapReconcilate_steps:
  assumes "ldapReconcilate s u sa w = (Inr x, w')"
  obtains user groups w1 w2 where
    "GetUser (as_ldapSvc s) u w = (Inr user, w1)"
    "GetUserGroups (as_ldapSvc s) (entry_DN user) w1 = (Inr groups, w2)"
    "reconcileClusterAndRoleBindings s (sa_Name sa)
       (filter (\<lambda>l. spec_LdapGroupDN (lgb_Spec l) \<in> set groups) (cached (as_ldapGroupBindingsSvc s w2))) w2
     = (Inr (), w')"
  using assms
  by (auto simp: ldapReconcilate_def Let_def userGroupBindings_filter bindings_seen_def GetBindings_def
      cached_def split: prod.splits sum.splits)

lemma AuthAccount_steps:
  assumes "AuthAccount s u w = (Inr cred, w')"
  obtains sa w1 w2 token where
    "UpsertServiceAccount (as_serviceAccountsSvc s) u w = (Inr sa, w1)"
    "if env_LDAPEnabled (as_env s) then ldapReconcilate s u sa w1 = (Inr (), w2) else w2 = w1"
    "IssueToken (as_serviceAccountsSvc s) (sa_Name sa) w2 = (Inr token, w')"
    "cred = \<lparr>cr_Kind = ''ExecCredential'', cr_ApiVersion = ''client.authentication.k8s.io/v1beta1'',
       cr_Status = Some \<lparr>st_Token = tst_Token (tr_Status token),
         st_ExpirationTimestamp = tst_ExpirationTimestamp (tr_Status token)\<rparr>\<rparr>"
  using assms
  by (auto simp: AuthAccount_def split: prod.splits sum.splits if_splits)

text \<open>The calls one after the other give the login.\<close>

lemma AuthAccount_successful:
  assumes "UpsertServiceAccount (as_serviceAccountsSvc s) u w = (Inr sa, w1)" and "env_LDAPEnabled (as_env s)"
    and "GetUser (as_ldapSvc s) u w1 = (Inr user, w2)"
    and "GetUserGroups (as_ldapSvc s) (entry_DN user) w2 = (Inr groups, w3)"
    and "reconcileClusterAndRoleBindings s (sa_Name sa)
      (userGroupBindings groups (bindings_seen (as_ldapGroupBindingsSvc s w3) (GetBindings (as_ldapGroupBindingsSvc s w3)))) w3 =
      (Inr (), w4)"
    and "IssueToken (as_serviceAccountsSvc s) (sa_Name sa) w4 = (Inr token, w5)"
  shows "AuthAccount s u w =
    (Inr \<lparr>cr_Kind = ''ExecCredential'', cr_ApiVersion = ''client.authentication.k8s.io/v1beta1'',
       cr_Status = Some \<lparr>st_Token = tst_Token (tr_Status token),
         st_ExpirationTimestamp = tst_ExpirationTimestamp (tr_Status token)\<rparr>\<rparr>, w5)"
  by (simp add: AuthAccount_def ldapReconcilate_def Let_def assms)

text \<open>
  What holds of a view on every way out of a login, when only the reconciliation changes it.
\<close>

lemma ldapReconcilate_invariant:
  assumes ldap: "ldap_keeps f (ls_lib (as_ldapSvc s))"
    and rec: "\<And>ls v. f v = f w \<Longrightarrow> Q (f (snd (reconcileClusterAndRoleBindings s (sa_Name x) ls v)))"
    and start: "Q (f w)"
  shows "Q (f (snd (ldapReconcilate s u x w)))"
proof -
  obtain r2 w2 where gu: "GetUser (as_ldapSvc s) u w = (r2, w2)" by fastforce
  have w2: "f w2 = f w" using keeps_eq [OF GetUser_keeps(1) [OF ldap] gu] .
  show ?thesis
  proof (cases r2)
    case (Inl e)
    then show ?thesis using gu w2 start by (simp add: ldapReconcilate_def)
  next
    case (Inr user)
    obtain r3 w3 where gg: "GetUserGroups (as_ldapSvc s) (entry_DN user) w2 = (r3, w3)" by fastforce
    have w3: "f w3 = f w" using keeps_eq [OF GetUser_keeps(2) [OF ldap] gg] w2 by simp
    have after: "reconcileClusterAndRoleBindings s (sa_Name x) ls w3 = (r, v) \<Longrightarrow> Q (f v)" for ls r v
      using rec [OF w3, of ls] by simp
    show ?thesis
      using gu gg Inr w3 start after
      by (cases r3) (auto simp: ldapReconcilate_def Let_def split: prod.splits sum.splits)
  qed
qed

lemma AuthAccount_invariant:
  assumes api: "kube_api (svc_clientset (as_serviceAccountsSvc s)) V"
    and sa: "sa_client_keeps f (cs_ServiceAccounts (svc_clientset (as_serviceAccountsSvc s)))"
    and ldap: "ldap_keeps f (ls_lib (as_ldapSvc s))"
    and rec: "\<And>ls v. f v = f w \<Longrightarrow> Q (f (snd (reconcileClusterAndRoleBindings s u ls v)))"
    and start: "Q (f w)"
  shows "Q (f (snd (AuthAccount s u w)))"
proof -
  let ?svc = "as_serviceAccountsSvc s"
  have token: "f (snd (IssueToken ?svc n v)) = f v" for n v by (simp add: keepsD sa_calls_keep(2) [OF sa])
  obtain r1 w1 where up: "UpsertServiceAccount ?svc u w = (r1, w1)" by fastforce
  have w1: "f w1 = f w" using keeps_eq [OF sa_calls_keep(1) [OF sa] up] .
  have recon: "Q (f (snd (ldapReconcilate s u x w1)))" if "r1 = Inr x" for x
    using ldapReconcilate_invariant [OF ldap, where Q = Q and w = w1 and x = x and u = u]
      UpsertServiceAccount_name(1) [OF api] up that rec start w1 by simp
  show ?thesis
  proof (cases r1)
    case (Inl e)
    then show ?thesis using up w1 start by (simp add: AuthAccount_def)
  next
    case (Inr x)
    define m where "m = (if env_LDAPEnabled (as_env s) then ldapReconcilate s u x w1 else (Inr (), w1))"
    have "Q (f (snd m))" using recon [OF Inr] w1 start by (simp add: m_def)
    moreover have "AuthAccount s u w = (case m of (Inl err, w2) \<Rightarrow> (Inl err, w2) | (Inr _, w2) \<Rightarrow>
        (case IssueToken ?svc (sa_Name x) w2 of
           (Inl err, w3) \<Rightarrow> (Inl (Error500InternalServerError ''Failed to issue token''), w3)
         | (Inr token, w3) \<Rightarrow>
             (Inr \<lparr>cr_Kind = ''ExecCredential'', cr_ApiVersion = ''client.authentication.k8s.io/v1beta1'',
                cr_Status = Some \<lparr>st_Token = tst_Token (tr_Status token),
                  st_ExpirationTimestamp = tst_ExpirationTimestamp (tr_Status token)\<rparr>\<rparr>, w3)))"
      using up Inr by (simp add: AuthAccount_def m_def)
    moreover have "f v' = f v" if "IssueToken ?svc n v = (r, v')" for n v r v'
      using token [of n v] that by simp
    ultimately show ?thesis by (auto split: prod.splits sum.splits)
  qed
qed

text \<open>The directory and the cache as a successful login with LDAP found them.\<close>

lemma login_steps:
  assumes api: "kube_api (svc_clientset (as_serviceAccountsSvc s)) V" and on: "env_LDAPEnabled (as_env s)"
    and run: "AuthAccount s u w = (Inr cred, w')"
  obtains sa w1 user w2 groups w3 w4 token where
    "UpsertServiceAccount (as_serviceAccountsSvc s) u w = (Inr sa, w1)"
    "GetUser (as_ldapSvc s) u w1 = (Inr user, w2)"
    "GetUserGroups (as_ldapSvc s) (entry_DN user) w2 = (Inr groups, w3)"
    "reconcileClusterAndRoleBindings s u
       (filter (\<lambda>l. spec_LdapGroupDN (lgb_Spec l) \<in> set groups) (cached (as_ldapGroupBindingsSvc s w3))) w3
     = (Inr (), w4)"
    "IssueToken (as_serviceAccountsSvc s) u w4 = (Inr token, w')"
proof -
  obtain sa w1 w2 token where
    up: "UpsertServiceAccount (as_serviceAccountsSvc s) u w = (Inr sa, w1)"
    and rec: "ldapReconcilate s u sa w1 = (Inr (), w2)"
    and tok: "IssueToken (as_serviceAccountsSvc s) (sa_Name sa) w2 = (Inr token, w')"
    using AuthAccount_steps [OF run] on by metis
  have "sa_Name sa = u" using UpsertServiceAccount_name(1) [OF api up] .
  then show thesis using ldapReconcilate_steps [OF rec] that up tok by metis
qed

text \<open>A login that does not get to the reconciliation.\<close>

lemma unreconciled_ldap_keeps:
  assumes ldap: "ldap_keeps f (ls_lib (as_ldapSvc s))"
    and out: "fst (ldapReconcilate s u sa w) = Inl (Error401Unauthorized msg)"
  shows "f (snd (ldapReconcilate s u sa w)) = f w"
proof -
  obtain r2 w2 where gu: "GetUser (as_ldapSvc s) u w = (r2, w2)" by fastforce
  have w2: "f w2 = f w" using keeps_eq [OF GetUser_keeps(1) [OF ldap] gu] .
  show ?thesis
  proof (cases r2)
    case (Inl e)
    then show ?thesis using gu w2 by (simp add: ldapReconcilate_def)
  next
    case (Inr user)
    obtain r3 w3 where gg: "GetUserGroups (as_ldapSvc s) (entry_DN user) w2 = (r3, w3)" by fastforce
    have "f w3 = f w" using keeps_eq [OF GetUser_keeps(2) [OF ldap] gg] w2 by simp
    then show ?thesis
      using gu gg Inr out
      by (cases r3) (auto simp: ldapReconcilate_def Let_def split: prod.splits sum.splits)
  qed
qed

lemma unreconciled_login_keeps:
  assumes sa: "sa_client_keeps f (cs_ServiceAccounts (svc_clientset (as_serviceAccountsSvc s)))"
    and ldap: "ldap_keeps f (ls_lib (as_ldapSvc s))"
    and out: "fst (AuthAccount s u w) = Inl (Error401Unauthorized msg) \<or> \<not> env_LDAPEnabled (as_env s)"
  shows "f (snd (AuthAccount s u w)) = f w"
proof -
  have tok: "IssueToken (as_serviceAccountsSvc s) n v = (r, v') \<Longrightarrow> f v' = f v" for n v r v'
    by (rule keeps_eq [OF sa_calls_keep(2) [OF sa]])
  obtain r1 w1 where up: "UpsertServiceAccount (as_serviceAccountsSvc s) u w = (r1, w1)" by fastforce
  have w1: "f w1 = f w" using keeps_eq [OF sa_calls_keep(1) [OF sa] up] .
  show ?thesis
  proof (cases r1)
    case (Inl e)
    then show ?thesis using up w1 by (simp add: AuthAccount_def)
  next
    case (Inr x)
    obtain r2 w2 where rec: "ldapReconcilate s u x w1 = (r2, w2)" by fastforce
    have "r2 = Inl (Error401Unauthorized msg) \<Longrightarrow> f w2 = f w"
      using unreconciled_ldap_keeps [OF ldap, of u x w1 msg] rec w1 by simp
    then show ?thesis
      using up Inr rec w1 out
      by (cases "env_LDAPEnabled (as_env s)")
        (auto simp: AuthAccount_def split: prod.splits sum.splits dest!: tok)
  qed
qed

section \<open>The roles a login leaves\<close>

lemma login_roles:
  assumes "kube_api (svc_clientset (as_serviceAccountsSvc s)) V" and "wired s"
    and "visits_each (as_crbOrder s)" and "visits_each (as_rbOrder s)"
    and "ldap_keeps (v_RB V) (ls_lib (as_ldapSvc s))"
    and "env_LDAPEnabled (as_env s)" and "AuthAccount s u w = (Inr cred, w')"
  obtains sa w1 user w2 groups w3 where
    "UpsertServiceAccount (as_serviceAccountsSvc s) u w = (Inr sa, w1)"
    "GetUser (as_ldapSvc s) u w1 = (Inr user, w2)"
    "GetUserGroups (as_ldapSvc s) (entry_DN user) w2 = (Inr groups, w3)"
    "cluster_roles V (as_serviceAccountsSvc s) u w' = due_cluster_roles
       (filter (\<lambda>l. spec_LdapGroupDN (lgb_Spec l) \<in> set groups) (cached (as_ldapGroupBindingsSvc s w3)))"
    "namespaces_settled V (as_serviceAccountsSvc s) u
       (filter (\<lambda>l. spec_LdapGroupDN (lgb_Spec l) \<in> set groups) (cached (as_ldapGroupBindingsSvc s w3))) w \<longrightarrow>
     roles V (as_serviceAccountsSvc s) u w' = due_roles
       (filter (\<lambda>l. spec_LdapGroupDN (lgb_Spec l) \<in> set groups) (cached (as_ldapGroupBindingsSvc s w3)))"
proof -
  let ?svc = "as_serviceAccountsSvc s"
  obtain sa w1 user w2 groups w3 w4 token where
    up: "UpsertServiceAccount ?svc u w = (Inr sa, w1)"
    and gu: "GetUser (as_ldapSvc s) u w1 = (Inr user, w2)"
    and gg: "GetUserGroups (as_ldapSvc s) (entry_DN user) w2 = (Inr groups, w3)"
    and rec: "reconcileClusterAndRoleBindings s u
       (filter (\<lambda>l. spec_LdapGroupDN (lgb_Spec l) \<in> set groups) (cached (as_ldapGroupBindingsSvc s w3))) w3 = (Inr (), w4)"
    and tok: "IssueToken ?svc u w4 = (Inr token, w')"
    using login_steps [OF assms(1,6,7)] by metis
  let ?ls = "filter (\<lambda>l. spec_LdapGroupDN (lgb_Spec l) \<in> set groups) (cached (as_ldapGroupBindingsSvc s w3))"
  have w3: "v_RB V w3 = v_RB V w"
    using keeps_eq [OF sa_calls_keep(1) [OF kube_apiD(9) [OF assms(1)]] up]
      keeps_eq [OF GetUser_keeps(1) [OF assms(5)] gu] keeps_eq [OF GetUser_keeps(2) [OF assms(5)] gg] by simp
  have w': "v_CRB V w' = v_CRB V w4" "v_RB V w' = v_RB V w4"
    using keeps_eq [OF sa_calls_keep(2) [OF kube_apiD(8) [OF assms(1)]] tok]
      keeps_eq [OF sa_calls_keep(2) [OF kube_apiD(9) [OF assms(1)]] tok] by simp_all
  have "cluster_roles V ?svc u w4 = due_cluster_roles ?ls"
    by (rule reconciled_cluster_roles [OF reconcile_crbs [OF assms(1-3) rec]])
  moreover have "namespaces_settled V ?svc u ?ls w \<Longrightarrow> roles V ?svc u w4 = due_roles ?ls"
    using reconciled_roles [OF assms(1) reconcile_rbs [OF assms(1,2,4) _ rec]] namespaces_settled_view [OF w3] by blast
  ultimately show thesis using that [OF up gu gg] w' by (auto simp: cluster_roles_def roles_def)
qed

section \<open>A login that finds an empty cache\<close>

lemma ensureBindings_keep:
  assumes f: "rbac_client_keeps f (cs_ClusterRoleBindings (svc_clientset (as_serviceAccountsSvc s)))"
      "rbac_client_keeps f (cs_RoleBindings (svc_clientset (as_serviceAccountsSvc s)))" and wired: "wired s"
  shows "f (snd (snd (snd (ensureBindings s u ls (cm0, rm0, w))))) = f w"
  unfolding ensureBindings_flat
proof (rule for_each_invariant [where P = "\<lambda>st. f (snd (snd st)) = f w"])
  fix p :: "LdapGroupBinding \<times> LdapGroupBindingItem" and st :: "crbMap \<times> rbMap \<times> _"
  assume st: "f (snd (snd st)) = f w"
  obtain l i where p: "p = (l, i)" by fastforce
  obtain cm rm v where v: "st = (cm, rm, v)" by (metis prod_cases3)
  let ?svc = "as_serviceAccountsSvc s"
  have c: "f (snd (snd (ensure_step (crb_create ?svc u) (crb_modify ?svc u) nm df ec em d m v))) = f v" for nm df ec em d m
    by (rule ensure_step_keeps) (rule crb_calls_keep [OF f(1)])+
  have r: "f (snd (snd (ensure_step (rb_create ?svc u) (rb_modify ?svc u) nm df ec em d m v))) = f v" for nm df ec em d m
    by (rule ensure_step_keeps) (rule rb_calls_keep [OF f(2)])+
  consider "item_Kind i = ''ClusterRole''" | "item_Kind i = ''Role''" "item_Namespace i \<noteq> ''''"
    | "item_Kind i \<noteq> ''ClusterRole''" "item_Kind i = ''Role'' \<Longrightarrow> item_Namespace i = ''''" by blast
  then have "f (snd (snd (snd (ensureBinding s u l i (cm, rm, v))))) = f v"
  proof cases
    case 1
    then show ?thesis using c by (simp add: ensureBinding_ClusterRole case_prod_unfold)
  next
    case 2
    then show ?thesis using r by (simp add: ensureBinding_Role wired case_prod_unfold)
  qed (simp add: ensureBinding_other)
  then show "f (snd (snd (snd ((case p of (l, i) \<Rightarrow> ensureBinding s u l i) st)))) = f w" using st p v by simp
qed simp

text \<open>What no call on a binding changes, such as the service accounts.\<close>

lemma reconcile_keeps_rest:
  assumes f: "rbac_client_keeps f (cs_ClusterRoleBindings (svc_clientset (as_serviceAccountsSvc s)))"
      "rbac_client_keeps f (cs_RoleBindings (svc_clientset (as_serviceAccountsSvc s)))" and wired: "wired s"
    and run: "reconcileClusterAndRoleBindings s u ls w = (Inr x, w')"
  shows "f w' = f w"
proof -
  obtain cbs rbl cm rm w1 w2 w3 w4 where
    get: "GetClusterRoleBindings (as_serviceAccountsSvc s) u w = (Inr cbs, w1)"
    "GetRoleBindings (as_serviceAccountsSvc s) u w1 = (Inr rbl, w2)"
    and ens: "ensureBindings s u ls (from_pairs rb_Name cbs, from_pairs rb_Name rbl, w2) = (Inr (), cm, rm, w3)"
    and rmc: "removeUnusedClusterRoleBindings s u cm w3 = (Inr (), w4)"
    and rmr: "removeUnusedRoleBindings s u rm w4 = (Inr (), w')"
    by (rule reconcile_steps [OF run])
  have "f w3 = f w2"
    using ensureBindings_keep [OF f wired, of u ls "from_pairs rb_Name cbs" "from_pairs rb_Name rbl" w2] ens by simp
  moreover have "keeps f (removeUnusedClusterRoleBindings s u cm)"
    unfolding removeUnusedClusterRoleBindings_eq
    by (intro keeps_for_each remove_step_keeps crb_calls_keep(4) [OF f(1)])
  moreover have "keeps f (removeUnusedRoleBindings s u rm)"
    unfolding removeUnusedRoleBindings_eq
    by (intro keeps_for_each remove_step_keeps rb_calls_keep(4) [OF f(2)])
  ultimately show ?thesis
    using keeps_eq [OF crb_calls_keep(1) [OF f(1)] get(1)] keeps_eq [OF rb_calls_keep(1) [OF f(2)] get(2)]
      keeps_eq rmc rmr by metis
qed

lemma empty_cache_login:
  assumes api: "kube_api (svc_clientset (as_serviceAccountsSvc s)) V" and wired: "wired s"
    and live: "crb_live ca (svc_clientset (as_serviceAccountsSvc s)) V" "rb_live ra (svc_clientset (as_serviceAccountsSvc s)) V"
    and ord: "visits_each (as_crbOrder s)" "visits_each (as_rbOrder s)"
    and ldap: "ldap_keeps (v_RB V) (ls_lib (as_ldapSvc s))" "ldap_keeps (v_SA V) (ls_lib (as_ldapSvc s))"
    and on: "env_LDAPEnabled (as_env s)" and settled: "namespaces_settled V (as_serviceAccountsSvc s) u [] w"
    and calls: "UpsertServiceAccount (as_serviceAccountsSvc s) u w = (Inr sa, w1)"
      "GetUser (as_ldapSvc s) u w1 = (Inr user, w2)" "GetUserGroups (as_ldapSvc s) (entry_DN user) w2 = (Inr groups, w3)"
    and empty: "cached (as_ldapGroupBindingsSvc s w3) = []"
    and tokens: "\<And>v a. v_SA V v (svc_namespace (as_serviceAccountsSvc s), u) = Some a \<Longrightarrow>
      \<exists>t. fst (IssueToken (as_serviceAccountsSvc s) u v) = Inr t"
  shows "\<exists>cred w'. AuthAccount s u w = (Inr cred, w') \<and>
    cluster_roles V (as_serviceAccountsSvc s) u w' = {} \<and> roles V (as_serviceAccountsSvc s) u w' = {}"
proof -
  let ?svc = "as_serviceAccountsSvc s"
  have w3: "v_RB V w3 = v_RB V w" "v_SA V w3 = v_SA V w1"
    using keeps_eq [OF sa_calls_keep(1) [OF kube_apiD(9) [OF api]] calls(1)]
      keeps_eq [OF GetUser_keeps(1) [OF ldap(1)] calls(2)] keeps_eq [OF GetUser_keeps(2) [OF ldap(1)] calls(3)]
      keeps_eq [OF GetUser_keeps(1) [OF ldap(2)] calls(2)] keeps_eq [OF GetUser_keeps(2) [OF ldap(2)] calls(3)] by simp_all
  then have settled3: "namespaces_settled V ?svc u [] w3" using settled namespaces_settled_view [OF w3(1)] by blast
  have "cluster_ready ca V ?svc u [] w3" "roles_ready ra V ?svc u [] w3"
    using settled3 by (simp_all add: cluster_ready_def roles_ready_def all_items_def)
  from reconcile_live [OF api wired live ord this]
  obtain w4 where rec: "reconcileClusterAndRoleBindings s u [] w3 = (Inr (), w4)" by blast
  have name: "sa_Name sa = u" and there: "v_SA V w1 (svc_namespace ?svc, u) = Some sa"
    using UpsertServiceAccount_name [OF api calls(1)] by simp_all
  have "v_SA V w4 = v_SA V w3" by (rule reconcile_keeps_rest [OF kube_apiD(5,7) [OF api] wired rec])
  then obtain t w5 where tok: "IssueToken ?svc u w4 = (Inr t, w5)"
    using tokens [of w4 sa] there w3(2) by (metis prod.collapse)
  have "userGroupBindings groups (bindings_seen (as_ldapGroupBindingsSvc s w3) (GetBindings (as_ldapGroupBindingsSvc s w3))) = []"
    using empty by (simp add: userGroupBindings_def bindings_seen_def GetBindings_def cached_def Let_def)
  then have "\<exists>cred. AuthAccount s u w = (Inr cred, w5)"
    using AuthAccount_successful [OF calls(1) on calls(2,3) _ tok [folded name]] rec name by simp
  moreover have "cluster_roles V ?svc u w4 = {}" "roles V ?svc u w4 = {}"
    using reconciled_cluster_roles [OF reconcile_crbs [OF api wired ord(1) rec]]
      reconciled_roles [OF api reconcile_rbs [OF api wired ord(2) settled3 rec]]
    by (simp_all add: due_cluster_roles_def due_roles_def)
  moreover have "v_CRB V w5 = v_CRB V w4" "v_RB V w5 = v_RB V w4"
    using keeps_eq [OF sa_calls_keep(2) [OF kube_apiD(8) [OF api]] tok]
      keeps_eq [OF sa_calls_keep(2) [OF kube_apiD(9) [OF api]] tok] by simp_all
  ultimately show ?thesis by (auto simp: cluster_roles_def roles_def)
qed

section \<open>A login that cannot change a role\<close>

lemma login_stuck:
  assumes api: "kube_api (svc_clientset (as_serviceAccountsSvc s)) V"
    and refuses: "rbac_refuses (cs_ClusterRoleBindings (svc_clientset (as_serviceAccountsSvc s))) (v_CRB V)"
    and wired: "wired s" and ldap: "ldap_keeps (v_CRB V) (ls_lib (as_ldapSvc s))" and on: "env_LDAPEnabled (as_env s)"
    and calls: "UpsertServiceAccount (as_serviceAccountsSvc s) u w = (Inr sa, w1)"
      "GetUser (as_ldapSvc s) u w1 = (Inr user, w2)" "GetUserGroups (as_ldapSvc s) (entry_DN user) w2 = (Inr groups, w3)"
    and d: "d \<in> set (cluster_requests (all_items
      (filter (\<lambda>l. spec_LdapGroupDN (lgb_Spec l) \<in> set groups) (cached (as_ldapGroupBindingsSvc s w3)))))"
    and b: "v_CRB V w (crb_key u d) = Some b" "rr_Name (rb_RoleRef b) \<noteq> snd d"
  shows "fst (AuthAccount s u w) = Inl (Error500InternalServerError ''Failed to reconcile cluster role bindings'')"
    and "v_CRB V (snd (AuthAccount s u w)) (crb_key u d) = Some b"
proof -
  let ?ls = "userGroupBindings groups (bindings_seen (as_ldapGroupBindingsSvc s w3) (GetBindings (as_ldapGroupBindingsSvc s w3)))"
  have ls: "?ls = filter (\<lambda>l. spec_LdapGroupDN (lgb_Spec l) \<in> set groups) (cached (as_ldapGroupBindingsSvc s w3))"
    by (simp add: userGroupBindings_filter bindings_seen_def GetBindings_def cached_def)
  have name: "sa_Name sa = u" using UpsertServiceAccount_name(1) [OF api calls(1)] .
  have "v_CRB V w3 = v_CRB V w"
    using keeps_eq [OF sa_calls_keep(1) [OF kube_apiD(8) [OF api]] calls(1)]
      keeps_eq [OF GetUser_keeps(1) [OF ldap] calls(2)] keeps_eq [OF GetUser_keeps(2) [OF ldap] calls(3)] by simp
  then have b3: "v_CRB V w3 (crb_key u d) = Some b" using b(1) by simp
  obtain r w4 where rec: "reconcileClusterAndRoleBindings s u ?ls w3 = (r, w4)" by fastforce
  note stuck = reconcile_present [OF api refuses wired d [folded ls] b3, unfolded rec fst_conv snd_conv]
  obtain e where r: "r = Inl e" using stuck(2) b(2) by (cases r) auto
  have "AuthAccount s u w =
      (Inl (Error500InternalServerError ''Failed to reconcile cluster role bindings''), w4)"
    using calls on rec name r by (simp add: AuthAccount_def ldapReconcilate_def Let_def)
  then show "fst (AuthAccount s u w) = Inl (Error500InternalServerError ''Failed to reconcile cluster role bindings'')"
    and "v_CRB V (snd (AuthAccount s u w)) (crb_key u d) = Some b" using stuck(1) by simp_all
qed

end
