(* ===== verification/Http.thy ===== *)
theory Http
  imports Login
begin

text \<open>
  The HTTP endpoint: \<open>internal/security/principal.go\<close>, \<open>internal/middlewares/spnego.go\<close> and
  \<open>internal/controllers/auth/auth.controller.go\<close>. The keytab loader and the SPNEGO
  authenticator of the Kerberos library are parameters; what the code relies on is only that
  the wrapped handler runs exactly when a ticket was accepted, with its user name in the
  request's identity. The response to a rejected request is the library's.
\<close>

section \<open>The principal in the request context\<close>

text \<open>
  A context maps keys to values of any type; only strings matter here.
\<close>

datatype any_value = AnyString string | AnyOther

type_synonym http_context = "string \<Rightarrow> any_value option"

definition PrincipalFromContextKey :: string where
  "PrincipalFromContextKey = ''principal''"

definition GetPrincipalFromContext :: "http_context \<Rightarrow> http_error + string" where
  "GetPrincipalFromContext ctx =
     (case ctx PrincipalFromContextKey of
        Some (AnyString user) \<Rightarrow>
          (if user = '''' then Inl (Error403Forbidden ''unauthorized'') else Inr user)
      | _ \<Rightarrow> Inl (Error403Forbidden ''unauthorized''))"

section \<open>The controller\<close>

record ('c, 'w) authController =
  ac_authSvc :: "('c, 'w) authService"
  ac_env :: Env

text \<open>The body of \<open>kerberosAuthOutput\<close> is the credentials.\<close>

record kerberosAuthOutput =
  out_Body :: Credentials

definition getKerberosAuth ::
  "('c, 'w) authController \<Rightarrow> http_context \<Rightarrow> ('w, http_error, kerberosAuthOutput) action" where
  "getKerberosAuth ctrl ctx w =
     (case GetPrincipalFromContext ctx of
        Inl err \<Rightarrow> (Inl err, w)
      | Inr user \<Rightarrow>
          (case AuthAccount (ac_authSvc ctrl) user w of
             (Inl err, w') \<Rightarrow> (Inl err, w')
           | (Inr creds, w') \<Rightarrow> (Inr \<lparr>out_Body = creds\<rparr>, w')))"

section \<open>The middleware\<close>

text \<open>
  \<open>kr_Load\<close> is \<open>keytab.Load\<close>; \<open>kr_Authenticate kt r w\<close> is what the authenticator makes of the
  request: \<open>None\<close> when it answers itself, the accepted user name otherwise.
\<close>

record ('k, 'r, 'w) krb_lib =
  kr_Load :: "string \<Rightarrow> string + 'k"
  kr_Authenticate :: "'k \<Rightarrow> 'r \<Rightarrow> 'w \<Rightarrow> string option \<times> 'w"

text \<open>What the client gets: the authenticator's own answer or the handler's result.\<close>

datatype 'a http_result = Unauthenticated | Handled 'a

text \<open>
  A keytab that cannot be loaded ends the process, here \<open>None\<close>. Otherwise the middleware runs
  the next handler in the context extended with the principal.
\<close>

definition SPNEGO ::
  "('k, 'r, 'w) krb_lib \<Rightarrow> string \<Rightarrow>
     (http_context \<Rightarrow> (http_context \<Rightarrow> 'w \<Rightarrow> 'a \<times> 'w) \<Rightarrow> 'r \<Rightarrow> 'w \<Rightarrow> 'a http_result \<times> 'w) option" where
  "SPNEGO L keytabPath =
     (case kr_Load L keytabPath of
        Inl err \<Rightarrow> None
      | Inr kt \<Rightarrow> Some (\<lambda>ctx next r w.
          (case kr_Authenticate L kt r w of
             (None, w1) \<Rightarrow> (Unauthenticated, w1)
           | (Some user, w1) \<Rightarrow>
               (case next (ctx(PrincipalFromContextKey \<mapsto> AnyString user)) w1 of
                  (a, w2) \<Rightarrow> (Handled a, w2)))))"

text \<open>The registered operation: the handler behind the middleware.\<close>

record 'h Operation =
  op_Method :: string
  op_Path :: string
  op_OperationID :: string
  op_Handler :: 'h

definition Register ::
  "('k, 'r, 'w) krb_lib \<Rightarrow> ('c, 'w) authController \<Rightarrow>
     (http_context \<Rightarrow> 'r \<Rightarrow> 'w \<Rightarrow> (http_error + kerberosAuthOutput) http_result \<times> 'w) Operation option" where
  "Register L ctrl =
     (case SPNEGO L (env_KeytabPath (ac_env ctrl)) of
        None \<Rightarrow> None
      | Some middleware \<Rightarrow>
          Some \<lparr>op_Method = ''GET'', op_Path = ''/auth/kerberos'', op_OperationID = ''getKerberosAuth'',
            op_Handler = (\<lambda>ctx. middleware ctx (getKerberosAuth ctrl))\<rparr>)"

lemma GetPrincipal_extended:
  "GetPrincipalFromContext (ctx(PrincipalFromContextKey \<mapsto> AnyString u)) =
     (if u = '''' then Inl (Error403Forbidden ''unauthorized'') else Inr u)"
  by (simp add: GetPrincipalFromContext_def)

lemma Register_handler:
  assumes "Register L ctrl = Some op"
  obtains kt where "kr_Load L (env_KeytabPath (ac_env ctrl)) = Inr kt"
    and "op_Handler op = (\<lambda>ctx r w. case kr_Authenticate L kt r w of
        (None, w1) \<Rightarrow> (Unauthenticated, w1)
      | (Some u, w1) \<Rightarrow> (case getKerberosAuth ctrl (ctx(PrincipalFromContextKey \<mapsto> AnyString u)) w1 of
          (a, w2) \<Rightarrow> (Handled a, w2)))"
  using assms by (auto simp: Register_def SPNEGO_def split: sum.splits option.splits)

end
