(* ===== verification/Startup.thy ===== *)
theory Startup
  imports Http
begin

text \<open>
  Building the process: the injector with the providers of
  \<open>internal/services/services_init.go\<close>, the controllers of
  \<open>internal/controllers/controllers_init.go\<close>, the API description of \<open>internal/openapi\<close>, and
  \<open>apiBootstrap\<close> of \<open>cmd/api/main.go\<close> up to the point where the server listens.
\<close>

section \<open>The libraries a process is built on\<close>

text \<open>The part of the API configuration of huma that the code sets or relies on.\<close>

record Contact =
  ct_Name :: string
  ct_Email :: string

record APIServer =
  srv_URL :: string
  srv_Description :: string

record HumaConfig =
  cfg_Title :: string
  cfg_Version :: string
  cfg_Contact :: "Contact option"
  cfg_Servers :: "APIServer list"

record ('c, 'k, 'r, 'w) libs =
  lib_env :: env_libs
  lib_k8s :: "('c, 'w) k8s_libs"
  lib_NewForConfig :: "'c \<Rightarrow> string + addr"
  lib_AddEventHandler :: "addr \<Rightarrow> informer_heap \<Rightarrow> (string + unit) \<times> informer_heap"
  lib_cache :: "ldapGroupBindingService \<Rightarrow> 'w \<Rightarrow> ldapGroupBindingService"
  lib_ldap :: "'w ldap_lib"
  lib_Sprintf_other :: "string \<Rightarrow> string \<Rightarrow> string"
  lib_krb :: "('k, 'r, 'w) krb_lib"
  lib_DefaultConfig :: "string \<Rightarrow> string \<Rightarrow> HumaConfig"
  lib_crbOrder :: "string list \<Rightarrow> string list"
  lib_rbOrder :: "string list \<Rightarrow> string list"

section \<open>The injector\<close>

text \<open>
  The injector runs a provider when its service is first invoked and keeps the service it
  made. Beside the services it holds the heap of informers.
\<close>

record ('c, 'w) injector =
  inj_env :: "Env option"
  inj_k8s :: "('c, 'w) k8sService option"
  inj_serviceaccounts :: "'w serviceAccountsService option"
  inj_ldapgroupbindings :: "ldapGroupBindingService option"
  inj_ldap :: "'w ldapSvc option"
  inj_auth :: "('c, 'w) authService option"
  inj_heap :: informer_heap

text \<open>
  A computation on the injector: \<open>None\<close> is the end of the process, by a panic or \<open>os.Exit\<close>.
  \<open>MustInvoke\<close> panics when the provider fails.
\<close>

type_synonym ('c, 'w, 'a) invoke = "('c, 'w) injector \<Rightarrow> ('a \<times> ('c, 'w) injector) option"

definition and_then ::
  "('c, 'w, 'a) invoke \<Rightarrow> ('a \<Rightarrow> ('c, 'w, 'b) invoke) \<Rightarrow> ('c, 'w, 'b) invoke" where
  "and_then m f di = (case m di of None \<Rightarrow> None | Some (x, di') \<Rightarrow> f x di')"

definition MustInvoke ::
  "(('c, 'w) injector \<Rightarrow> 'a option) \<Rightarrow> ('a \<Rightarrow> ('c, 'w) injector \<Rightarrow> ('c, 'w) injector) \<Rightarrow>
     ('c, 'w, 'e + 'a) invoke \<Rightarrow> ('c, 'w, 'a) invoke" where
  "MustInvoke get keep provider di =
     (case get di of
        Some x \<Rightarrow> Some (x, di)
      | None \<Rightarrow>
          (case provider di of
             None \<Rightarrow> None
           | Some (Inl err, di') \<Rightarrow> None
           | Some (Inr x, di') \<Rightarrow> Some (x, keep x di')))"

section \<open>The providers\<close>

definition invoke_env :: "('c, 'k, 'r, 'w) libs \<Rightarrow> ('c, 'w, Env) invoke" where
  "invoke_env L = MustInvoke inj_env (\<lambda>x di. di\<lparr>inj_env := Some x\<rparr>)
     (\<lambda>di. Some (New_Env (lib_env L), di))"

definition invoke_k8s :: "('c, 'k, 'r, 'w) libs \<Rightarrow> ('c, 'w, ('c, 'w) k8sService) invoke" where
  "invoke_k8s L = MustInvoke inj_k8s (\<lambda>x di. di\<lparr>inj_k8s := Some x\<rparr>)
     (and_then (invoke_env L) (\<lambda>env di. Some (New_K8s (lib_k8s L) env, di)))"

text \<open>A constructor that cannot fail gives \<open>Inr\<close>; the error type is then arbitrary.\<close>

definition invoke_serviceaccounts :: "('c, 'k, 'r, 'w) libs \<Rightarrow> ('c, 'w, 'w serviceAccountsService) invoke" where
  "invoke_serviceaccounts L = MustInvoke inj_serviceaccounts (\<lambda>x di. di\<lparr>inj_serviceaccounts := Some x\<rparr>)
     (and_then (invoke_env L) (\<lambda>env. and_then (invoke_k8s L) (\<lambda>k8sSvc di.
        Some (Inr (New_ServiceAccounts env k8sSvc) :: unit + 'w serviceAccountsService, di))))"

definition invoke_ldapgroupbindings :: "('c, 'k, 'r, 'w) libs \<Rightarrow> ('c, 'w, ldapGroupBindingService) invoke" where
  "invoke_ldapgroupbindings L = MustInvoke inj_ldapgroupbindings (\<lambda>x di. di\<lparr>inj_ldapgroupbindings := Some x\<rparr>)
     (and_then (invoke_k8s L) (\<lambda>k8sSvc di.
        (case New_LdapGroupBindings (lib_NewForConfig L) (lib_AddEventHandler L) (GetRestConfig k8sSvc)
                (inj_heap di) of
           (r, h) \<Rightarrow> Some (r, di\<lparr>inj_heap := h\<rparr>))))"

definition invoke_ldap :: "('c, 'k, 'r, 'w) libs \<Rightarrow> ('c, 'w, 'w ldapSvc) invoke" where
  "invoke_ldap L = MustInvoke inj_ldap (\<lambda>x di. di\<lparr>inj_ldap := Some x\<rparr>)
     (and_then (invoke_env L) (\<lambda>env di.
        Some (Inr (New_Ldap env (lib_ldap L) (lib_Sprintf_other L)) :: unit + 'w ldapSvc, di)))"

text \<open>
  The service of LdapGroupBindings is an object that the informer changes while requests run,
  and the authentication service holds a pointer to it. \<open>lib_cache g\<close> reads, from the world of a
  request, the state of the object that was made as \<open>g\<close>; the informer that a service is made
  with is its own, so different services are told apart by \<open>g\<close>.
\<close>

definition invoke_auth :: "('c, 'k, 'r, 'w) libs \<Rightarrow> ('c, 'w, ('c, 'w) authService) invoke" where
  "invoke_auth L = MustInvoke inj_auth (\<lambda>x di. di\<lparr>inj_auth := Some x\<rparr>)
     (and_then (invoke_env L) (\<lambda>env.
      and_then (invoke_k8s L) (\<lambda>k8sSvc.
      and_then (invoke_serviceaccounts L) (\<lambda>serviceAccountsSvc.
      and_then (invoke_ldapgroupbindings L) (\<lambda>ldapGroupBindingsSvc.
      and_then (invoke_ldap L) (\<lambda>ldapSvc di.
        Some (Inr (New_Auth env k8sSvc serviceAccountsSvc (lib_cache L ldapGroupBindingsSvc) ldapSvc
          (lib_crbOrder L) (lib_rbOrder L)) :: unit + ('c, 'w) authService, di)))))))"

text \<open>\<open>InitServices\<close> only registers the providers: no service is made yet.\<close>

definition InitServices :: "informer_heap \<Rightarrow> ('c, 'w) injector" where
  "InitServices h = \<lparr>inj_env = None, inj_k8s = None, inj_serviceaccounts = None,
     inj_ldapgroupbindings = None, inj_ldap = None, inj_auth = None, inj_heap = h\<rparr>"

section \<open>The API\<close>

type_synonym ('r, 'w) operation =
  "(http_context \<Rightarrow> 'r \<Rightarrow> 'w \<Rightarrow> (http_error + kerberosAuthOutput) http_result \<times> 'w) Operation"

record ('r, 'w) API =
  api_Config :: HumaConfig
  api_Operations :: "('r, 'w) operation list"

text \<open>\<open>Init\<close> of the controller: its services and the registration of its operation.\<close>

definition Init ::
  "('c, 'k, 'r, 'w) libs \<Rightarrow> ('r, 'w) API \<Rightarrow> ('c, 'w, ('r, 'w) API) invoke" where
  "Init L api =
     and_then (invoke_auth L) (\<lambda>authSvc.
     and_then (invoke_env L) (\<lambda>env di.
       (case Register (lib_krb L) \<lparr>ac_authSvc = authSvc, ac_env = env\<rparr> of
          None \<Rightarrow> None
        | Some operation \<Rightarrow> Some (api\<lparr>api_Operations := api_Operations api @ [operation]\<rparr>, di))))"

definition controllersList :: "('c, 'k, 'r, 'w) libs \<Rightarrow> (('r, 'w) API \<Rightarrow> ('c, 'w, ('r, 'w) API) invoke) list" where
  "controllersList L = [Init L]"

fun init_controllers ::
  "(('r, 'w) API \<Rightarrow> ('c, 'w, ('r, 'w) API) invoke) list \<Rightarrow> ('r, 'w) API \<Rightarrow> ('c, 'w, ('r, 'w) API) invoke" where
  "init_controllers [] api di = Some (api, di)"
| "init_controllers (controller # controllers) api di =
     and_then (controller api) (init_controllers controllers) di"

definition ControllersInit ::
  "('c, 'k, 'r, 'w) libs \<Rightarrow> ('r, 'w) API \<Rightarrow> ('c, 'w, ('r, 'w) API) invoke" where
  "ControllersInit L api = init_controllers (controllersList L) api"

definition WithOverviewDoc :: "HumaConfig \<Rightarrow> HumaConfig" where
  "WithOverviewDoc humaConfig =
     humaConfig\<lparr>cfg_Contact := Some \<lparr>ct_Name = ''Froz'', ct_Email = ''froz@theomatis.fr''\<rparr>\<rparr>"

definition WithServers :: "HumaConfig \<Rightarrow> Env \<Rightarrow> HumaConfig" where
  "WithServers humaConfig config =
     humaConfig\<lparr>cfg_Servers := [\<lparr>srv_URL = env_APIPrefix config, srv_Description = ''Current Server''\<rparr>]\<rparr>"

section \<open>The server\<close>

record http_response =
  resp_Status :: nat
  resp_Body :: string

text \<open>\<open>http.Error\<close> ends the body with a newline.\<close>

definition notFoundHandler :: "'r \<Rightarrow> http_response" where
  "notFoundHandler r = \<lparr>resp_Status = 404, resp_Body = ''404 page not found'' @ [CHR 0x0A]\<rparr>"

text \<open>A router under a prefix: the API and the route that hides its documentation page.\<close>

record ('r, 'w) router =
  rt_API :: "('r, 'w) API"
  rt_Get :: "(string \<times> ('r \<Rightarrow> http_response)) list"

definition apiMux :: "('c, 'k, 'r, 'w) libs \<Rightarrow> ('c, 'w, ('r, 'w) router) invoke" where
  "apiMux L =
     and_then (invoke_env L) (\<lambda>config.
       (let humaConfig = lib_DefaultConfig L ''Kerbernetes API'' ''dev'';
            humaConfig1 = WithOverviewDoc humaConfig;
            humaConfig2 = WithServers humaConfig1 config
        in and_then (ControllersInit L \<lparr>api_Config = humaConfig2, api_Operations = []\<rparr>) (\<lambda>api di.
             Some (\<lparr>rt_API = api, rt_Get = [(''/docs'', notFoundHandler)]\<rparr>, di))))"

text \<open>
  The process that listens: its port and prefix, the routes, and the service whose \<open>Start\<close> has
  been put into a goroutine.
\<close>

record ('r, 'w) server =
  sv_Port :: goint
  sv_Prefix :: string
  sv_Router :: "('r, 'w) router"
  sv_Background :: ldapGroupBindingService

definition apiBootstrap ::
  "('c, 'k, 'r, 'w) libs \<Rightarrow> informer_heap \<Rightarrow> (('r, 'w) server \<times> ('c, 'w) injector) option" where
  "apiBootstrap L h =
     and_then (invoke_ldapgroupbindings L) (\<lambda>svc.
     and_then (invoke_env L) (\<lambda>env.
     and_then (apiMux L) (\<lambda>router di.
       Some (\<lparr>sv_Port = env_HTTPPort env, sv_Prefix = env_APIPrefix env, sv_Router = router,
               sv_Background = svc\<rparr>, di))))
     (InitServices h)"

text \<open>
  The goroutine calls \<open>Start\<close> with the background context, which never ends, and exits the
  process when it gets an error.
\<close>

definition background_exits ::
  "(rtype list \<Rightarrow> rtype list) \<Rightarrow> (addr \<Rightarrow> bool) \<Rightarrow> ldapGroupBindingService \<Rightarrow> informer_heap \<Rightarrow> bool" where
  "background_exits ord synced svc h =
     (case Start ord synced False svc h of (Returned (Inl err), _) \<Rightarrow> True | _ \<Rightarrow> False)"

end
