(* ===== verification/Wiring.thy ===== *)
theory Wiring
  imports Startup
begin

text \<open>
  What the injector has made: every service is built once, from the one environment and the
  one Kubernetes service, and a process that listens is made of exactly these.
\<close>

lemma MustInvoke_run:
  assumes "MustInvoke get keep provider di = Some (x, di')"
  obtains "get di = Some x" and "di' = di"
  | di1 where "get di = None" and "provider di = Some (Inr x, di1)" and "di' = keep x di1"
  using assms by (auto simp: MustInvoke_def split: option.splits sum.splits)

lemma and_then_run:
  assumes "and_then m f di = Some (y, di')"
  obtains x di1 where "m di = Some (x, di1)" and "f x di1 = Some (y, di')"
  using assms by (auto simp: and_then_def split: option.splits)

definition made :: "('c, 'k, 'r, 'w) libs \<Rightarrow> informer_heap \<Rightarrow> ('c, 'w) injector \<Rightarrow> bool" where
  "made L h di \<longleftrightarrow>
     (\<forall>e. inj_env di = Some e \<longrightarrow> New_Env (lib_env L) = Inr e) \<and>
     (\<forall>k. inj_k8s di = Some k \<longrightarrow> (\<exists>e. inj_env di = Some e \<and> New_K8s (lib_k8s L) e = Inr k)) \<and>
     (\<forall>a. inj_serviceaccounts di = Some a \<longrightarrow>
        (\<exists>e k. inj_env di = Some e \<and> inj_k8s di = Some k \<and> a = New_ServiceAccounts e k)) \<and>
     (\<forall>l. inj_ldap di = Some l \<longrightarrow>
        (\<exists>e. inj_env di = Some e \<and> l = New_Ldap e (lib_ldap L) (lib_Sprintf_other L))) \<and>
     (inj_ldapgroupbindings di = None \<longrightarrow> inj_heap di = h) \<and>
     (\<forall>g. inj_ldapgroupbindings di = Some g \<longrightarrow>
        (\<exists>k. inj_k8s di = Some k \<and>
           New_LdapGroupBindings (lib_NewForConfig L) (lib_AddEventHandler L) (GetRestConfig k) h
             = (Inr g, inj_heap di))) \<and>
     (\<forall>s. inj_auth di = Some s \<longrightarrow>
        (\<exists>e k a l g. inj_env di = Some e \<and> inj_k8s di = Some k \<and> inj_serviceaccounts di = Some a \<and>
           inj_ldap di = Some l \<and> inj_ldapgroupbindings di = Some g \<and>
           s = New_Auth e k a (lib_cache L g) l (lib_crbOrder L) (lib_rbOrder L)))"

lemma InitServices_made: "made L h (InitServices h)"
  by (simp add: made_def InitServices_def)

text \<open>What each invocation leaves.\<close>

lemma invoke_env_run:
  assumes "invoke_env L di = Some (e, di')" and "made L h di"
  shows "made L h di'" and "di' = di\<lparr>inj_env := Some e\<rparr>"
  using assms by (auto simp: invoke_env_def made_def elim!: MustInvoke_run)

lemma invoke_k8s_run:
  assumes "invoke_k8s L di = Some (k, di')" and "made L h di"
  shows "made L h di'" and "\<exists>e. di' = di\<lparr>inj_env := Some e, inj_k8s := Some k\<rparr>"
proof -
  have "made L h di' \<and> (\<exists>e. di' = di\<lparr>inj_env := Some e, inj_k8s := Some k\<rparr>)"
    using assms(1) unfolding invoke_k8s_def
  proof (cases rule: MustInvoke_run)
    case 1
    then obtain e where "inj_env di = Some e" using assms(2) by (auto simp: made_def)
    then have "di = di\<lparr>inj_env := Some e, inj_k8s := Some k\<rparr>" using 1 by simp
    then show ?thesis using 1 assms(2) by metis
  next
    case (2 di1)
    then obtain e where e: "invoke_env L di = Some (e, di1)" "New_K8s (lib_k8s L) e = Inr k"
      by (auto elim!: and_then_run)
    have "made L h di1" "di1 = di\<lparr>inj_env := Some e\<rparr>" using invoke_env_run [OF e(1) assms(2)] by simp_all
    then show ?thesis using 2 e(2) by (auto simp: made_def)
  qed
  then show "made L h di'" and "\<exists>e. di' = di\<lparr>inj_env := Some e, inj_k8s := Some k\<rparr>" by simp_all
qed

lemma invoke_serviceaccounts_run:
  assumes "invoke_serviceaccounts L di = Some (a, di')" and "made L h di"
  shows "made L h di'" and "\<exists>e k. di' = di\<lparr>inj_env := Some e, inj_k8s := Some k, inj_serviceaccounts := Some a\<rparr>"
proof -
  have "made L h di' \<and> (\<exists>e k. di' = di\<lparr>inj_env := Some e, inj_k8s := Some k, inj_serviceaccounts := Some a\<rparr>)"
    using assms(1) unfolding invoke_serviceaccounts_def
  proof (cases rule: MustInvoke_run)
    case 1
    then obtain e k where "inj_env di = Some e" "inj_k8s di = Some k" using assms(2) by (auto simp: made_def)
    then have "di = di\<lparr>inj_env := Some e, inj_k8s := Some k, inj_serviceaccounts := Some a\<rparr>" using 1 by simp
    then show ?thesis using 1 assms(2) by metis
  next
    case (2 di1)
    then obtain e k di0 where e: "invoke_env L di = Some (e, di0)" and k: "invoke_k8s L di0 = Some (k, di1)"
      and a: "a = New_ServiceAccounts e k"
      by (auto elim!: and_then_run)
    note env = invoke_env_run [OF e assms(2)]
    note k8s = invoke_k8s_run [OF k env(1)]
    obtain e' where "di1 = di0\<lparr>inj_env := Some e', inj_k8s := Some k\<rparr>" using k8s(2) by blast
    moreover from this have "e' = e" using env k8s(1) by (simp add: made_def)
    ultimately show ?thesis using 2 a env(2) k8s(1) by (auto simp: made_def)
  qed
  then show "made L h di'"
    and "\<exists>e k. di' = di\<lparr>inj_env := Some e, inj_k8s := Some k, inj_serviceaccounts := Some a\<rparr>" by simp_all
qed

lemma invoke_ldap_run:
  assumes "invoke_ldap L di = Some (l, di')" and "made L h di"
  shows "made L h di'" and "\<exists>e. di' = di\<lparr>inj_env := Some e, inj_ldap := Some l\<rparr>"
proof -
  have "made L h di' \<and> (\<exists>e. di' = di\<lparr>inj_env := Some e, inj_ldap := Some l\<rparr>)"
    using assms(1) unfolding invoke_ldap_def
  proof (cases rule: MustInvoke_run)
    case 1
    then obtain e where "inj_env di = Some e" using assms(2) by (auto simp: made_def)
    then have "di = di\<lparr>inj_env := Some e, inj_ldap := Some l\<rparr>" using 1 by simp
    then show ?thesis using 1 assms(2) by metis
  next
    case (2 di1)
    then obtain e where e: "invoke_env L di = Some (e, di1)" and l: "l = New_Ldap e (lib_ldap L) (lib_Sprintf_other L)"
      by (auto elim!: and_then_run)
    have "made L h di1" "di1 = di\<lparr>inj_env := Some e\<rparr>" using invoke_env_run [OF e assms(2)] by simp_all
    then show ?thesis using 2 l by (auto simp: made_def)
  qed
  then show "made L h di'" and "\<exists>e. di' = di\<lparr>inj_env := Some e, inj_ldap := Some l\<rparr>" by simp_all
qed

lemma invoke_ldapgroupbindings_run:
  assumes "invoke_ldapgroupbindings L di = Some (g, di')" and "made L h di"
  shows "made L h di'"
    and "\<exists>e k i. di' = di\<lparr>inj_env := Some e, inj_k8s := Some k, inj_ldapgroupbindings := Some g, inj_heap := i\<rparr>"
proof -
  have "made L h di' \<and> (\<exists>e k i. di' = di\<lparr>inj_env := Some e, inj_k8s := Some k,
      inj_ldapgroupbindings := Some g, inj_heap := i\<rparr>)"
    using assms(1) unfolding invoke_ldapgroupbindings_def
  proof (cases rule: MustInvoke_run)
    case 1
    then obtain e k where "inj_env di = Some e" "inj_k8s di = Some k" using assms(2) by (auto simp: made_def)
    then have "di = di\<lparr>inj_env := Some e, inj_k8s := Some k, inj_ldapgroupbindings := Some g, inj_heap := inj_heap di\<rparr>"
      using 1 by simp
    then show ?thesis using 1 assms(2) by metis
  next
    case (2 di1)
    then obtain k di0 i where k: "invoke_k8s L di = Some (k, di0)" and di1: "di1 = di0\<lparr>inj_heap := i\<rparr>"
      and g: "New_LdapGroupBindings (lib_NewForConfig L) (lib_AddEventHandler L) (GetRestConfig k) (inj_heap di0) = (Inr g, i)"
      by (auto elim!: and_then_run split: prod.splits)
    note k8s = invoke_k8s_run [OF k assms(2)]
    obtain e where di0: "di0 = di\<lparr>inj_env := Some e, inj_k8s := Some k\<rparr>" using k8s(2) by blast
    have "inj_ldapgroupbindings di0 = None" "inj_heap di0 = h" "inj_auth di0 = None"
      using 2(1) di0 k8s(1) assms(2) by (auto simp: made_def)
    then have "made L h di'" using 2(3) di1 di0 g k8s(1) by (auto simp: made_def)
    moreover have "di' = di\<lparr>inj_env := Some e, inj_k8s := Some k, inj_ldapgroupbindings := Some g, inj_heap := i\<rparr>"
      using 2(3) di1 di0 by simp
    ultimately show ?thesis by blast
  qed
  then show "made L h di'"
    and "\<exists>e k i. di' = di\<lparr>inj_env := Some e, inj_k8s := Some k, inj_ldapgroupbindings := Some g, inj_heap := i\<rparr>"
    by simp_all
qed

lemma ldapgroupbindings_again:
  assumes "inj_ldapgroupbindings di = Some g" and "invoke_ldapgroupbindings L di = Some (g', di')"
  shows "g' = g" "di' = di"
  using assms by (simp_all add: invoke_ldapgroupbindings_def MustInvoke_def)

lemma invoke_auth_run:
  assumes "invoke_auth L di = Some (s, di')" and "made L h di"
  shows "made L h di'" and "inj_auth di' = Some s"
    and "inj_ldapgroupbindings di = Some g \<Longrightarrow> inj_ldapgroupbindings di' = Some g"
proof -
  have "made L h di' \<and> inj_auth di' = Some s \<and>
      (inj_ldapgroupbindings di = Some g \<longrightarrow> inj_ldapgroupbindings di' = Some g)"
    using assms(1) unfolding invoke_auth_def
  proof (cases rule: MustInvoke_run)
    case 1
    then show ?thesis using assms(2) by simp
  next
    case (2 di5)
    then obtain e di1 k di2 a di3 b di4 l where
      e: "invoke_env L di = Some (e, di1)" and k: "invoke_k8s L di1 = Some (k, di2)"
      and a: "invoke_serviceaccounts L di2 = Some (a, di3)"
      and b: "invoke_ldapgroupbindings L di3 = Some (b, di4)"
      and l: "invoke_ldap L di4 = Some (l, di5)"
      and s: "s = New_Auth e k a (lib_cache L b) l (lib_crbOrder L) (lib_rbOrder L)"
      by (auto elim!: and_then_run)
    note env = invoke_env_run [OF e assms(2)]
    note k8s = invoke_k8s_run [OF k env(1)]
    note sa = invoke_serviceaccounts_run [OF a k8s(1)]
    note lgb = invoke_ldapgroupbindings_run [OF b sa(1)]
    note ldap = invoke_ldap_run [OF l lgb(1)]
    obtain e1 e2 k2 e3 k3 i e4 where
      u1: "di2 = di1\<lparr>inj_env := Some e1, inj_k8s := Some k\<rparr>"
      and u2: "di3 = di2\<lparr>inj_env := Some e2, inj_k8s := Some k2, inj_serviceaccounts := Some a\<rparr>"
      and u3: "di4 = di3\<lparr>inj_env := Some e3, inj_k8s := Some k3, inj_ldapgroupbindings := Some b, inj_heap := i\<rparr>"
      and u4: "di5 = di4\<lparr>inj_env := Some e4, inj_ldap := Some l\<rparr>"
      using k8s(2) sa(2) lgb(2) ldap(2) by blast
    have es: "e1 = e" "e2 = e" "e3 = e" "e4 = e"
      using env k8s(1) sa(1) lgb(1) ldap(1) u1 u2 u3 u4 by (auto simp: made_def)
    have ks: "k2 = k" "k3 = k"
      using k8s(1) sa(1) lgb(1) u1 u2 u3 es by (auto simp: made_def)
    have "made L h di'"
      using ldap(1) 2(3) s es ks u1 u2 u3 u4 by (auto simp: made_def)
    moreover have "inj_ldapgroupbindings di = Some g \<Longrightarrow> b = g"
      using ldapgroupbindings_again(1) [of di3 g L b di4] b env(2) u1 u2 by simp
    ultimately show ?thesis using 2(3) u3 u4 by auto
  qed
  then show "made L h di'" and "inj_auth di' = Some s"
    and "inj_ldapgroupbindings di = Some g \<Longrightarrow> inj_ldapgroupbindings di' = Some g" by simp_all
qed

section \<open>A process that listens\<close>

text \<open>\<open>Register_handler\<close> for the operation the API ends up with.\<close>

lemma Init_run:
  assumes "Init L api di = Some (api', di')" and "made L h di"
  obtains s e operation where "made L h di'" and "inj_auth di' = Some s" and "inj_env di' = Some e"
    and "Register (lib_krb L) \<lparr>ac_authSvc = s, ac_env = e\<rparr> = Some operation"
    and "api' = api\<lparr>api_Operations := api_Operations api @ [operation]\<rparr>"
    and "\<And>g. inj_ldapgroupbindings di = Some g \<Longrightarrow> inj_ldapgroupbindings di' = Some g"
proof -
  obtain s di1 e operation where s: "invoke_auth L di = Some (s, di1)" and e: "invoke_env L di1 = Some (e, di')"
    and r: "Register (lib_krb L) \<lparr>ac_authSvc = s, ac_env = e\<rparr> = Some operation"
    and api: "api' = api\<lparr>api_Operations := api_Operations api @ [operation]\<rparr>"
    using assms(1) by (auto simp: Init_def elim!: and_then_run split: option.splits)
  note auth = invoke_auth_run [OF s assms(2)]
  note env = invoke_env_run [OF e auth(1)]
  show thesis using that [OF env(1) _ _ r api] auth env(2) by simp
qed

lemma apiBootstrap_run:
  assumes "apiBootstrap L h = Some (server, di)"
  obtains s e g operation where "made L h di" and "inj_auth di = Some s" and "inj_env di = Some e"
    and "inj_ldapgroupbindings di = Some g" and "sv_Background server = g"
    and "Register (lib_krb L) \<lparr>ac_authSvc = s, ac_env = e\<rparr> = Some operation"
    and "sv_Port server = env_HTTPPort e" and "sv_Prefix server = env_APIPrefix e"
    and "sv_Router server = \<lparr>rt_API = \<lparr>api_Config =
        WithServers (WithOverviewDoc (lib_DefaultConfig L ''Kerbernetes API'' ''dev'')) e,
        api_Operations = [operation]\<rparr>, rt_Get = [(''/docs'', notFoundHandler)]\<rparr>"
proof -
  obtain g di1 e di2 router where g: "invoke_ldapgroupbindings L (InitServices h) = Some (g, di1)"
    and e: "invoke_env L di1 = Some (e, di2)" and router: "apiMux L di2 = Some (router, di)"
    and server: "server = \<lparr>sv_Port = env_HTTPPort e, sv_Prefix = env_APIPrefix e, sv_Router = router, sv_Background = g\<rparr>"
    using assms by (auto simp: apiBootstrap_def elim!: and_then_run)
  note lgb = invoke_ldapgroupbindings_run [OF g InitServices_made]
  note env = invoke_env_run [OF e lgb(1)]
  obtain e' di3 api where e': "invoke_env L di2 = Some (e', di3)"
    and api: "Init L \<lparr>api_Config = WithServers (WithOverviewDoc (lib_DefaultConfig L ''Kerbernetes API'' ''dev'')) e',
        api_Operations = []\<rparr> di3 = Some (api, di)"
    and r: "router = \<lparr>rt_API = api, rt_Get = [(''/docs'', notFoundHandler)]\<rparr>"
    using router by (auto simp: apiMux_def ControllersInit_def controllersList_def Let_def elim!: and_then_run)
  note env' = invoke_env_run [OF e' env(1)]
  have "inj_env di2 = Some e" using env(2) by simp
  then have same: "e' = e" using env(1) env' by (auto simp: made_def)
  have lgb2: "inj_ldapgroupbindings di3 = Some g" using lgb(2) env(2) env'(2) by auto
  from api env'(1) show thesis
  proof (rule Init_run)
    fix s e'' operation
    assume init: "made L h di" "inj_auth di = Some s" "inj_env di = Some e''"
      "Register (lib_krb L) \<lparr>ac_authSvc = s, ac_env = e''\<rparr> = Some operation"
      "api = \<lparr>api_Config = WithServers (WithOverviewDoc (lib_DefaultConfig L ''Kerbernetes API'' ''dev'')) e',
        api_Operations = []\<rparr>\<lparr>api_Operations := api_Operations \<lparr>api_Config = WithServers
          (WithOverviewDoc (lib_DefaultConfig L ''Kerbernetes API'' ''dev'')) e', api_Operations = []\<rparr> @ [operation]\<rparr>"
      "\<And>g. inj_ldapgroupbindings di3 = Some g \<Longrightarrow> inj_ldapgroupbindings di = Some g"
    have "New_Env (lib_env L) = Inr e''" "New_Env (lib_env L) = Inr e"
      using init(1,3) env(1) \<open>inj_env di2 = Some e\<close> by (auto simp: made_def)
    then have "e'' = e" by simp
    then show thesis using that [OF init(1-3)] init(4-6) lgb2 server r same by simp
  qed
qed

end
