(* ===== verification/Informer.thy ===== *)
theory Informer
  imports LdapGroupBindings
begin

text \<open>
  The cache of LdapGroupBindings over time. The API server holds the objects; from the moment
  the informer has listed them it queues a notification for every change, and delivers them
  one by one to the handlers of \<open>initInformer\<close>. A deletion that the informer missed, because
  its watch was interrupted, is notified later with a tombstone. The queue and these rules
  are the documented behaviour of the informer library; the handlers are the code's.
\<close>

section \<open>The step relation\<close>

record cluster =
  cl_objects :: "string \<Rightarrow> LdapGroupBinding option"
  cl_listed :: bool
  cl_queue :: "event list"
  cl_svc :: ldapGroupBindingService
  cl_panicked :: bool

definition notify :: "event \<Rightarrow> cluster \<Rightarrow> cluster" where
  "notify e c = (if cl_listed c then c\<lparr>cl_queue := cl_queue c @ [e]\<rparr> else c)"

inductive informer_step :: "(nat \<Rightarrow> nat) \<Rightarrow> cluster \<Rightarrow> cluster \<Rightarrow> bool" for extra where
  create: "cl_objects c (lgb_Name b) = None \<Longrightarrow>
    informer_step extra c (notify (AddFunc (Obj b)) (c\<lparr>cl_objects := (cl_objects c)(lgb_Name b \<mapsto> b)\<rparr>))"
| modify: "cl_objects c (lgb_Name b) = Some old \<Longrightarrow>
    informer_step extra c
      (notify (UpdateFunc (Obj old) (Obj b)) (c\<lparr>cl_objects := (cl_objects c)(lgb_Name b \<mapsto> b)\<rparr>))"
| remove: "cl_objects c n = Some old \<Longrightarrow>
    informer_step extra c (notify (DeleteFunc (Obj old)) (c\<lparr>cl_objects := (cl_objects c)(n := None)\<rparr>))"
| missed: "cl_objects c n = Some old \<Longrightarrow>
    informer_step extra c
      (notify (DeleteFunc (DeletedFinalStateUnknown n (Some old))) (c\<lparr>cl_objects := (cl_objects c)(n := None)\<rparr>))"
| list: "\<not> cl_listed c \<Longrightarrow> distinct (map lgb_Name bs) \<Longrightarrow> by_name bs = cl_objects c \<Longrightarrow>
    informer_step extra c (c\<lparr>cl_listed := True, cl_queue := map (\<lambda>b. AddFunc (Obj b)) bs\<rparr>)"
| deliver: "\<not> cl_panicked c \<Longrightarrow> cl_queue c = e # es \<Longrightarrow> initInformer extra e (cl_svc c) = Some svc \<Longrightarrow>
    informer_step extra c (c\<lparr>cl_queue := es, cl_svc := svc\<rparr>)"
| panic: "\<not> cl_panicked c \<Longrightarrow> cl_queue c = e # es \<Longrightarrow> initInformer extra e (cl_svc c) = None \<Longrightarrow>
    informer_step extra c (c\<lparr>cl_panicked := True\<rparr>)"

inductive_cases informer_stepE: "informer_step extra c c'"

text \<open>A process starts with an empty cache, in a cluster with any objects under their names.\<close>

definition fresh_cluster :: "LdapGroupBinding list \<Rightarrow> cluster" where
  "fresh_cluster bs = \<lparr>cl_objects = by_name bs, cl_listed = False, cl_queue = [],
     cl_svc = initial_service 0, cl_panicked = False\<rparr>"

inductive informer_reach :: "(nat \<Rightarrow> nat) \<Rightarrow> LdapGroupBinding list \<Rightarrow> cluster \<Rightarrow> bool" for extra bs where
  start: "informer_reach extra bs (fresh_cluster bs)"
| step: "informer_reach extra bs c \<Longrightarrow> informer_step extra c c' \<Longrightarrow> informer_reach extra bs c'"

section \<open>The queue\<close>

text \<open>
  \<open>leads q m m'\<close>: the notifications take the objects from \<open>m\<close> to \<open>m'\<close>, and an addition is
  about a new object.
\<close>

fun leads :: "event list \<Rightarrow> (string \<Rightarrow> LdapGroupBinding option) \<Rightarrow> (string \<Rightarrow> LdapGroupBinding option) \<Rightarrow> bool" where
  "leads [] m m' \<longleftrightarrow> m = m'"
| "leads (AddFunc (Obj b) # q) m m' \<longleftrightarrow> m (lgb_Name b) = None \<and> leads q (m(lgb_Name b \<mapsto> b)) m'"
| "leads (AddFunc (DeletedFinalStateUnknown _ _) # q) m m' \<longleftrightarrow> False"
| "leads (UpdateFunc _ (Obj b) # q) m m' \<longleftrightarrow> leads q (m(lgb_Name b \<mapsto> b)) m'"
| "leads (UpdateFunc _ (DeletedFinalStateUnknown _ _) # q) m m' \<longleftrightarrow> False"
| "leads (DeleteFunc (Obj b) # q) m m' \<longleftrightarrow> leads q (m(lgb_Name b := None)) m'"
| "leads (DeleteFunc (DeletedFinalStateUnknown n _) # q) m m' \<longleftrightarrow> leads q (m(n := None)) m'"

lemma leads_append: "leads p m m1 \<Longrightarrow> leads q m1 m2 \<Longrightarrow> leads (p @ q) m m2"
  by (induction p m m1 rule: leads.induct) auto

lemma leads_tail: "leads (e # q) m m' \<Longrightarrow> \<exists>m1. leads q m1 m'"
  by (induction "e # q" m m' rule: leads.induct) auto

lemma leads_adds:
  assumes "distinct (map lgb_Name bs)" and "\<forall>b\<in>set bs. m (lgb_Name b) = None"
  shows "leads (map (\<lambda>b. AddFunc (Obj b)) bs) m (m ++ by_name bs)"
  using assms
proof (induction bs arbitrary: m)
  case Nil
  then show ?case by (simp add: by_name_def)
next
  case (Cons b bs)
  have "lgb_Name b \<notin> lgb_Name ` set bs" using Cons.prems(1) by simp
  then have "m(lgb_Name b \<mapsto> b) ++ by_name bs = m ++ by_name (b # bs)"
    using by_name_None [of bs "lgb_Name b"]
    by (auto simp: by_name_def map_add_def fun_eq_iff split: option.splits)
  moreover have "leads (map (\<lambda>b. AddFunc (Obj b)) bs) (m(lgb_Name b \<mapsto> b)) (m(lgb_Name b \<mapsto> b) ++ by_name bs)"
    by (rule Cons.IH) (use Cons.prems in \<open>auto simp: image_iff\<close>)
  ultimately show ?case using Cons.prems(2) by simp
qed

section \<open>The invariant\<close>

definition informer_inv :: "cluster \<Rightarrow> bool" where
  "informer_inv c \<longleftrightarrow>
     (\<forall>n b. cl_objects c n = Some b \<longrightarrow> lgb_Name b = n) \<and>
     (\<not> cl_listed c \<longrightarrow> cl_queue c = [] \<and> lgb.mirrors (cl_svc c) Map.empty) \<and>
     (\<exists>m. lgb.mirrors (cl_svc c) m \<and> (cl_listed c \<longrightarrow> leads (cl_queue c) m (cl_objects c)))"

lemma initial_mirrors: "lgb.mirrors (initial_service 0) Map.empty"
  using initial_cached by (simp add: lgb.mirrors_def by_name_def)

lemma fresh_inv: "informer_inv (fresh_cluster bs)"
  using initial_mirrors
  by (auto simp: informer_inv_def fresh_cluster_def dest: by_name_Some)

text \<open>A delivered notification takes the cache along.\<close>

lemma deliver_mirrors:
  assumes "initInformer extra e svc = Some svc'" and "lgb.mirrors svc m" and "leads (e # q) m m'"
  shows "\<exists>m1. lgb.mirrors svc' m1 \<and> leads q m1 m'"
proof (cases e)
  case (AddFunc obj)
  then show ?thesis using assms lgb.mirrors_add [of svc m] by (cases obj) auto
next
  case (UpdateFunc old obj)
  then show ?thesis using assms lgb.mirrors_update [of svc m] by (cases obj) auto
next
  case (DeleteFunc obj)
  then show ?thesis using assms lgb.mirrors_delete [of svc m] by (cases obj) auto
qed

lemma notify_inv:
  assumes inv: "informer_inv c" and e: "leads [e] (cl_objects c) objs"
    and objs: "\<And>n b. objs n = Some b \<Longrightarrow> lgb_Name b = n"
  shows "informer_inv (notify e (c\<lparr>cl_objects := objs\<rparr>))"
proof (cases "cl_listed c")
  case True
  then obtain m where "lgb.mirrors (cl_svc c) m" "leads (cl_queue c) m (cl_objects c)"
    using inv by (auto simp: informer_inv_def)
  then have "leads (cl_queue c @ [e]) m objs" using leads_append e by blast
  then show ?thesis
    using True objs \<open>lgb.mirrors (cl_svc c) m\<close> by (auto simp: informer_inv_def notify_def)
next
  case False
  then show ?thesis using inv objs by (auto simp: informer_inv_def notify_def)
qed

lemma step_inv: "informer_step extra c c' \<Longrightarrow> informer_inv c \<Longrightarrow> informer_inv c'"
proof (induction rule: informer_step.induct)
  case (create c b)
  then show ?case by (intro notify_inv) (auto simp: informer_inv_def split: if_splits)
next
  case (modify c b old)
  then show ?case by (intro notify_inv) (auto simp: informer_inv_def split: if_splits)
next
  case (remove c n old)
  then have "lgb_Name old = n" by (simp add: informer_inv_def)
  then show ?case using remove by (intro notify_inv) (auto simp: informer_inv_def split: if_splits)
next
  case (missed c n old)
  then show ?case by (intro notify_inv) (auto simp: informer_inv_def split: if_splits)
next
  case (list c bs)
  then have "lgb.mirrors (cl_svc c) Map.empty" by (simp add: informer_inv_def)
  moreover have "leads (map (\<lambda>b. AddFunc (Obj b)) bs) Map.empty (cl_objects c)"
    using leads_adds [OF list(2), of Map.empty] list(3) by simp
  ultimately show ?case using list by (auto simp: informer_inv_def)
next
  case (deliver c e es svc)
  have listed: "cl_listed c" using deliver by (auto simp: informer_inv_def)
  then obtain m where "lgb.mirrors (cl_svc c) m" "leads (e # es) m (cl_objects c)"
    using deliver by (auto simp: informer_inv_def)
  then show ?case
    using deliver_mirrors [OF deliver(3)] deliver listed by (auto simp: informer_inv_def)
next
  case (panic c e es)
  then show ?case by (auto simp: informer_inv_def)
qed

lemma reach_inv: "informer_reach extra bs c \<Longrightarrow> informer_inv c"
  by (induction rule: informer_reach.induct) (auto intro: fresh_inv step_inv)

lemma steps_inv: "(informer_step extra)\<^sup>*\<^sup>* c c' \<Longrightarrow> informer_inv c \<Longrightarrow> informer_inv c'"
  by (induction rule: rtranclp_induct) (auto intro: step_inv)

text \<open>A cache whose informer has listed the objects and delivered all notifications.\<close>

lemma synced_cache:
  assumes "informer_inv c" and "cl_listed c" and "cl_queue c = []"
  shows "set (cached (cl_svc c)) = ran (cl_objects c)" and "distinct (map lgb_Name (cached (cl_svc c)))"
proof -
  have m: "lgb.mirrors (cl_svc c) (cl_objects c)" using assms by (auto simp: informer_inv_def)
  then have "by_name (cached (cl_svc c)) = cl_objects c" and d: "distinct (map lgb_Name (cached (cl_svc c)))"
    by (simp_all add: lgb.mirrors_def)
  then have "cl_objects c = map_of (map (\<lambda>b. (lgb_Name b, b)) (cached (cl_svc c)))" by (simp add: by_name_def)
  moreover have "ran (map_of (map (\<lambda>b. (lgb_Name b, b)) (cached (cl_svc c)))) = set (cached (cl_svc c))"
    using d by (simp add: ran_distinct comp_def image_image)
  ultimately show "set (cached (cl_svc c)) = ran (cl_objects c)" and "distinct (map lgb_Name (cached (cl_svc c)))"
    using d by (simp_all only: simp_thms)
qed

text \<open>Without a tombstone in its queue an informer can deliver everything.\<close>

fun tombstone :: "event \<Rightarrow> bool" where
  "tombstone (DeleteFunc (DeletedFinalStateUnknown key obj)) \<longleftrightarrow> True"
| "tombstone e \<longleftrightarrow> False"

lemma handled_unless_tombstone:
  "leads (e # q) m m' \<Longrightarrow> \<not> tombstone e \<Longrightarrow> \<exists>svc'. initInformer extra e svc = Some svc'"
  by (induction "e # q" m m' rule: leads.induct) auto

lemma deliver_all:
  assumes "leads (cl_queue c) m m'" and "list_all (\<lambda>e. \<not> tombstone e) (cl_queue c)" and "\<not> cl_panicked c"
  shows "\<exists>svc. (informer_step extra)\<^sup>*\<^sup>* c (c\<lparr>cl_queue := [], cl_svc := svc\<rparr>)"
  using assms
proof (induction "cl_queue c" arbitrary: c m)
  case Nil
  then have "c\<lparr>cl_queue := [], cl_svc := cl_svc c\<rparr> = c" by simp
  then show ?case by (metis rtranclp.rtrancl_refl)
next
  case (Cons e es)
  note q = Cons.hyps(2) [symmetric]
  have "leads (e # es) m m'" using Cons.prems(1) q by simp
  moreover have e: "\<not> tombstone e" "list_all (\<lambda>e. \<not> tombstone e) es" using Cons.prems(2) q by simp_all
  ultimately obtain svc' m1 where svc': "initInformer extra e (cl_svc c) = Some svc'" and m1: "leads es m1 m'"
    using handled_unless_tombstone leads_tail by metis
  let ?c = "c\<lparr>cl_queue := es, cl_svc := svc'\<rparr>"
  have step: "informer_step extra c ?c" by (rule informer_step.deliver) (use Cons.prems(3) q svc' in auto)
  have "\<exists>svc. (informer_step extra)\<^sup>*\<^sup>* ?c (?c\<lparr>cl_queue := [], cl_svc := svc\<rparr>)"
    by (rule Cons.hyps(1) [of _ m1]) (use m1 e Cons.prems(3) in simp_all)
  then show ?case using step by (auto intro: converse_rtranclp_into_rtranclp)
qed

section \<open>The service of a process\<close>

text \<open>The informer of a process that has been started feeds the service that \<open>Start\<close> left.\<close>

definition started_cluster :: "ldapGroupBindingService \<Rightarrow> LdapGroupBinding list \<Rightarrow> cluster" where
  "started_cluster svc bs = (fresh_cluster bs)\<lparr>cl_svc := svc\<rparr>"

lemma New_LdapGroupBindings_cache:
  assumes "New_LdapGroupBindings NewForConfig AddEventHandler c h = (Inr svc, h')"
  shows "cached svc = []" and "cache_ok svc"
proof -
  have "\<exists>cs f. svc = (initial_service cs)\<lparr>lgs_informerFactory := f\<rparr>"
    using assms by (auto simp: New_LdapGroupBindings_def Let_def split: sum.splits prod.splits)
  then show "cached svc = []" and "cache_ok svc"
    using initial_cached by (auto simp: cached_def cache_ok_def)
qed

lemma Start_cache:
  assumes "Start ord synced ctxDone svc h = (outcome, svc', h', run)"
  shows "cached svc' = cached svc" and "cache_ok svc' = cache_ok svc"
  using assms by (auto simp: Start_def Let_def cached_def cache_ok_def split: prod.splits if_splits)

lemma started_inv:
  assumes "New_LdapGroupBindings NewForConfig AddEventHandler c h = (Inr svc, h')"
    and "Start ord synced ctxDone svc h' = (outcome, svc', h'', run)"
  shows "informer_inv (started_cluster svc' bs)"
proof -
  have "lgb.mirrors svc' Map.empty"
    using New_LdapGroupBindings_cache [OF assms(1)] Start_cache [OF assms(2)] by (simp add: lgb.mirrors_def by_name_def)
  then show ?thesis
    using fresh_inv [of bs] by (auto simp: informer_inv_def started_cluster_def fresh_cluster_def)
qed

end
