(* ===== verification/MemoryServer.thy ===== *)
theory MemoryServer
  imports Auth
begin

text \<open>
  One concrete world: an API server that keeps its objects in memory, and a directory that
  answers searches from a table. They instantiate the parameters of the model in the
  examples that show the hypotheses of the theorems can hold. The server follows the
  promises of theory KubeTypes, which is proved here.
\<close>

section \<open>The world\<close>

record mem =
  mem_SA :: "((string \<times> string) \<times> ServiceAccount) list"
  mem_CRB :: "((unit \<times> string) \<times> rbac_binding) list"
  mem_RB :: "((string \<times> string) \<times> rbac_binding) list"
  mem_cache :: ldapGroupBindingService
  mem_conns :: nat

section \<open>Stored bindings\<close>

definition default_ref :: "RoleRef \<Rightarrow> RoleRef" where
  "default_ref r =
     (if rr_APIGroup r = '''' then r\<lparr>rr_APIGroup := ''rbac.authorization.k8s.io''\<rparr> else r)"

text \<open>An object as the server returns it: under its key, with the API group filled in.\<close>

definition stamp :: "('s \<Rightarrow> string) \<Rightarrow> 's \<times> string \<Rightarrow> rbac_binding \<Rightarrow> rbac_binding" where
  "stamp ns k b =
     b\<lparr>rb_ObjectMeta := (rb_ObjectMeta b)\<lparr>om_Name := snd k, om_Namespace := ns (fst k)\<rparr>,
       rb_RoleRef := default_ref (rb_RoleRef b)\<rparr>"

definition mem_look ::
  "('s \<Rightarrow> string) \<Rightarrow> (('s \<times> string) \<times> rbac_binding) list \<Rightarrow> 's \<times> string \<Rightarrow> rbac_binding option" where
  "mem_look ns m k = map_option (stamp ns k) (map_of m k)"

fun parse_selector :: "string \<Rightarrow> string \<times> string" where
  "parse_selector sel = (takeWhile (\<lambda>c. c \<noteq> CHR ''='') sel, tl (dropWhile (\<lambda>c. c \<noteq> CHR ''='') sel))"

definition mem_list ::
  "('s \<Rightarrow> string) \<Rightarrow> (('s \<times> string) \<times> rbac_binding) list \<Rightarrow> string \<Rightarrow> rbac_binding list" where
  "mem_list ns m sel =
     (case parse_selector sel of (l, v) \<Rightarrow>
        filter (has_label l v) (List.map_filter (mem_look ns m) (remdups (map fst m))))"

text \<open>The typed client over the part of the world that \<open>get\<close> reads and \<open>put\<close> replaces.\<close>

definition mem_client ::
  "('s \<Rightarrow> string) \<Rightarrow> (mem \<Rightarrow> (('s \<times> string) \<times> rbac_binding) list) \<Rightarrow>
   ((('s \<times> string) \<times> rbac_binding) list \<Rightarrow> mem \<Rightarrow> mem) \<Rightarrow> (mem, 's) rbac_client" where
  "mem_client ns get put =
     \<lparr>rc_List = (\<lambda>s sel w.
        (Inr (filter (\<lambda>b. ns s = '''' \<or> rb_Namespace b = ns s) (mem_list ns (get w) sel)), w)),
      rc_Get = (\<lambda>s n w. (case mem_look ns (get w) (s, n) of
          None \<Rightarrow> Inl (ApiError ''NotFound'') | Some b \<Rightarrow> Inr b, w)),
      rc_Create = (\<lambda>s b w.
        (case mem_look ns (get w) (s, rb_Name b) of
           Some _ \<Rightarrow> (Inl (ApiError ''AlreadyExists''), w)
         | None \<Rightarrow> (Inr (stamp ns (s, rb_Name b) b), put (AList.update (s, rb_Name b) b (get w)) w))),
      rc_Update = (\<lambda>s b w.
        (case mem_look ns (get w) (s, rb_Name b) of
           None \<Rightarrow> (Inl (ApiError ''NotFound''), w)
         | Some old \<Rightarrow>
             (if default_ref (rb_RoleRef b) \<noteq> rb_RoleRef old then (Inl (ApiError ''Invalid''), w)
              else (Inr (stamp ns (s, rb_Name b) b), put (AList.update (s, rb_Name b) b (get w)) w)))),
      rc_Delete = (\<lambda>s n w.
        (case mem_look ns (get w) (s, n) of
           None \<Rightarrow> (Inl (ApiError ''NotFound''), w)
         | Some _ \<Rightarrow> (Inr (), put (AList.delete (s, n) (get w)) w)))\<rparr>"

section \<open>The client set and its views\<close>

definition mem_look_sa :: "((string \<times> string) \<times> ServiceAccount) list \<Rightarrow> string \<times> string \<Rightarrow> ServiceAccount option" where
  "mem_look_sa m k = map_option
     (\<lambda>a. a\<lparr>sa_ObjectMeta := (sa_ObjectMeta a)\<lparr>om_Name := snd k, om_Namespace := fst k\<rparr>\<rparr>) (map_of m k)"

definition mem_sa_client :: "mem sa_client" where
  "mem_sa_client =
     \<lparr>sc_Get = (\<lambda>ns n w. (case mem_look_sa (mem_SA w) (ns, n) of
          None \<Rightarrow> Inl (ApiError ''NotFound'') | Some a \<Rightarrow> Inr a, w)),
      sc_Create = (\<lambda>ns a w.
        (case mem_look_sa (mem_SA w) (ns, sa_Name a) of
           Some _ \<Rightarrow> (Inl (ApiError ''AlreadyExists''), w)
         | None \<Rightarrow>
             (Inr (a\<lparr>sa_ObjectMeta := (sa_ObjectMeta a)\<lparr>om_Namespace := ns\<rparr>\<rparr>),
              w\<lparr>mem_SA := AList.update (ns, sa_Name a) a (mem_SA w)\<rparr>))),
      sc_CreateToken = (\<lambda>ns n t w.
        (case mem_look_sa (mem_SA w) (ns, n) of
           None \<Rightarrow> (Inl (ApiError ''NotFound''), w)
         | Some _ \<Rightarrow> (Inr (t\<lparr>tr_Status := \<lparr>tst_Token = ''token-'' @ n, tst_ExpirationTimestamp = 600\<rparr>\<rparr>), w)))\<rparr>"

definition mem_K :: "mem Clientset" where
  "mem_K = \<lparr>cs_ServiceAccounts = mem_sa_client,
     cs_ClusterRoleBindings = mem_client (\<lambda>_. '''') mem_CRB (\<lambda>m w. w\<lparr>mem_CRB := m\<rparr>),
     cs_RoleBindings = mem_client (\<lambda>ns. ns) mem_RB (\<lambda>m w. w\<lparr>mem_RB := m\<rparr>),
     cs_IsNotFound = (\<lambda>e. e = ApiError ''NotFound'')\<rparr>"

definition mem_V :: "mem KubeView" where
  "mem_V = \<lparr>v_SA = (\<lambda>w. mem_look_sa (mem_SA w)), v_CRB = (\<lambda>w. mem_look (\<lambda>_. '''') (mem_CRB w)),
     v_RB = (\<lambda>w. mem_look (\<lambda>ns. ns) (mem_RB w))\<rparr>"

section \<open>The server keeps its promises\<close>

lemma default_ref_simps [simp]:
  "default_ref (default_ref r) = default_ref r"
  "rr_Kind (default_ref r) = rr_Kind r" "rr_Name (default_ref r) = rr_Name r"
  "rr_APIGroup r \<noteq> '''' \<Longrightarrow> default_ref r = r"
  by (simp_all add: default_ref_def)

lemma stamp_simps [simp]:
  "rb_Name (stamp ns k b) = snd k" "rb_Namespace (stamp ns k b) = ns (fst k)"
  "has_label l v (stamp ns k b) = has_label l v b" "rb_Subjects (stamp ns k b) = rb_Subjects b"
  "rb_RoleRef (stamp ns k b) = default_ref (rb_RoleRef b)"
  by (simp_all add: stamp_def has_label_def)

lemma stamp_stored: "stored_as b (stamp ns (s, rb_Name b) b)"
  by (simp add: stored_as_def)

lemma mem_look_simps [simp]:
  "mem_look ns (AList.update k b m) = (mem_look ns m)(k \<mapsto> stamp ns k b)"
  "mem_look ns (AList.delete k m) = (mem_look ns m)(k := None)"
  by (auto simp: mem_look_def fun_eq_iff update_conv' delete_conv')

lemma mem_look_key: "mem_look ns m (s, n) = Some b \<Longrightarrow> rb_Name b = n \<and> rb_Namespace b = ns s"
  by (auto simp: mem_look_def)

lemma parse_selector_eq:
  "CHR ''='' \<notin> set l \<Longrightarrow> parse_selector (l @ ''='' @ v) = (l, v)"
  by (induction l) auto

lemma set_mem_list:
  "set (List.map_filter (mem_look ns m) (remdups (map fst m))) = {b. \<exists>k. mem_look ns m k = Some b}"
  by (force simp: map_filter_def mem_look_def image_iff dest: map_of_SomeD)

lemma distinct_mem_list:
  assumes "inj ns"
  shows "distinct (map (\<lambda>b. (rb_Namespace b, rb_Name b)) (List.map_filter (mem_look ns m) (remdups (map fst m))))"
proof -
  have "distinct (map (\<lambda>b. (rb_Namespace b, rb_Name b)) (List.map_filter (mem_look ns m) ks))
      \<and> set (map (\<lambda>b. (rb_Namespace b, rb_Name b)) (List.map_filter (mem_look ns m) ks))
        \<subseteq> (\<lambda>k. (ns (fst k), snd k)) ` set ks"
    if "distinct ks" for ks
    using that
  proof (induction ks)
    case Nil
    then show ?case by (simp add: map_filter_simps)
  next
    case (Cons k ks)
    show ?case
    proof (cases "mem_look ns m k")
      case None
      then show ?thesis using Cons by (auto simp: map_filter_simps)
    next
      case (Some b)
      have b: "(rb_Namespace b, rb_Name b) = (ns (fst k), snd k)"
        using Some mem_look_key [of ns m "fst k" "snd k" b] by simp
      have "inj (\<lambda>k. (ns (fst k), snd k))" using assms by (auto simp: inj_def)
      then have "(ns (fst k), snd k) \<notin> (\<lambda>k. (ns (fst k), snd k)) ` set ks"
        using Cons.prems by (auto dest: injD)
      then have "(rb_Namespace b, rb_Name b) \<notin>
          (\<lambda>b. (rb_Namespace b, rb_Name b)) ` set (List.map_filter (mem_look ns m) ks)"
        using Cons b by (metis (no_types, lifting) distinct.simps(2) list.set_map subsetD)
      then show ?thesis using Cons Some b by (simp add: map_filter_simps image_iff) blast
    qed
  qed
  then show ?thesis by (simp add: map_filter_simps)
qed

lemma mem_client_lists:
  assumes "inj ns" and "ns all = ''''"
  shows "rbac_lists all (mem_client ns get put) (\<lambda>w. mem_look ns (get w))"
proof -
  have "distinct (map (\<lambda>b. (rb_Namespace b, rb_Name b)) bs) \<and>
      set bs = {b. has_label l v b \<and> (\<exists>k. mem_look ns (get w) k = Some b)}"
    if l: "CHR ''='' \<notin> set l" and bs: "fst (rc_List (mem_client ns get put) all (l @ ''='' @ v) w) = Inr bs"
    for w l v bs
  proof -
    have "bs = filter (has_label l v) (List.map_filter (mem_look ns (get w)) (remdups (map fst (get w))))"
      using bs assms(2) parse_selector_eq [OF l, of v]
      by (simp add: mem_client_def mem_list_def del: parse_selector.simps)
    then show ?thesis
      using distinct_mem_list [OF assms(1), of "get w"] set_mem_list [of ns "get w"]
      by (auto simp add: distinct_map_filter)
  qed
  then show ?thesis unfolding rbac_lists_def by blast
qed

lemma mem_client_frames:
  assumes "\<And>m w. get (put m w) = m"
  shows "rbac_frames (mem_client ns get put) (\<lambda>w. mem_look ns (get w))"
  using assms
  by (auto simp: rbac_frames_def mem_client_def keeps_def split: option.splits)

lemma mem_client_writes:
  assumes "\<And>m w. get (put m w) = m"
  shows "rbac_writes (mem_client ns get put) (\<lambda>w. mem_look ns (get w))"
  using assms
  by (auto simp: rbac_writes_def mem_client_def stamp_stored split: option.splits if_splits)

lemma mem_client_api:
  assumes "inj ns" and "ns all = ''''" and "\<And>m w. get (put m w) = m"
  shows "rbac_api ns all (mem_client ns get put) (\<lambda>w. mem_look ns (get w))"
proof -
  have "rbac_keyed ns (\<lambda>w. mem_look ns (get w))" by (simp add: rbac_keyed_def mem_look_key)
  moreover have "rbac_reads (mem_client ns get put) (\<lambda>w. mem_look ns (get w))"
    by (auto simp: rbac_reads_def mem_client_def keeps_def split: option.splits)
  ultimately show ?thesis
    using mem_client_lists [OF assms(1,2)] mem_client_frames [OF assms(3)] mem_client_writes [OF assms(3)]
    by (simp add: rbac_api_def)
qed

lemma mem_client_keeps:
  assumes "\<And>m w. f (put m w) = f w"
  shows "rbac_client_keeps f (mem_client ns get put)"
  using assms
  by (auto simp: rbac_client_keeps_def mem_client_def keeps_def split: option.splits)

lemma mem_sa_look_key: "mem_look_sa m (ns, n) = Some a \<Longrightarrow> sa_Name a = n"
  by (auto simp: mem_look_sa_def)

lemma mem_sa_update:
  "mem_look_sa (AList.update (ns, sa_Name a) a m) =
     (mem_look_sa m)((ns, sa_Name a) \<mapsto> a\<lparr>sa_ObjectMeta := (sa_ObjectMeta a)\<lparr>om_Namespace := ns\<rparr>\<rparr>)"
  by (auto simp: mem_look_sa_def fun_eq_iff update_conv')

lemma mem_sa_api: "sa_api mem_K (v_SA mem_V)"
  unfolding sa_api_def mem_K_def mem_V_def mem_sa_client_def keeps_def
  by (auto simp: mem_sa_look_key mem_sa_update split: option.splits)

lemma mem_sa_keeps:
  assumes "\<And>m w. f (w\<lparr>mem_SA := m\<rparr>) = f w"
  shows "sa_client_keeps f mem_sa_client"
  using assms by (auto simp: sa_client_keeps_def mem_sa_client_def keeps_def split: option.splits)

lemma mem_kube_api: "kube_api mem_K mem_V"
proof -
  have "rbac_api (\<lambda>_. '''') () (cs_ClusterRoleBindings mem_K) (v_CRB mem_V)"
    using mem_client_api [of "\<lambda>_::unit. ''''" "()" mem_CRB "\<lambda>m w. w\<lparr>mem_CRB := m\<rparr>"]
    by (simp add: mem_K_def mem_V_def inj_def)
  moreover have "rbac_api (\<lambda>ns. ns) '''' (cs_RoleBindings mem_K) (v_RB mem_V)"
    using mem_client_api [of "\<lambda>ns. ns" "''''" mem_RB "\<lambda>m w. w\<lparr>mem_RB := m\<rparr>"]
    by (simp add: mem_K_def mem_V_def)
  moreover have "rbac_client_keeps (v_RB mem_V) (cs_ClusterRoleBindings mem_K)"
    "rbac_client_keeps (v_SA mem_V) (cs_ClusterRoleBindings mem_K)"
    "rbac_client_keeps (v_CRB mem_V) (cs_RoleBindings mem_K)"
    "rbac_client_keeps (v_SA mem_V) (cs_RoleBindings mem_K)"
    "sa_client_keeps (v_CRB mem_V) (cs_ServiceAccounts mem_K)"
    "sa_client_keeps (v_RB mem_V) (cs_ServiceAccounts mem_K)"
    by (simp_all add: mem_K_def mem_V_def mem_client_keeps mem_sa_keeps)
  ultimately show ?thesis using mem_sa_api by (simp add: kube_api_def)
qed

text \<open>Every request of the memory server that is valid succeeds.\<close>

lemma mem_client_live:
  "rbac_live (\<lambda>_ b. rr_APIGroup (rb_RoleRef b) \<noteq> '''') all (mem_client ns get put) (\<lambda>w. mem_look ns (get w))"
  by (auto simp: rbac_live_def mem_client_def split: option.splits)

lemma mem_live:
  "rbac_live (\<lambda>_ b. rr_APIGroup (rb_RoleRef b) \<noteq> '''') () (cs_ClusterRoleBindings mem_K) (v_CRB mem_V)"
  "rbac_live (\<lambda>_ b. rr_APIGroup (rb_RoleRef b) \<noteq> '''') '''' (cs_RoleBindings mem_K) (v_RB mem_V)"
  by (simp_all add: mem_K_def mem_V_def mem_client_live)

lemma mem_refuses:
  "rbac_refuses (cs_ClusterRoleBindings mem_K) (v_CRB mem_V)"
  "rbac_refuses (cs_RoleBindings mem_K) (v_RB mem_V)"
proof -
  have role: "default_ref r = q \<Longrightarrow> rr_Name r = rr_Name q" for r q by (auto simp: default_ref_def)
  have "rbac_refuses (mem_client ns get put) (\<lambda>w. mem_look ns (get w))" for ns :: "'s \<Rightarrow> string" and get put
    by (auto simp: rbac_refuses_def mem_client_def dest: role split: option.splits)
  then show "rbac_refuses (cs_ClusterRoleBindings mem_K) (v_CRB mem_V)"
    "rbac_refuses (cs_RoleBindings mem_K) (v_RB mem_V)"
    by (simp_all add: mem_K_def mem_V_def)
qed

section \<open>The directory\<close>

text \<open>
  A directory that accepts every bind and answers a search from a table by base and filter.
  The connections it hands out are counted.
\<close>

definition mem_ldap :: "(string \<Rightarrow> string \<Rightarrow> Entry list) \<Rightarrow> mem ldap_lib" where
  "mem_ldap table =
     \<lparr>ll_DialURL = (\<lambda>url w. (Inr (mem_conns w), w\<lparr>mem_conns := Suc (mem_conns w)\<rparr>)),
      ll_Close = (\<lambda>c w. (Inr (), w\<lparr>mem_conns := mem_conns w - 1\<rparr>)),
      ll_Bind = (\<lambda>c dn pw w. (Inr (), w)),
      ll_Search = (\<lambda>c r w. (Inr (table (sr_BaseDN r) (sr_Filter r)), w))\<rparr>"

section \<open>An example\<close>

text \<open>
  The user \<open>ann\<close> is in the group \<open>cn=devs\<close>, whose LdapGroupBinding asks for a cluster role and
  for a role in one namespace.
\<close>

definition example_env :: Env where
  "example_env = zero_Env\<lparr>env_Namespace := ''kerbernetes'', env_TokenDuration := 600,
     env_TokenAudience := ''https://kubernetes.default.svc.cluster.local'', env_LDAPEnabled := True,
     env_LDAPUserBaseDN := ''ou=users'', env_LDAPUserFilter := ''(uid=%s)'',
     env_LDAPGroupBaseDN := ''ou=groups'', env_LDAPGroupFilter := ''(member=%s)''\<rparr>"

definition example_directory :: "string \<Rightarrow> string \<Rightarrow> Entry list" where
  "example_directory base flt =
     (if base = ''ou=users'' \<and> flt = ''(uid=ann)'' then [\<lparr>entry_DN = ''uid=ann''\<rparr>]
      else if base = ''ou=groups'' \<and> flt = ''(member=uid=ann)'' then [\<lparr>entry_DN = ''cn=devs''\<rparr>]
      else [])"

definition example_k8s :: "(unit, mem) k8sService" where
  "example_k8s = \<lparr>ks_env = example_env, ks_clientset = mem_K, ks_namespace = ''kerbernetes'', ks_restConfig = ()\<rparr>"

definition example_auth :: "(unit, mem) authService" where
  "example_auth = New_Auth example_env example_k8s (New_ServiceAccounts example_env example_k8s) mem_cache
     (New_Ldap example_env (mem_ldap example_directory) (\<lambda>f a. f))
     (\<lambda>ks. ks) (\<lambda>ks. ks)"

abbreviation example_svc :: "mem serviceAccountsService" where
  "example_svc \<equiv> as_serviceAccountsSvc example_auth"

definition new_lgb :: "string \<Rightarrow> string \<Rightarrow> LdapGroupBindingItem list \<Rightarrow> LdapGroupBinding" where
  "new_lgb name dn items =
     \<lparr>lgb_TypeMeta = \<lparr>tm_Kind = ''LdapGroupBinding'', tm_APIVersion = ''rbac.kerbernetes.io/v1''\<rparr>,
      lgb_ObjectMeta = \<lparr>om_Name = name, om_Namespace = '''', om_Labels = []\<rparr>,
      lgb_Spec = \<lparr>spec_LdapGroupDN = dn, spec_Bindings = items\<rparr>\<rparr>"

definition view_item :: LdapGroupBindingItem where
  "view_item = \<lparr>item_Kind = ''ClusterRole'', item_Name = ''view'', item_Namespace = '''', item_ApiGroup = ''''\<rparr>"

definition edit_item :: "string \<Rightarrow> LdapGroupBindingItem" where
  "edit_item ns = \<lparr>item_Kind = ''Role'', item_Name = ''edit'', item_Namespace = ns,
     item_ApiGroup = ''rbac.authorization.k8s.io''\<rparr>"

definition devs :: LdapGroupBinding where
  "devs = new_lgb ''devs'' ''cn=devs'' [view_item, edit_item ''dev'']"

definition empty_world :: mem where
  "empty_world = \<lparr>mem_SA = [], mem_CRB = [], mem_RB = [], mem_cache = initial_service 0, mem_conns = 0\<rparr>"

definition example_world :: mem where
  "example_world = empty_world\<lparr>mem_cache := add (\<lambda>_. 0) devs (initial_service 0)\<rparr>"

lemma example_auth_simps [simp]:
  "svc_clientset example_svc = mem_K" "svc_namespace example_svc = ''kerbernetes''"
  "svc_env example_svc = example_env" "as_env example_auth = example_env"
  "as_crbOrder example_auth = (\<lambda>ks. ks)" "as_rbOrder example_auth = (\<lambda>ks. ks)"
  "as_ldapGroupBindingsSvc example_auth = mem_cache"
  "as_k8sSvc example_auth = example_k8s"
  by (simp_all add: example_auth_def New_Auth_def New_ServiceAccounts_def example_k8s_def
      GetClientset_def GetNamespace_def)

lemma empty_world_views [simp]:
  "v_CRB mem_V empty_world k = None" "v_RB mem_V empty_world j = None"
  "v_CRB mem_V example_world k = None" "v_RB mem_V example_world j = None"
  by (simp_all add: mem_V_def mem_look_def empty_world_def example_world_def)

end
