(* ===== verification/Examples.thy ===== *)
theory Examples
  imports Wiring Informer MemoryServer
begin

text \<open>The example of theory MemoryServer meets the hypotheses of the theorems.\<close>

lemma example_wired: "wired example_auth"
  by (simp add: wired_def example_k8s_def GetNamespace_def)

lemmas example_hyps = mem_kube_api example_wired visits_each_id

lemma edit_item_simps [simp]:
  "item_Kind (edit_item ns) = ''Role''" "item_Name (edit_item ns) = ''edit''"
  "item_Namespace (edit_item ns) = ns" "item_ApiGroup (edit_item ns) = ''rbac.authorization.k8s.io''"
  "item_roleRef (edit_item ns) = \<lparr>rr_APIGroup = ''rbac.authorization.k8s.io'', rr_Kind = ''Role'', rr_Name = ''edit''\<rparr>"
  by (simp_all add: edit_item_def item_roleRef_def)

lemma devs_requests:
  "cluster_requests (all_items [devs]) = [(''devs'', ''view'')]"
  "role_requests (all_items [devs]) = [(''devs'', ''dev'', item_roleRef (edit_item ''dev''))]"
  by (simp_all add: all_items_def devs_def new_lgb_def view_item_def cluster_requests_def
      role_requests_def)

lemma example_ldap_keeps:
  "ldap_keeps (v_CRB mem_V) (ls_lib (as_ldapSvc example_auth))"
  "ldap_keeps (v_RB mem_V) (ls_lib (as_ldapSvc example_auth))"
  "ldap_keeps mem_cache (ls_lib (as_ldapSvc example_auth))"
  "sa_client_keeps mem_cache (cs_ServiceAccounts mem_K)"
  by (simp_all add: ldap_keeps_def keeps_def example_auth_def New_Auth_def New_Ldap_def mem_ldap_def mem_V_def
      mem_K_def mem_sa_keeps)

text \<open>The bindings of \<open>ann\<close> as a first login leaves them, the role in a given namespace.\<close>

definition granted_world :: "string list \<Rightarrow> mem" where
  "granted_world nss = empty_world
     \<lparr>mem_CRB := [(crb_key ''ann'' (''devs'', ''view''), crb_object example_svc ''ann'' (''devs'', ''view''))],
      mem_RB := map (\<lambda>ns. (rb_key ''ann'' (''devs'', ns, item_roleRef (edit_item ns)),
        rb_object example_svc ''ann'' (''devs'', ns, item_roleRef (edit_item ns)))) nss\<rparr>"

definition devs_in :: "string list \<Rightarrow> LdapGroupBinding" where
  "devs_in nss = new_lgb ''devs'' ''cn=devs'' (map edit_item nss)"

lemma devs_in_requests:
  "role_requests (all_items [devs_in nss]) =
     map (\<lambda>ns. (''devs'', ns, item_roleRef (edit_item ns))) (filter (\<lambda>ns. ns \<noteq> '''') nss)"
  by (simp add: all_items_def devs_in_def new_lgb_def role_requests_def filter_map comp_def)

lemma stamp_own:
  assumes "rb_Name b = snd k" and "rb_Namespace b = ns (fst k)" and "rr_APIGroup (rb_RoleRef b) \<noteq> ''''"
  shows "stamp ns k b = b"
  using assms by (cases b; cases "rb_ObjectMeta b") (simp add: stamp_def default_ref_def)

lemma managed_stamp: "managed_for svc u (stamp ns k b) = managed_for svc u b"
  by (simp add: managed_for_def)

lemma granted_CRB:
  "v_CRB mem_V (granted_world nss) ((), ''kerbernetes:ann:devs:view'') =
     Some (stamp (\<lambda>_. '''') ((), ''kerbernetes:ann:devs:view'') (crb_object example_svc ''ann'' (''devs'', ''view'')))"
  by (simp add: mem_V_def mem_look_def granted_world_def crb_key_def GenBindingName_def)

definition granted_rb :: "string \<Rightarrow> rbac_binding" where
  "granted_rb ns = stamp (\<lambda>ns. ns) (ns, ''kerbernetes:ann:devs:edit'')
     (rb_object example_svc ''ann'' (''devs'', ns, item_roleRef (edit_item ns)))"

lemma mem_V_sel:
  "v_CRB mem_V w = mem_look (\<lambda>_. '''') (mem_CRB w)" "v_RB mem_V w = mem_look (\<lambda>ns. ns) (mem_RB w)"
  by (simp_all add: mem_V_def)

lemma granted_RB:
  assumes "distinct nss"
  shows "v_RB mem_V (granted_world nss) k =
    (if fst k \<in> set nss \<and> snd k = ''kerbernetes:ann:devs:edit'' then
       Some (granted_rb (fst k))
     else None)"
proof (cases k)
  case (Pair ns n)
  have "map_of (map (\<lambda>ns. (rb_key ''ann'' (''devs'', ns, item_roleRef (edit_item ns)), f ns)) nss) (ns, n) =
      (if ns \<in> set nss \<and> n = ''kerbernetes:ann:devs:edit'' then Some (f ns) else None)" for f :: "string \<Rightarrow> rbac_binding"
    by (induction nss) (auto simp: rb_key_def GenBindingName_def)
  then show ?thesis by (auto simp: Pair mem_V_def mem_look_def granted_world_def granted_rb_def)
qed

lemma managed_rb_object: "managed_for svc u (rb_object svc u d)" "managed_for svc u (crb_object svc u e)"
  by (simp_all add: rb_object_def crb_object_def managed_bindingObject)

lemma mem_K_sa: "cs_ServiceAccounts mem_K = mem_sa_client"
  by (simp add: mem_K_def)

lemma example_login:
  "fst (AuthAccount example_auth ''ann'' example_world) =
     Inr \<lparr>cr_Kind = ''ExecCredential'', cr_ApiVersion = ''client.authentication.k8s.io/v1beta1'',
       cr_Status = Some \<lparr>st_Token = ''token-ann'', st_ExpirationTimestamp = 600\<rparr>\<rparr>"
  by code_simp

text \<open>What the directory of the example says of \<open>ann\<close>.\<close>

lemma example_groups:
  "fst (GetUser (as_ldapSvc example_auth) ''ann'' w) = Inr \<lparr>entry_DN = ''uid=ann''\<rparr>"
  "fst (GetUserGroups (as_ldapSvc example_auth) ''uid=ann'' w) = Inr [''cn=devs'']"
  by (simp_all add: GetUser_def GetUserGroups_def withConnection_def example_auth_def New_Auth_def
      New_Ldap_def mem_ldap_def searchRequest_def Sprintf1_def example_env_def example_directory_def)

text \<open>A Kerberos library that makes the same of every request, and a controller.\<close>

definition example_krb :: "string option \<Rightarrow> (unit, unit, mem) krb_lib" where
  "example_krb p = \<lparr>kr_Load = (\<lambda>path. Inr ()), kr_Authenticate = (\<lambda>kt r w. (p, w))\<rparr>"

definition example_ctrl :: "(unit, mem) authController" where
  "example_ctrl = \<lparr>ac_authSvc = example_auth, ac_env = example_env\<rparr>"

lemma example_login_granted:
  "fst (AuthAccount example_auth ''ann'' (granted_world [''dev''])) =
     Inr \<lparr>cr_Kind = ''ExecCredential'', cr_ApiVersion = ''client.authentication.k8s.io/v1beta1'',
       cr_Status = Some \<lparr>st_Token = ''token-ann'', st_ExpirationTimestamp = 600\<rparr>\<rparr>"
  by code_simp

end
