(* ===== verification/Requests.thy ===== *)
theory Requests
  imports Stability Login
begin

text \<open>
  The requests to the API server and to the directory as data, for reasoning about logins that
  run at the same time. HTTP handlers run concurrently, so between two requests of one login the
  servers may serve requests of others. This theory says which requests a login for a user may make
  (\<open>conforms\<close>), which bindings are that user's by name (\<open>own_name\<close>), the invariant that
  relates names and subjects (\<open>tidy\<close>), and what a conforming request leaves alone.
\<close>

section \<open>Requests\<close>

datatype 's rbac_request =
    ListBindings 's string
  | GetBinding 's string
  | CreateBinding 's rbac_binding
  | UpdateBinding 's rbac_binding
  | DeleteBinding 's string

datatype directory_request =
    DialRequest string
  | CloseRequest conn
  | BindRequest conn string string
  | SearchDirectory conn SearchRequest

datatype api_request =
    ClusterRoleBindingRequest "unit rbac_request"
  | RoleBindingRequest "string rbac_request"
  | GetServiceAccountRequest string string
  | CreateServiceAccountRequest string ServiceAccount
  | CreateTokenRequest string string TokenRequest
  | DirectoryRequest directory_request

text \<open>The effect of a request, whatever it answers.\<close>

fun perform_rbac :: "('w, 's) rbac_client \<Rightarrow> 's rbac_request \<Rightarrow> 'w \<Rightarrow> 'w" where
  "perform_rbac cl (ListBindings s sel) w = snd (rc_List cl s sel w)"
| "perform_rbac cl (GetBinding s n) w = snd (rc_Get cl s n w)"
| "perform_rbac cl (CreateBinding s b) w = snd (rc_Create cl s b w)"
| "perform_rbac cl (UpdateBinding s b) w = snd (rc_Update cl s b w)"
| "perform_rbac cl (DeleteBinding s n) w = snd (rc_Delete cl s n w)"

fun perform_directory :: "'w ldap_lib \<Rightarrow> directory_request \<Rightarrow> 'w \<Rightarrow> 'w" where
  "perform_directory L (DialRequest url) w = snd (ll_DialURL L url w)"
| "perform_directory L (CloseRequest c) w = snd (ll_Close L c w)"
| "perform_directory L (BindRequest c dn pw) w = snd (ll_Bind L c dn pw w)"
| "perform_directory L (SearchDirectory c r) w = snd (ll_Search L c r w)"

fun perform :: "'w Clientset \<Rightarrow> 'w ldap_lib \<Rightarrow> api_request \<Rightarrow> 'w \<Rightarrow> 'w" where
  "perform K L (ClusterRoleBindingRequest q) w = perform_rbac (cs_ClusterRoleBindings K) q w"
| "perform K L (RoleBindingRequest q) w = perform_rbac (cs_RoleBindings K) q w"
| "perform K L (GetServiceAccountRequest ns n) w = snd (sc_Get (cs_ServiceAccounts K) ns n w)"
| "perform K L (CreateServiceAccountRequest ns a) w = snd (sc_Create (cs_ServiceAccounts K) ns a w)"
| "perform K L (CreateTokenRequest ns n t) w = snd (sc_CreateToken (cs_ServiceAccounts K) ns n t w)"
| "perform K L (DirectoryRequest d) w = perform_directory L d w"

text \<open>The directory is no part of the cluster: asking it changes no object of the API server.\<close>

definition directory_apart :: "'w ldap_lib \<Rightarrow> 'w KubeView \<Rightarrow> bool" where
  "directory_apart L V \<longleftrightarrow> ldap_keeps (v_CRB V) L \<and> ldap_keeps (v_RB V) L \<and> ldap_keeps (v_SA V) L"

lemma directory_apartD:
  assumes "directory_apart L V"
  shows "ldap_keeps (v_CRB V) L" and "ldap_keeps (v_RB V) L" and "ldap_keeps (v_SA V) L"
  using assms by (simp_all add: directory_apart_def)

lemma perform_directory_keeps: "ldap_keeps f L \<Longrightarrow> f (perform_directory L d w) = f w"
  by (cases d) (simp_all add: ldap_keepsD keepsD)

section \<open>Names made for a user\<close>

definition user_prefix :: "string \<Rightarrow> string" where
  "user_prefix u = ''kerbernetes:'' @ u @ '':''"

definition own_name :: "string \<Rightarrow> string \<Rightarrow> bool" where
  "own_name u n \<longleftrightarrow> take (length (user_prefix u)) n = user_prefix u"

lemma own_nameE:
  assumes "own_name u n"
  obtains m where "n = ''kerbernetes:'' @ u @ CHR '':'' # m"
  using assms append_take_drop_id [of "length (user_prefix u)" n]
  by (simp add: own_name_def user_prefix_def) (metis append.assoc append_Cons append_Nil)

lemma own_name_GenBindingName [simp]: "own_name u (GenBindingName u r l)"
  by (simp add: own_name_def user_prefix_def GenBindingName_def)

lemma own_name_user:
  assumes "CHR '':'' \<notin> set u" and "CHR '':'' \<notin> set v" and "own_name u n" and "own_name v n"
  shows "u = v"
proof -
  obtain x where x: "n = ''kerbernetes:'' @ u @ CHR '':'' # x" using own_nameE [OF assms(3)] .
  obtain y where y: "n = ''kerbernetes:'' @ v @ CHR '':'' # y" using own_nameE [OF assms(4)] .
  have "u @ CHR '':'' # x = v @ CHR '':'' # y" using x y by simp
  then show ?thesis using colon_split [OF assms(1,2)] by blast
qed

section \<open>What a login may ask for\<close>

text \<open>
  Everything may be read, and the directory be asked. Bindings are written under names made for the user, for no other
  subject, and the service account is the user's.
\<close>

fun conforms_rbac :: "string \<Rightarrow> 's rbac_request \<Rightarrow> bool" where
  "conforms_rbac u (ListBindings s sel) = True"
| "conforms_rbac u (GetBinding s n) = own_name u n"
| "conforms_rbac u (CreateBinding s b) = (own_name u (rb_Name b) \<and> (\<forall>x\<in>set (rb_Subjects b). sub_Name x = u))"
| "conforms_rbac u (UpdateBinding s b) = (own_name u (rb_Name b) \<and> (\<forall>x\<in>set (rb_Subjects b). sub_Name x = u))"
| "conforms_rbac u (DeleteBinding s n) = own_name u n"

fun conforms :: "string \<Rightarrow> api_request \<Rightarrow> bool" where
  "conforms u (ClusterRoleBindingRequest q) = conforms_rbac u q"
| "conforms u (RoleBindingRequest q) = conforms_rbac u q"
| "conforms u (GetServiceAccountRequest ns n) = (n = u)"
| "conforms u (CreateServiceAccountRequest ns a) = (sa_Name a = u)"
| "conforms u (CreateTokenRequest ns n t) = (n = u)"
| "conforms u (DirectoryRequest d) = True"

section \<open>The invariant of the cluster\<close>

text \<open>
  A binding that is managed for a user has a name made for that user, and a binding with such
  a name has no other subject. Users are those whose names have no colon, as the names of
  service accounts have none.
\<close>

definition tidy_view :: "'w serviceAccountsService \<Rightarrow> ('s \<times> string \<Rightarrow> rbac_binding option) \<Rightarrow> bool" where
  "tidy_view svc stored \<longleftrightarrow>
     (\<forall>k b u. stored k = Some b \<longrightarrow> CHR '':'' \<notin> set u \<longrightarrow>
        (managed_for svc u b \<longrightarrow> own_name u (snd k)) \<and>
        (own_name u (snd k) \<longrightarrow> (\<forall>x\<in>set (rb_Subjects b). sub_Name x = u)))"

definition tidy :: "'w KubeView \<Rightarrow> 'w serviceAccountsService \<Rightarrow> 'w \<Rightarrow> bool" where
  "tidy V svc w \<longleftrightarrow> tidy_view svc (v_CRB V w) \<and> tidy_view svc (v_RB V w)"

lemma tidy_viewD:
  assumes "tidy_view svc stored" and "stored k = Some b" and "CHR '':'' \<notin> set u"
  shows "managed_for svc u b \<Longrightarrow> own_name u (snd k)"
    and "own_name u (snd k) \<Longrightarrow> x \<in> set (rb_Subjects b) \<Longrightarrow> sub_Name x = u"
  using assms unfolding tidy_view_def by blast+

lemma managed_subject: "managed_for svc u b \<Longrightarrow> \<exists>x\<in>set (rb_Subjects b). sub_Name x = u"
  by (auto simp: managed_for_def any_subject_iff subject_is_def)

text \<open>One object replaced by one with an own name and subject, or by none.\<close>

lemma tidy_view_write:
  assumes tidy: "tidy_view svc stored" and v: "CHR '':'' \<notin> set v" and k: "own_name v (snd k)"
    and other: "\<And>l. l \<noteq> k \<Longrightarrow> stored' l = stored l"
    and new: "\<And>b. stored' k = Some b \<Longrightarrow> stored k = Some b \<or> (\<forall>x\<in>set (rb_Subjects b). sub_Name x = v)"
  shows "tidy_view svc stored'"
  unfolding tidy_view_def
proof (intro allI impI)
  fix l b u
  assume b: "stored' l = Some b" and u: "CHR '':'' \<notin> set u"
  show "(managed_for svc u b \<longrightarrow> own_name u (snd l)) \<and>
      (own_name u (snd l) \<longrightarrow> (\<forall>x\<in>set (rb_Subjects b). sub_Name x = u))"
  proof (cases "stored l = Some b")
    case True
    then show ?thesis using tidy_viewD [OF tidy True u] by blast
  next
    case False
    then have l: "l = k" using other b by metis
    then have sub: "\<forall>x\<in>set (rb_Subjects b). sub_Name x = v" using new b False by blast
    have "own_name u (snd l) \<Longrightarrow> u = v" using own_name_user [OF u v] k l by simp
    moreover have "managed_for svc u b \<Longrightarrow> u = v" using managed_subject sub by metis
    ultimately show ?thesis using sub k l by blast
  qed
qed

section \<open>What a conforming request leaves alone\<close>

text \<open>The part of a view that belongs to a user.\<close>

definition own_part :: "string \<Rightarrow> ('w, 's) rbac_view \<Rightarrow> ('w, 's) rbac_view" where
  "own_part u view w k = (if own_name u (snd k) then view w k else None)"

definition own_account ::
  "string \<Rightarrow> ('w \<Rightarrow> string \<times> string \<Rightarrow> ServiceAccount option) \<Rightarrow> 'w \<Rightarrow> string \<times> string \<Rightarrow> ServiceAccount option" where
  "own_account u view w k = (if snd k = u then view w k else None)"

text \<open>
  A step of the cluster that a login for \<open>u\<close> does not notice, and that keeps the invariant.
\<close>

definition unnoticed :: "'w KubeView \<Rightarrow> 'w serviceAccountsService \<Rightarrow> string \<Rightarrow> ('w \<Rightarrow> 'w) \<Rightarrow> bool" where
  "unnoticed V svc u e \<longleftrightarrow>
     (\<forall>w. own_part u (v_CRB V) (e w) = own_part u (v_CRB V) w \<and>
          own_part u (v_RB V) (e w) = own_part u (v_RB V) w \<and>
          own_account u (v_SA V) (e w) = own_account u (v_SA V) w \<and>
          (tidy V svc w \<longrightarrow> tidy V svc (e w)))"

lemma unnoticed_id: "unnoticed V svc u (\<lambda>w. w)"
  by (simp add: unnoticed_def)

lemma unnoticed_comp: "unnoticed V svc u e \<Longrightarrow> unnoticed V svc u f \<Longrightarrow> unnoticed V svc u (\<lambda>w. f (e w))"
  by (simp add: unnoticed_def)

lemma unnoticed_fold: "(\<And>q. q \<in> set qs \<Longrightarrow> unnoticed V svc u (e q)) \<Longrightarrow> unnoticed V svc u (fold e qs)"
proof (induction qs)
  case Nil
  then show ?case by (simp add: unnoticed_id id_def)
next
  case (Cons q qs)
  have "unnoticed V svc u (\<lambda>w. fold e qs (e q w))"
    by (rule unnoticed_comp [OF Cons.prems Cons.IH]) (simp_all add: Cons.prems)
  then show ?case by (simp add: comp_def)
qed

lemma perform_rbac_frame:
  assumes api: "rbac_api ns all cl view" and c: "conforms_rbac v q" and k: "\<not> own_name v (snd k)"
  shows "view (perform_rbac cl q w) k = view w k"
proof (cases q)
  case (ListBindings s sel)
  then show ?thesis using keepsD [OF rbac_api_reads(1) [OF api], of s sel w] by simp
next
  case (GetBinding s n)
  then show ?thesis using keepsD [OF rbac_api_reads(2) [OF api], of s n w] by simp
next
  case (CreateBinding s b)
  then have "k \<noteq> (s, rb_Name b)" using c k by auto
  then show ?thesis using CreateBinding keepsD [OF rbac_api_frame(1) [OF api], of k s b w] by simp
next
  case (UpdateBinding s b)
  then have "k \<noteq> (s, rb_Name b)" using c k by auto
  then show ?thesis using UpdateBinding keepsD [OF rbac_api_frame(2) [OF api], of k s b w] by simp
next
  case (DeleteBinding s n)
  then have "k \<noteq> (s, n)" using c k by auto
  then show ?thesis using DeleteBinding keepsD [OF rbac_api_frame(3) [OF api], of k s n w] by simp
qed

text \<open>
  A write that fails may still have been done, as when the answer is lost; it does nothing
  else.
\<close>

definition rbac_settles :: "('w, 's) rbac_client \<Rightarrow> ('w, 's) rbac_view \<Rightarrow> bool" where
  "rbac_settles cl view \<longleftrightarrow>
     (\<forall>w s b. view (snd (rc_Create cl s b w)) (s, rb_Name b) = view w (s, rb_Name b) \<or>
        (\<exists>c. view (snd (rc_Create cl s b w)) (s, rb_Name b) = Some c \<and> stored_as b c)) \<and>
     (\<forall>w s b. view (snd (rc_Update cl s b w)) (s, rb_Name b) = view w (s, rb_Name b) \<or>
        (\<exists>c. view (snd (rc_Update cl s b w)) (s, rb_Name b) = Some c \<and> stored_as b c)) \<and>
     (\<forall>w s n. view (snd (rc_Delete cl s n w)) (s, n) = view w (s, n) \<or>
        view (snd (rc_Delete cl s n w)) (s, n) = None)"

definition kube_settles :: "'w Clientset \<Rightarrow> 'w KubeView \<Rightarrow> bool" where
  "kube_settles K V \<longleftrightarrow>
     rbac_settles (cs_ClusterRoleBindings K) (v_CRB V) \<and> rbac_settles (cs_RoleBindings K) (v_RB V)"

lemma rbac_settlesD:
  assumes "rbac_settles cl view"
  shows "view (snd (rc_Create cl s b w)) (s, rb_Name b) = Some c \<Longrightarrow> view w (s, rb_Name b) = Some c \<or> stored_as b c"
    and "view (snd (rc_Update cl s b w)) (s, rb_Name b) = Some c \<Longrightarrow> view w (s, rb_Name b) = Some c \<or> stored_as b c"
    and "view (snd (rc_Delete cl s n w)) (s, n) = Some c \<Longrightarrow> view w (s, n) = Some c"
  using assms unfolding rbac_settles_def by (metis option.inject, metis option.inject, metis option.distinct(1))

lemma stored_subjects:
  "stored_as b c \<Longrightarrow> \<forall>x\<in>set (rb_Subjects b). sub_Name x = v \<Longrightarrow> \<forall>x\<in>set (rb_Subjects c). sub_Name x = v"
  by (simp add: stored_as_def)

lemma perform_rbac_writes:
  assumes api: "rbac_api ns all cl view" and settles: "rbac_settles cl view" and c: "conforms_rbac v q"
    and b: "view (perform_rbac cl q w) k = Some b"
  shows "view w k = Some b \<or> (own_name v (snd k) \<and> (\<forall>x\<in>set (rb_Subjects b). sub_Name x = v))"
proof (cases "own_name v (snd k)")
  case False
  then show ?thesis using perform_rbac_frame [OF api c False] b by simp
next
  case own: True
  have stored: "view w k = Some b \<or> stored_as obj b \<Longrightarrow> \<forall>x\<in>set (rb_Subjects obj). sub_Name x = v \<Longrightarrow> ?thesis"
    for obj using stored_subjects [of obj b v] own by blast
  show ?thesis
  proof (cases q)
    case (ListBindings s sel)
    then show ?thesis using b keepsD [OF rbac_api_reads(1) [OF api], of s sel w] by simp
  next
    case (GetBinding s n)
    then show ?thesis using b keepsD [OF rbac_api_reads(2) [OF api], of s n w] by simp
  next
    case (CreateBinding s obj)
    have "view w k = Some b \<or> stored_as obj b"
      using keepsD [OF rbac_api_frame(1) [OF api], of k s obj w] rbac_settlesD(1) [OF settles, of s obj w b] b CreateBinding
      by (cases "k = (s, rb_Name obj)") auto
    then show ?thesis by (rule stored) (use c CreateBinding in auto)
  next
    case (UpdateBinding s obj)
    have "view w k = Some b \<or> stored_as obj b"
      using keepsD [OF rbac_api_frame(2) [OF api], of k s obj w] rbac_settlesD(2) [OF settles, of s obj w b] b UpdateBinding
      by (cases "k = (s, rb_Name obj)") auto
    then show ?thesis by (rule stored) (use c UpdateBinding in auto)
  next
    case (DeleteBinding s n)
    then show ?thesis
      using keepsD [OF rbac_api_frame(3) [OF api], of k s n w] rbac_settlesD(3) [OF settles, of s n w b] b
      by (cases "k = (s, n)") auto
  qed
qed

lemma perform_rbac_tidy:
  assumes api: "rbac_api ns all cl view" and settles: "rbac_settles cl view" and v: "CHR '':'' \<notin> set v"
    and c: "conforms_rbac v q" and tidy: "tidy_view svc (view w)"
  shows "tidy_view svc (view (perform_rbac cl q w))"
  unfolding tidy_view_def
proof (intro allI impI)
  fix k b u
  assume b: "view (perform_rbac cl q w) k = Some b" and u: "CHR '':'' \<notin> set u"
  from perform_rbac_writes [OF api settles c b]
  show "(managed_for svc u b \<longrightarrow> own_name u (snd k)) \<and>
      (own_name u (snd k) \<longrightarrow> (\<forall>x\<in>set (rb_Subjects b). sub_Name x = u))"
  proof
    assume "view w k = Some b"
    then show ?thesis using tidy_viewD [OF tidy _ u] by blast
  next
    assume new: "own_name v (snd k) \<and> (\<forall>x\<in>set (rb_Subjects b). sub_Name x = v)"
    then have "own_name u (snd k) \<Longrightarrow> u = v" using own_name_user [OF u v] by blast
    moreover have "managed_for svc u b \<Longrightarrow> u = v" using managed_subject new by metis
    ultimately show ?thesis using new by blast
  qed
qed

lemma perform_rbac_keeps: "rbac_client_keeps f cl \<Longrightarrow> f (perform_rbac cl q w) = f w"
  by (cases q) (simp_all add: rbac_client_keepsD keepsD)

text \<open>Reading, and writing service accounts, does not touch the bindings.\<close>

lemma perform_views:
  assumes "kube_api K V"
  shows "v_RB V (perform K L (ClusterRoleBindingRequest q) w) = v_RB V w"
    and "v_SA V (perform K L (ClusterRoleBindingRequest q) w) = v_SA V w"
    and "v_CRB V (perform K L (RoleBindingRequest p) w) = v_CRB V w"
    and "v_SA V (perform K L (RoleBindingRequest p) w) = v_SA V w"
  using kube_apiD [OF assms] by (simp_all add: perform_rbac_keeps)

lemma tidy_perform:
  assumes api: "kube_api K V" and settles: "kube_settles K V" and dir: "directory_apart L V" and v: "CHR '':'' \<notin> set v"
    and c: "conforms v q" and tidy: "tidy V svc w"
  shows "tidy V svc (perform K L q w)"
proof (cases q)
  case (ClusterRoleBindingRequest p)
  then show ?thesis
    using perform_rbac_tidy [OF kube_apiD(1) [OF api] _ v, of p svc w] settles c tidy perform_views [OF api]
    by (simp add: tidy_def kube_settles_def)
next
  case (RoleBindingRequest p)
  then show ?thesis
    using perform_rbac_tidy [OF kube_apiD(2) [OF api] _ v, of p svc w] settles c tidy perform_views [OF api]
    by (simp add: tidy_def kube_settles_def)
qed (use tidy sa_client_keepsD [OF kube_apiD(8) [OF api]] sa_client_keepsD [OF kube_apiD(9) [OF api]]
     directory_apartD [OF dir, THEN perform_directory_keeps] in \<open>simp_all add: tidy_def keepsD\<close>)

text \<open>A request of one user's login goes unnoticed by the logins of the others.\<close>

lemma own_part_eqI: "(\<And>k. own_name u (snd k) \<Longrightarrow> view w' k = view w k) \<Longrightarrow> own_part u view w' = own_part u view w"
  by (simp add: fun_eq_iff own_part_def)

lemma perform_unnoticed:
  assumes api: "kube_api K V" and settles: "kube_settles K V" and dir: "directory_apart L V" and c: "conforms v q"
    and u: "CHR '':'' \<notin> set u" and v: "CHR '':'' \<notin> set v" and "u \<noteq> v"
  shows "unnoticed V svc u (perform K L q)"
  unfolding unnoticed_def
proof (intro allI conjI impI)
  fix w
  have not_own: "own_name u n \<Longrightarrow> \<not> own_name v n" for n
    using own_name_user [OF u v] \<open>u \<noteq> v\<close> by blast
  note sa = sa_apiD [OF kube_apiD(3) [OF api]]
  note keeps = sa_client_keepsD [OF kube_apiD(8) [OF api]] sa_client_keepsD [OF kube_apiD(9) [OF api]]
  note directory = directory_apartD [OF dir, THEN perform_directory_keeps]
  show "own_part u (v_CRB V) (perform K L q w) = own_part u (v_CRB V) w"
    using c perform_rbac_frame [OF kube_apiD(1) [OF api]] not_own perform_views [OF api]
    by (intro own_part_eqI, cases q) (simp_all add: keepsD keeps directory)
  show "own_part u (v_RB V) (perform K L q w) = own_part u (v_RB V) w"
    using c perform_rbac_frame [OF kube_apiD(2) [OF api]] not_own perform_views [OF api]
    by (intro own_part_eqI, cases q) (simp_all add: keepsD keeps directory)
  show "own_account u (v_SA V) (perform K L q w) = own_account u (v_SA V) w"
  proof (cases q)
    case (CreateServiceAccountRequest ns a)
    have "v_SA V (snd (sc_Create (cs_ServiceAccounts K) ns a w)) k = v_SA V w k" if "snd k = u" for k
      using that c CreateServiceAccountRequest \<open>u \<noteq> v\<close> by (intro keepsD [OF sa(6)]) auto
    then show ?thesis using CreateServiceAccountRequest by (simp add: fun_eq_iff own_account_def)
  qed (simp_all add: own_account_def fun_eq_iff keepsD sa directory perform_views [OF api, simplified])
  show "tidy V svc w \<Longrightarrow> tidy V svc (perform K L q w)"
    by (rule tidy_perform [OF api settles dir v c])
qed

end
