(* ===== verification/Interference.thy ===== *)
theory Interference
  imports Requests Login
begin

text \<open>
  A login among others. The API server is shared: before each request of the login the rest of
  the system acts on the cluster (\<open>env\<close>, at each turn as it likes), and the requests the login
  makes are recorded. The code is the same, its client set is the shared one. When the others
  only do what the login does not notice, the shared client set seen through the user's own
  part of the cluster keeps all promises of the API server, so that what is proved of a login
  alone carries over.
\<close>

section \<open>The shared client set\<close>

type_synonym 'w shared = "'w \<times> api_request list"

definition observed ::
  "(nat \<Rightarrow> 'w \<Rightarrow> 'w) \<Rightarrow> api_request \<Rightarrow> ('w \<Rightarrow> 'r \<times> 'w) \<Rightarrow> 'w shared \<Rightarrow> 'r \<times> 'w shared" where
  "observed env q call x =
     (let (r, w) = call (env (length (snd x)) (fst x)) in (r, w, snd x @ [q]))"

definition shared_rbac ::
  "(nat \<Rightarrow> 'w \<Rightarrow> 'w) \<Rightarrow> ('s rbac_request \<Rightarrow> api_request) \<Rightarrow> ('w, 's) rbac_client \<Rightarrow> ('w shared, 's) rbac_client" where
  "shared_rbac env tag cl =
     \<lparr>rc_List = (\<lambda>s sel. observed env (tag (ListBindings s sel)) (rc_List cl s sel)),
      rc_Get = (\<lambda>s n. observed env (tag (GetBinding s n)) (rc_Get cl s n)),
      rc_Create = (\<lambda>s b. observed env (tag (CreateBinding s b)) (rc_Create cl s b)),
      rc_Update = (\<lambda>s b. observed env (tag (UpdateBinding s b)) (rc_Update cl s b)),
      rc_Delete = (\<lambda>s n. observed env (tag (DeleteBinding s n)) (rc_Delete cl s n))\<rparr>"

definition shared_sa :: "(nat \<Rightarrow> 'w \<Rightarrow> 'w) \<Rightarrow> 'w sa_client \<Rightarrow> 'w shared sa_client" where
  "shared_sa env cl =
     \<lparr>sc_Get = (\<lambda>ns n. observed env (GetServiceAccountRequest ns n) (sc_Get cl ns n)),
      sc_Create = (\<lambda>ns a. observed env (CreateServiceAccountRequest ns a) (sc_Create cl ns a)),
      sc_CreateToken = (\<lambda>ns n t. observed env (CreateTokenRequest ns n t) (sc_CreateToken cl ns n t))\<rparr>"

definition shared_clientset :: "(nat \<Rightarrow> 'w \<Rightarrow> 'w) \<Rightarrow> 'w Clientset \<Rightarrow> 'w shared Clientset" where
  "shared_clientset env K =
     \<lparr>cs_ServiceAccounts = shared_sa env (cs_ServiceAccounts K),
      cs_ClusterRoleBindings = shared_rbac env ClusterRoleBindingRequest (cs_ClusterRoleBindings K),
      cs_RoleBindings = shared_rbac env RoleBindingRequest (cs_RoleBindings K),
      cs_IsNotFound = cs_IsNotFound K\<rparr>"

definition shared_svc :: "(nat \<Rightarrow> 'w \<Rightarrow> 'w) \<Rightarrow> 'w serviceAccountsService \<Rightarrow> 'w shared serviceAccountsService" where
  "shared_svc env svc =
     \<lparr>svc_env = svc_env svc, svc_clientset = shared_clientset env (svc_clientset svc),
      svc_namespace = svc_namespace svc\<rparr>"

section \<open>The user's own part\<close>

text \<open>
  The client set narrowed to a user's bindings: lists leave the others out, and requests about
  other names, which a login for the user does not make, are refused.
\<close>

definition refuse :: "'w \<Rightarrow> (api_error + 'a) \<times> 'w" where
  "refuse w = (Inl (ApiError ''Forbidden''), w)"

definition narrow_rbac :: "string \<Rightarrow> ('w, 's) rbac_client \<Rightarrow> ('w, 's) rbac_client" where
  "narrow_rbac u cl =
     cl\<lparr>rc_List := (\<lambda>s sel w. case rc_List cl s sel w of
            (Inl e, w') \<Rightarrow> (Inl e, w')
          | (Inr bs, w') \<Rightarrow> (Inr (filter (\<lambda>b. own_name u (rb_Name b)) bs), w')),
        rc_Get := (\<lambda>s n. if own_name u n then rc_Get cl s n else refuse),
        rc_Create := (\<lambda>s b. if own_name u (rb_Name b) then rc_Create cl s b else refuse),
        rc_Update := (\<lambda>s b. if own_name u (rb_Name b) then rc_Update cl s b else refuse)\<rparr>"

definition narrow_sa :: "string \<Rightarrow> 'w sa_client \<Rightarrow> 'w sa_client" where
  "narrow_sa u cl =
     cl\<lparr>sc_Get := (\<lambda>ns n. if n = u then sc_Get cl ns n else refuse),
        sc_Create := (\<lambda>ns a. if sa_Name a = u then sc_Create cl ns a else refuse)\<rparr>"

definition narrow_clientset :: "string \<Rightarrow> 'w Clientset \<Rightarrow> 'w Clientset" where
  "narrow_clientset u K =
     K\<lparr>cs_ServiceAccounts := narrow_sa u (cs_ServiceAccounts K),
       cs_ClusterRoleBindings := narrow_rbac u (cs_ClusterRoleBindings K),
       cs_RoleBindings := narrow_rbac u (cs_RoleBindings K)\<rparr>"

definition own_view :: "string \<Rightarrow> 'w KubeView \<Rightarrow> 'w shared KubeView" where
  "own_view u V =
     \<lparr>v_SA = (\<lambda>x. own_account u (v_SA V) (fst x)), v_CRB = (\<lambda>x. own_part u (v_CRB V) (fst x)),
      v_RB = (\<lambda>x. own_part u (v_RB V) (fst x))\<rparr>"

lemma own_view_simps [simp]:
  "v_SA (own_view u V) x = own_account u (v_SA V) (fst x)"
  "v_CRB (own_view u V) x = own_part u (v_CRB V) (fst x)"
  "v_RB (own_view u V) x = own_part u (v_RB V) (fst x)"
  by (simp_all add: own_view_def)

section \<open>The narrowed shared client set keeps the promises\<close>

lemma keeps_refuse: "keeps f refuse"
  by (simp add: keeps_def refuse_def)

lemma keeps_observed:
  assumes "keeps f call" and "\<And>n w. f (env n w) = f w"
  shows "keeps (\<lambda>x. f (fst x)) (observed env q call)"
  using assms by (auto simp: keeps_def observed_def split: prod.split) (metis snd_conv)

lemma observedE:
  assumes "observed env q call x = (r, x')"
  shows "call (env (length (snd x)) (fst x)) = (r, fst x')"
  using assms by (auto simp: observed_def split: prod.splits)

lemma fst_observed: "fst (observed env q call x) = fst (call (env (length (snd x)) (fst x)))"
  by (simp add: observed_def split: prod.split)

lemma own_keyD: "own_part u view w k = Some b \<Longrightarrow> own_name u (snd k) \<and> view w k = Some b"
  by (simp add: own_part_def split: if_splits)

lemma own_part_env:
  "own_part u view v = own_part u view w \<Longrightarrow> own_name u (snd k) \<Longrightarrow> view v k = view w k"
  by (metis own_part_def)

text \<open>A call that leaves one object alone leaves it alone with the others at work.\<close>

lemma keeps_own_observed:
  assumes "own_name u (snd k) \<Longrightarrow> keeps (\<lambda>w. view w k) call"
    and "\<And>n w. own_part u view (env n w) = own_part u view w"
  shows "keeps (\<lambda>x. own_part u view (fst x) k) (observed env q call)"
proof (cases "own_name u (snd k)")
  case True
  then have "keeps (\<lambda>x. view (fst x) k) (observed env q call)"
    by (intro keeps_observed [of "\<lambda>w. view w k"]) (simp_all add: assms(1) own_part_env [OF assms(2)])
  then show ?thesis using True by (simp add: keeps_def own_part_def)
next
  case False
  then show ?thesis by (simp add: keeps_def own_part_def)
qed

lemma keeps_own_view:
  "(\<And>k. keeps (\<lambda>x. own_part u view (fst x) k) op) \<Longrightarrow> keeps (\<lambda>x. own_part u view (fst x)) op"
  by (simp add: keeps_def fun_eq_iff)

lemma keeps_view_at: "keeps view op \<Longrightarrow> keeps (\<lambda>w. view w k) op"
  by (simp add: keeps_def)

lemma narrow_simps [simp]:
  "rc_Get (narrow_rbac u cl) s n = (if own_name u n then rc_Get cl s n else refuse)"
  "rc_Create (narrow_rbac u cl) s b = (if own_name u (rb_Name b) then rc_Create cl s b else refuse)"
  "rc_Update (narrow_rbac u cl) s b = (if own_name u (rb_Name b) then rc_Update cl s b else refuse)"
  "rc_Delete (narrow_rbac u cl) s n = rc_Delete cl s n"
  "sc_Get (narrow_sa u sa) ns n = (if n = u then sc_Get sa ns n else refuse)"
  "sc_Create (narrow_sa u sa) ns a = (if sa_Name a = u then sc_Create sa ns a else refuse)"
  "sc_CreateToken (narrow_sa u sa) = sc_CreateToken sa"
  by (simp_all add: narrow_rbac_def narrow_sa_def)

lemma shared_simps [simp]:
  "rc_List (shared_rbac env tag cl) s sel = observed env (tag (ListBindings s sel)) (rc_List cl s sel)"
  "rc_Get (shared_rbac env tag cl) s n = observed env (tag (GetBinding s n)) (rc_Get cl s n)"
  "rc_Create (shared_rbac env tag cl) s b = observed env (tag (CreateBinding s b)) (rc_Create cl s b)"
  "rc_Update (shared_rbac env tag cl) s b = observed env (tag (UpdateBinding s b)) (rc_Update cl s b)"
  "rc_Delete (shared_rbac env tag cl) s n = observed env (tag (DeleteBinding s n)) (rc_Delete cl s n)"
  "sc_Get (shared_sa env sa) ns n = observed env (GetServiceAccountRequest ns n) (sc_Get sa ns n)"
  "sc_Create (shared_sa env sa) ns a = observed env (CreateServiceAccountRequest ns a) (sc_Create sa ns a)"
  "sc_CreateToken (shared_sa env sa) ns n t = observed env (CreateTokenRequest ns n t) (sc_CreateToken sa ns n t)"
  by (simp_all add: shared_rbac_def shared_sa_def)

lemma narrow_List:
  "rc_List (narrow_rbac u cl) s sel = (\<lambda>w. case rc_List cl s sel w of
      (Inl e, w') \<Rightarrow> (Inl e, w') | (Inr bs, w') \<Rightarrow> (Inr (filter (\<lambda>b. own_name u (rb_Name b)) bs), w'))"
  by (simp add: narrow_rbac_def)

text \<open>Any part of the cluster that neither the calls nor the others change.\<close>

lemma narrow_shared_keeps:
  assumes "rbac_client_keeps f cl" and "\<And>n w. f (env n w) = f w"
  shows "rbac_client_keeps (\<lambda>x. f (fst x)) (narrow_rbac u (shared_rbac env tag cl))"
proof -
  note r = rbac_client_keepsD [OF assms(1)]
  have list: "keeps (\<lambda>x. f (fst x)) (rc_List (narrow_rbac u (shared_rbac env tag cl)) s sel)" for s sel
    unfolding narrow_List shared_simps
    by (intro keeps_rules keeps_observed r(1) assms(2))
  show ?thesis
    unfolding rbac_client_keeps_def
    by (simp add: list keeps_refuse keeps_observed [where f = f] r assms(2))
qed

lemma narrow_shared_sa_keeps:
  assumes "sa_client_keeps f cl" and "\<And>n w. f (env n w) = f w"
  shows "sa_client_keeps (\<lambda>x. f (fst x)) (narrow_sa u (shared_sa env cl))"
  using sa_client_keepsD [OF assms(1)]
  by (simp add: sa_client_keeps_def keeps_refuse keeps_observed [where f = f] assms(2))

lemma narrow_shared_reads:
  assumes api: "rbac_api ns all cl view" and env: "\<And>n w. own_part u view (env n w) = own_part u view w"
  shows "rbac_reads (narrow_rbac u (shared_rbac env tag cl)) (\<lambda>x. own_part u view (fst x))"
  unfolding rbac_reads_def
proof (intro conjI allI impI)
  note r = rbac_api_reads [OF api]
  show "keeps (\<lambda>x. own_part u view (fst x)) (rc_List (narrow_rbac u (shared_rbac env tag cl)) s sel)" for s sel
    unfolding narrow_List shared_simps
    by (intro keeps_rules keeps_own_view keeps_own_observed keeps_view_at [OF r(1)] env)
  show "keeps (\<lambda>x. own_part u view (fst x)) (rc_Get (narrow_rbac u (shared_rbac env tag cl)) s n)" for s n
  proof (cases "own_name u n")
    case True
    have "keeps (\<lambda>x. own_part u view (fst x)) (observed env (tag (GetBinding s n)) (rc_Get cl s n))"
      by (intro keeps_own_view keeps_own_observed keeps_view_at [OF r(2)] env)
    then show ?thesis using True by simp
  qed (simp add: keeps_refuse)
  fix x s n b
  assume get: "fst (rc_Get (narrow_rbac u (shared_rbac env tag cl)) s n x) = Inr b"
  then have own: "own_name u n" by (auto simp: refuse_def split: if_splits)
  then obtain x' where "observed env (tag (GetBinding s n)) (rc_Get cl s n) x = (Inr b, x')"
    using get by (auto simp: prod_eq_iff)
  note rbac_api_get [OF api observedE [OF this]]
  then show "own_part u view (fst x) (s, n) = Some b"
    using own own_part_env [OF env] by (simp add: own_part_def)
qed

lemma narrow_shared_lists:
  assumes api: "rbac_api ns all cl view" and env: "\<And>n w. own_part u view (env n w) = own_part u view w"
  shows "rbac_lists all (narrow_rbac u (shared_rbac env tag cl)) (\<lambda>x. own_part u view (fst x))"
  unfolding rbac_lists_def
proof (intro allI impI)
  fix x l v bs
  assume sel: "CHR ''='' \<notin> set l" "CHR ''='' \<notin> set v"
    and run: "fst (rc_List (narrow_rbac u (shared_rbac env tag cl)) all (l @ ''='' @ v) x) = Inr bs"
  let ?w = "env (length (snd x)) (fst x)"
  obtain items x' where o: "observed env (tag (ListBindings all (l @ ''='' @ v))) (rc_List cl all (l @ ''='' @ v)) x = (Inr items, x')"
    and bs: "bs = filter (\<lambda>b. own_name u (rb_Name b)) items"
    using run by (auto simp: narrow_List split: prod.splits sum.splits)
  note list = rbac_api_list [OF api observedE [OF o] sel]
  have key: "view ?w k = Some b \<Longrightarrow> rb_Name b = snd k" for k b
    using rbac_api_key [OF api, of ?w "fst k" "snd k" b] by simp
  have "set bs = {b. has_label l v b \<and> (\<exists>k. own_part u view ?w k = Some b)}"
  proof -
    have "(\<exists>k. view ?w k = Some b) \<and> own_name u (rb_Name b) \<longleftrightarrow> (\<exists>k. own_part u view ?w k = Some b)" for b
      using key [of _ b] own_keyD [of u view ?w] by (metis own_part_def)
    then show ?thesis unfolding bs set_filter list(2) by blast
  qed
  then show "distinct (map (\<lambda>b. (rb_Namespace b, rb_Name b)) bs) \<and>
      set bs = {b. has_label l v b \<and> (\<exists>k. own_part u view (fst x) k = Some b)}"
    using list(1) env by (simp add: bs distinct_map_filter)
qed

lemma narrow_shared_frames:
  fixes cl :: "('w, 's) rbac_client"
  assumes api: "rbac_api ns all cl view" and env: "\<And>n w. own_part u view (env n w) = own_part u view w"
  shows "rbac_frames (narrow_rbac u (shared_rbac env tag cl)) (\<lambda>x. own_part u view (fst x))"
  unfolding rbac_frames_def
proof (intro conjI allI impI)
  note f = rbac_api_frame [OF api]
  fix s b and k :: "'s \<times> string"
  assume k: "k \<noteq> (s, rb_Name b)"
  have "keeps (\<lambda>x. own_part u view (fst x) k) (observed env (tag (CreateBinding s b)) (rc_Create cl s b))"
    by (intro keeps_own_observed f(1) k env)
  then show "keeps (\<lambda>x. own_part u view (fst x) k) (rc_Create (narrow_rbac u (shared_rbac env tag cl)) s b)"
    by (simp add: keeps_refuse)
  have "keeps (\<lambda>x. own_part u view (fst x) k) (observed env (tag (UpdateBinding s b)) (rc_Update cl s b))"
    by (intro keeps_own_observed f(2) k env)
  then show "keeps (\<lambda>x. own_part u view (fst x) k) (rc_Update (narrow_rbac u (shared_rbac env tag cl)) s b)"
    by (simp add: keeps_refuse)
next
  note f = rbac_api_frame [OF api]
  fix s n and k :: "'s \<times> string"
  assume k: "k \<noteq> (s, n)"
  show "keeps (\<lambda>x. own_part u view (fst x) k) (rc_Delete (narrow_rbac u (shared_rbac env tag cl)) s n)"
    unfolding narrow_simps shared_simps by (intro keeps_own_observed f(3) k env)
qed

lemma narrow_shared_writes:
  assumes api: "rbac_api ns all cl view" and env: "\<And>n w. own_part u view (env n w) = own_part u view w"
  shows "rbac_writes (narrow_rbac u (shared_rbac env tag cl)) (\<lambda>x. own_part u view (fst x))"
  unfolding rbac_writes_def
proof (intro conjI allI impI)
  fix x x' s b b'
  assume run: "rc_Create (narrow_rbac u (shared_rbac env tag cl)) s b x = (Inr b', x')"
  then have own: "own_name u (rb_Name b)" by (auto simp: refuse_def split: if_splits)
  then have "observed env (tag (CreateBinding s b)) (rc_Create cl s b) x = (Inr b', x')" using run by simp
  note made = rbac_api_create [OF api observedE [OF this]]
  show "own_part u view (fst x) (s, rb_Name b) = None"
    using made(1) own own_part_env [OF env, of "(s, rb_Name b)"] by (simp add: own_part_def)
  show "own_part u view (fst x') (s, rb_Name b) = Some b'" and "stored_as b b'"
    using made(2,3) own by (simp_all add: own_part_def)
next
  fix x x' s b b'
  assume run: "rc_Update (narrow_rbac u (shared_rbac env tag cl)) s b x = (Inr b', x')"
  then have own: "own_name u (rb_Name b)" by (auto simp: refuse_def split: if_splits)
  then have "observed env (tag (UpdateBinding s b)) (rc_Update cl s b) x = (Inr b', x')" using run by simp
  note made = rbac_api_update [OF api observedE [OF this]]
  show "\<exists>old. own_part u view (fst x) (s, rb_Name b) = Some old \<and> rb_RoleRef b' = rb_RoleRef old"
    using made(1) own own_part_env [OF env, of "(s, rb_Name b)"] by (simp add: own_part_def)
  show "own_part u view (fst x') (s, rb_Name b) = Some b'" and "stored_as b b'"
    using made(2,3) own by (simp_all add: own_part_def)
next
  fix x x' s n
  assume "rc_Delete (narrow_rbac u (shared_rbac env tag cl)) s n x = (Inr (), x')"
  then have "observed env (tag (DeleteBinding s n)) (rc_Delete cl s n) x = (Inr (), x')" by simp
  note rbac_api_delete [OF api observedE [OF this]]
  then show "own_part u view (fst x') (s, n) = None" by (simp add: own_part_def)
qed

lemma narrow_shared_rbac_api:
  assumes api: "rbac_api ns all cl view" and env: "\<And>n w. own_part u view (env n w) = own_part u view w"
  shows "rbac_api ns all (narrow_rbac u (shared_rbac env tag cl)) (\<lambda>x. own_part u view (fst x))"
proof -
  have "rbac_keyed ns (\<lambda>x. own_part u view (fst x))"
    using rbac_api_key [OF api] own_keyD [of u view] unfolding rbac_keyed_def by blast
  then show ?thesis
    using narrow_shared_reads [OF assms] narrow_shared_lists [OF assms] narrow_shared_frames [OF assms]
      narrow_shared_writes [OF assms]
    by (simp add: rbac_api_def)
qed

lemma own_account_env:
  "own_account u view v = own_account u view w \<Longrightarrow> snd k = u \<Longrightarrow> view v k = view w k"
  by (metis own_account_def)

lemma keeps_own_account: "keeps view op \<Longrightarrow> keeps (own_account u view) op"
  by (simp add: keeps_def own_account_def fun_eq_iff)

lemma narrow_shared_sa_api:
  assumes api: "sa_api K view" and env: "\<And>n w. own_account u view (env n w) = own_account u view w"
  shows "sa_api (narrow_clientset u (shared_clientset env K)) (\<lambda>x. own_account u view (fst x))"
proof -
  note sa = sa_apiD [OF api]
  let ?cl = "narrow_sa u (shared_sa env (cs_ServiceAccounts K))" and ?view = "\<lambda>x. own_account u view (fst x)"
  have K: "cs_ServiceAccounts (narrow_clientset u (shared_clientset env K)) = ?cl"
    "cs_IsNotFound (narrow_clientset u (shared_clientset env K)) = cs_IsNotFound K"
    by (simp_all add: narrow_clientset_def shared_clientset_def)
  have get: "keeps ?view (sc_Get ?cl ns n)" and tok: "keeps ?view (sc_CreateToken ?cl ns n t)" for ns n t
    using keeps_observed [where env = env, OF keeps_own_account [OF sa(2)] env] keeps_observed [where env = env, OF keeps_own_account [OF sa(3)] env]
    by (simp_all add: keeps_refuse)
  have frame: "keeps (\<lambda>x. ?view x k) (sc_Create ?cl ns a)" if k: "k \<noteq> (ns, sa_Name a)" for ns a k
  proof (cases "snd k = u")
    case True
    have "keeps (\<lambda>x. view (fst x) k) (observed env (CreateServiceAccountRequest ns a) (sc_Create (cs_ServiceAccounts K) ns a))"
      by (rule keeps_observed [of "\<lambda>w. view w k", OF sa(6) [OF k] own_account_env [OF env True]])
    then show ?thesis using True by (simp add: keeps_def own_account_def refuse_def)
  qed (simp add: keeps_def own_account_def)
  have got: "?view x (ns, n) = Some a" if "fst (sc_Get ?cl ns n x) = Inr a" for x ns n a
  proof -
    have n: "n = u" using that by (auto simp: refuse_def split: if_splits)
    then have "view (env (length (snd x)) (fst x)) (ns, n) = Some a" using that sa(4) by (simp add: fst_observed)
    then show ?thesis using n own_account_env [OF env, of "(ns, n)"] by (simp add: own_account_def)
  qed
  have absent: "?view x (ns, n) = None"
    if "fst (sc_Get ?cl ns n x) = Inl e" and "cs_IsNotFound K e" for x ns n e
  proof (cases "n = u")
    case True
    then have "view (env (length (snd x)) (fst x)) (ns, n) = None" using that sa(5) by (simp add: fst_observed)
    then show ?thesis using True own_account_env [OF env, of "(ns, n)"] by (simp add: own_account_def)
  qed (simp add: own_account_def)
  have made: "?view x (ns, sa_Name a) = None \<and> ?view x' (ns, sa_Name a) = Some a'"
    if "sc_Create ?cl ns a x = (Inr a', x')" for x x' ns a a'
  proof -
    have n: "sa_Name a = u" using that by (auto simp: refuse_def split: if_splits)
    then have o: "observed env (CreateServiceAccountRequest ns a) (sc_Create (cs_ServiceAccounts K) ns a) x = (Inr a', x')"
      using that by simp
    show ?thesis
      using sa(7) [OF observedE [OF o]] n own_account_env [OF env, of "(ns, sa_Name a)"]
      by (simp add: own_account_def)
  qed
  have key: "sa_Name a = n" if "?view x (ns, n) = Some a" for x ns n a
    using that sa(1) by (auto simp: own_account_def split: if_splits)
  show ?thesis
    unfolding sa_api_def K
    by (intro conjI allI impI) (erule key get tok got absent frame made [THEN conjunct1] made [THEN conjunct2] | rule get tok | assumption)+
qed

lemma unnoticedD:
  assumes "unnoticed V svc u e"
  shows "own_part u (v_CRB V) (e w) = own_part u (v_CRB V) w" "own_part u (v_RB V) (e w) = own_part u (v_RB V) w"
    "own_account u (v_SA V) (e w) = own_account u (v_SA V) w" "tidy V svc w \<Longrightarrow> tidy V svc (e w)"
  using assms by (simp_all add: unnoticed_def)

lemma own_part_keeps: "rbac_client_keeps view cl \<Longrightarrow> rbac_client_keeps (own_part u view) cl"
  by (simp add: rbac_client_keeps_def keeps_def own_part_def fun_eq_iff)

lemma own_part_sa_keeps: "sa_client_keeps view cl \<Longrightarrow> sa_client_keeps (own_part u view) cl"
  by (simp add: sa_client_keeps_def keeps_def own_part_def fun_eq_iff)

lemma own_account_keeps: "rbac_client_keeps view cl \<Longrightarrow> rbac_client_keeps (own_account u view) cl"
  by (simp add: rbac_client_keeps_def keeps_def own_account_def fun_eq_iff)

lemma narrow_shared_kube_api:
  assumes api: "kube_api K V" and env: "\<And>n. unnoticed V svc u (env n)"
  shows "kube_api (narrow_clientset u (shared_clientset env K)) (own_view u V)"
proof -
  note k = kube_apiD [OF api] and e = unnoticedD [OF env]
  have "cs_ClusterRoleBindings (narrow_clientset u (shared_clientset env K)) =
      narrow_rbac u (shared_rbac env ClusterRoleBindingRequest (cs_ClusterRoleBindings K))"
    "cs_RoleBindings (narrow_clientset u (shared_clientset env K)) =
      narrow_rbac u (shared_rbac env RoleBindingRequest (cs_RoleBindings K))"
    "cs_ServiceAccounts (narrow_clientset u (shared_clientset env K)) = narrow_sa u (shared_sa env (cs_ServiceAccounts K))"
    by (simp_all add: narrow_clientset_def shared_clientset_def)
  then show ?thesis
    using narrow_shared_rbac_api [where env = env, OF k(1) e(1)] narrow_shared_rbac_api [where env = env, OF k(2) e(2)]
      narrow_shared_sa_api [where env = env, OF k(3) e(3)]
      narrow_shared_keeps [where env = env, OF own_part_keeps [OF k(4)] e(2)]
      narrow_shared_keeps [where env = env, OF own_account_keeps [OF k(5)] e(3)]
      narrow_shared_keeps [where env = env, OF own_part_keeps [OF k(6)] e(1)]
      narrow_shared_keeps [where env = env, OF own_account_keeps [OF k(7)] e(3)]
      narrow_shared_sa_keeps [where env = env, OF own_part_sa_keeps [OF k(8)] e(1)]
      narrow_shared_sa_keeps [where env = env, OF own_part_sa_keeps [OF k(9)] e(2)]
    by (simp add: kube_api_def own_view_def)
qed

end
