(* ===== verification/SharedLogin.thy ===== *)
theory SharedLogin
  imports Interference
begin

text \<open>
  The code on the shared client set. Every request it makes conforms, the invariant of the
  cluster is kept through all interleavings, and the narrowed client set gives the same run:
  the code never meets the difference. With theory Interference this carries the
  reconciliation's result over to a cluster that others write to at the same time.
\<close>

section \<open>Narrowing does not change the run\<close>

definition narrow_svc :: "string \<Rightarrow> 'w serviceAccountsService \<Rightarrow> 'w serviceAccountsService" where
  "narrow_svc u svc = svc\<lparr>svc_clientset := narrow_clientset u (svc_clientset svc)\<rparr>"

definition narrow_auth :: "string \<Rightarrow> ('c, 'w) authService \<Rightarrow> ('c, 'w) authService" where
  "narrow_auth u s = s\<lparr>as_serviceAccountsSvc := narrow_svc u (as_serviceAccountsSvc s)\<rparr>"

lemma narrow_svc_simps [simp]:
  "svc_namespace (narrow_svc u svc) = svc_namespace svc" "svc_env (narrow_svc u svc) = svc_env svc"
  "svc_clientset (narrow_svc u svc) = narrow_clientset u (svc_clientset svc)"
  "sa_subjects (narrow_svc u svc) v = sa_subjects svc v"
  "bindingObject (narrow_svc u svc) v l r = bindingObject svc v l r"
  "managed_for (narrow_svc u svc) v b = managed_for svc v b"
  by (simp_all add: narrow_svc_def sa_subjects_def bindingObject_def managed_for_def)

lemma narrow_auth_simps [simp]:
  "as_serviceAccountsSvc (narrow_auth u s) = narrow_svc u (as_serviceAccountsSvc s)"
  "as_k8sSvc (narrow_auth u s) = as_k8sSvc s" "as_ldapSvc (narrow_auth u s) = as_ldapSvc s"
  "as_crbOrder (narrow_auth u s) = as_crbOrder s" "as_rbOrder (narrow_auth u s) = as_rbOrder s"
  "as_env (narrow_auth u s) = as_env s" "as_ldapGroupBindingsSvc (narrow_auth u s) = as_ldapGroupBindingsSvc s"
  "wired (narrow_auth u s) = wired s"
  by (simp_all add: narrow_auth_def wired_def)

lemma narrow_clientset_simps [simp]:
  "cs_ClusterRoleBindings (narrow_clientset u K) = narrow_rbac u (cs_ClusterRoleBindings K)"
  "cs_RoleBindings (narrow_clientset u K) = narrow_rbac u (cs_RoleBindings K)"
  "cs_ServiceAccounts (narrow_clientset u K) = narrow_sa u (cs_ServiceAccounts K)"
  "cs_IsNotFound (narrow_clientset u K) = cs_IsNotFound K"
  by (simp_all add: narrow_clientset_def)

lemma narrow_writes:
  "CreateClusterRoleBinding (narrow_svc u svc) u r l = CreateClusterRoleBinding svc u r l"
  "DeleteClusterRoleBinding (narrow_svc u svc) n = DeleteClusterRoleBinding svc n"
  "CreateRoleBinding (narrow_svc u svc) u ns l rr = CreateRoleBinding svc u ns l rr"
  "DeleteRoleBinding (narrow_svc u svc) ns n = DeleteRoleBinding svc ns n"
  by (simp_all add: single_call_eqs)

lemma narrow_accounts:
  "UpsertServiceAccount (narrow_svc u svc) u = UpsertServiceAccount svc u"
  "IssueToken (narrow_svc u svc) v = IssueToken svc v"
proof -
  have create: "createServiceAccount (narrow_svc u svc) u = createServiceAccount svc u"
    by (simp add: single_call_eqs)
  show "UpsertServiceAccount (narrow_svc u svc) u = UpsertServiceAccount svc u"
    unfolding fun_eq_iff UpsertServiceAccount_def narrow_svc_simps narrow_clientset_simps create by simp
qed (simp add: single_call_eqs)

text \<open>A read object has the name it was asked for by, so the update is about an own name.\<close>

definition gets_named :: "('w, 's) rbac_client \<Rightarrow> bool" where
  "gets_named cl \<longleftrightarrow> (\<forall>s n w b. fst (rc_Get cl s n w) = Inr b \<longrightarrow> rb_Name b = n)"

lemma gets_namedD: "gets_named cl \<Longrightarrow> rc_Get cl s n w = (Inr b, w') \<Longrightarrow> rb_Name b = n"
  unfolding gets_named_def by (metis fst_conv)

lemma shared_gets_named:
  assumes "rbac_api ns all cl view"
  shows "gets_named (shared_rbac env tag cl)"
  unfolding gets_named_def
proof (intro allI impI)
  fix s n x b
  assume "fst (rc_Get (shared_rbac env tag cl) s n x) = Inr b"
  then have "rc_Get cl s n (env (length (snd x)) (fst x)) = (Inr b, snd (rc_Get cl s n (env (length (snd x)) (fst x))))"
    by (simp add: fst_observed prod_eq_iff)
  from rbac_api_get [OF assms this] show "rb_Name b = n" using rbac_api_key [OF assms] by metis
qed

lemma narrow_updates:
  assumes "gets_named (cs_ClusterRoleBindings (svc_clientset svc))" and "gets_named (cs_RoleBindings (svc_clientset svc))"
  shows "UpdateClusterRoleBinding (narrow_svc u svc) u r l = UpdateClusterRoleBinding svc u r l"
    and "UpdateRoleBinding (narrow_svc u svc) u ns rr l = UpdateRoleBinding svc u ns rr l"
  by (auto simp: fun_eq_iff UpdateClusterRoleBinding_def UpdateRoleBinding_def
      dest: gets_namedD [OF assms(1)] gets_namedD [OF assms(2)] split: prod.split sum.split)

lemma narrow_loops:
  assumes "gets_named (cs_ClusterRoleBindings (svc_clientset (as_serviceAccountsSvc s)))"
    and "gets_named (cs_RoleBindings (svc_clientset (as_serviceAccountsSvc s)))"
  shows "ensureBindings (narrow_auth u s) u ls = ensureBindings s u ls"
    and "removeUnusedClusterRoleBindings (narrow_auth u s) u m = removeUnusedClusterRoleBindings s u m"
    and "removeUnusedRoleBindings (narrow_auth u s) u m = removeUnusedRoleBindings s u m"
proof -
  have "ensureBinding (narrow_auth u s) u = ensureBinding s u"
    unfolding fun_eq_iff ensureBinding_def ensureClusterRoleBinding_def ensureRoleBinding_def
      narrow_auth_simps narrow_writes narrow_updates [OF assms]
    by simp
  then show "ensureBindings (narrow_auth u s) u ls = ensureBindings s u ls"
    by (simp add: ensureBindings_def)
  show "removeUnusedClusterRoleBindings (narrow_auth u s) u m = removeUnusedClusterRoleBindings s u m"
    and "removeUnusedRoleBindings (narrow_auth u s) u m = removeUnusedRoleBindings s u m"
    unfolding fun_eq_iff removeUnusedClusterRoleBindings_def removeUnusedRoleBindings_def
      narrow_auth_simps narrow_writes
    by simp_all
qed

section \<open>The lists\<close>

text \<open>In a tidy cluster the user's bindings have names of their own, so nothing is left out.\<close>

lemma narrow_filter:
  assumes "\<And>b. b \<in> set items \<Longrightarrow> managed_for svc u b \<Longrightarrow> own_name u (rb_Name b)"
    and "\<And>b. b \<in> set items \<Longrightarrow> has_label saManagedLabel ''true'' b"
  shows "filterBindings (svc_namespace svc) u (filter (\<lambda>b. own_name u (rb_Name b)) items) =
    filterBindings (svc_namespace svc) u items"
  using assms unfolding filterBindings_filter managed_for_def by (auto intro: filter_cong)

lemma shared_listed:
  assumes api: "rbac_api ns all cl view" and tidy: "tidy_view svc (view (env (length (snd x)) (fst x)))"
    and u: "CHR '':'' \<notin> set u"
    and run: "rc_List (shared_rbac env tag cl) all (saManagedLabel @ ''=true'') x = (Inr items, x')"
    and b: "b \<in> set items"
  shows "has_label saManagedLabel ''true'' b" and "managed_for svc u b \<Longrightarrow> own_name u (rb_Name b)"
proof -
  have "rc_List cl all (saManagedLabel @ ''='' @ ''true'') (env (length (snd x)) (fst x)) = (Inr items, fst x')"
    using observedE [OF run [unfolded shared_simps]] by simp
  note list = rbac_api_list [OF api this selector_ok]
  show "has_label saManagedLabel ''true'' b" using list(2) b by blast
  obtain k where k: "view (env (length (snd x)) (fst x)) k = Some b" using list(2) b by blast
  then have "rb_Name b = snd k" using rbac_api_key [OF api, of _ "fst k" "snd k" b] by simp
  then show "managed_for svc u b \<Longrightarrow> own_name u (rb_Name b)" using tidy_viewD(1) [OF tidy k u] by simp
qed

section \<open>Every request conforms and the cluster stays tidy\<close>

text \<open>
  \<open>svc\<close> is a service accounts service on a cluster that keeps its promises, beside a directory,
  for users without a colon. \<open>quiet\<close> says that in the first \<open>m\<close> turns the others did nothing that a login for \<open>u\<close>
  notices. \<open>orderly\<close> holds of every state of a login: as long as the others were quiet the
  cluster is tidy, and each request made so far conforms if the others were quiet up to it.
  So a request depends on what was done before it only. \<open>c\<close> is a number of requests already
  made.
\<close>

definition shares :: "'w KubeView \<Rightarrow> 'w ldap_lib \<Rightarrow> 'w serviceAccountsService \<Rightarrow> string \<Rightarrow> bool" where
  "shares V L svc u \<longleftrightarrow>
     kube_api (svc_clientset svc) V \<and> kube_settles (svc_clientset svc) V \<and> directory_apart L V \<and> CHR '':'' \<notin> set u"

lemma sharesD:
  assumes "shares V L svc u"
  shows "kube_api (svc_clientset svc) V" and "kube_settles (svc_clientset svc) V" and "directory_apart L V" and "CHR '':'' \<notin> set u"
  using assms by (simp_all add: shares_def)

definition quiet :: "'w KubeView \<Rightarrow> 'w serviceAccountsService \<Rightarrow> string \<Rightarrow> (nat \<Rightarrow> 'w \<Rightarrow> 'w) \<Rightarrow> nat \<Rightarrow> bool" where
  "quiet V svc u env m \<longleftrightarrow> (\<forall>n<m. unnoticed V svc u (env n))"

definition orderly ::
  "'w KubeView \<Rightarrow> 'w serviceAccountsService \<Rightarrow> string \<Rightarrow> (nat \<Rightarrow> 'w \<Rightarrow> 'w) \<Rightarrow> nat \<Rightarrow> 'w shared \<Rightarrow> bool" where
  "orderly V svc u env c x \<longleftrightarrow>
     c \<le> length (snd x) \<and> (quiet V svc u env (length (snd x)) \<longrightarrow> tidy V svc (fst x)) \<and>
     (\<forall>j<length (snd x). quiet V svc u env (Suc j) \<longrightarrow> conforms u (snd x ! j))"

lemma quiet_mono: "quiet V svc u env m \<Longrightarrow> n \<le> m \<Longrightarrow> quiet V svc u env n"
  by (simp add: quiet_def)

lemma orderly_from: "orderly V svc u env c x \<Longrightarrow> orderly V svc u env (length (snd x)) x"
  by (simp add: orderly_def)

lemma orderly_0: "orderly V svc u env c x \<Longrightarrow> orderly V svc u env 0 x"
  by (simp add: orderly_def)

lemma orderly_tidy:
  "orderly V svc u env c x \<Longrightarrow> quiet V svc u env (Suc (length (snd x))) \<Longrightarrow>
     tidy V svc (env (length (snd x)) (fst x))"
  by (rule unnoticedD(4)) (auto simp: orderly_def quiet_def)

text \<open>A shared call: the others act, then the request is served and recorded.\<close>

lemma observed_log: "observed env q call x = (r, x') \<Longrightarrow> snd x' = snd x @ [q]"
  by (auto simp: observed_def split: prod.splits)

lemma observed_orderly:
  assumes sh: "shares V L svc u" and x: "orderly V svc u env c x"
    and c: "quiet V svc u env (Suc (length (snd x))) \<Longrightarrow> conforms u q"
    and call: "\<And>w. snd (call w) = perform (svc_clientset svc) L q w"
  shows "orderly V svc u env c (snd (observed env q call x))"
proof -
  let ?w = "env (length (snd x)) (fst x)"
  have world: "snd (observed env q call x) = (perform (svc_clientset svc) L q ?w, snd x @ [q])"
    using call [of ?w] by (auto simp: observed_def split: prod.split)
  have "tidy V svc (perform (svc_clientset svc) L q ?w)" if "quiet V svc u env (Suc (length (snd x)))"
    by (rule tidy_perform [OF sharesD [OF sh] c [OF that] orderly_tidy [OF x that]])
  then show ?thesis
    unfolding world using x c by (auto simp: orderly_def nth_append less_Suc_eq)
qed

text \<open>Operations that keep such an invariant.\<close>

definition stays :: "('x \<Rightarrow> bool) \<Rightarrow> ('x \<Rightarrow> 'r \<times> 'x) \<Rightarrow> bool" where
  "stays P op \<longleftrightarrow> (\<forall>x. P x \<longrightarrow> P (snd (op x)))"

lemma staysD: "stays P op \<Longrightarrow> P x \<Longrightarrow> op x = (r, x') \<Longrightarrow> P x'"
  unfolding stays_def by (metis snd_conv)

lemma stays_case:
  assumes "stays P m" and "\<And>e. stays P (h e)" and "\<And>y. stays P (g y)"
  shows "stays P (\<lambda>x. case m x of (Inl e, x') \<Rightarrow> h e x' | (Inr y, x') \<Rightarrow> g y x')"
  using assms unfolding stays_def by (auto split: prod.split sum.split)

lemma stays_bind:
  assumes get: "stays P m" and h: "\<And>e. stays P (h e)"
    and upd: "\<And>x y x'. P x \<Longrightarrow> m x = (Inr y, x') \<Longrightarrow> P x' \<Longrightarrow> P (snd (g y x'))"
  shows "stays P (\<lambda>x. case m x of (Inl e, x') \<Rightarrow> h e x' | (Inr y, x') \<Rightarrow> g y x')"
  unfolding stays_def
proof (intro allI impI)
  fix x
  assume x: "P x"
  obtain r x' where m: "m x = (r, x')" by fastforce
  then have x': "P x'" using staysD [OF get x] by blast
  show "P (snd (case m x of (Inl e, x') \<Rightarrow> h e x' | (Inr y, x') \<Rightarrow> g y x'))"
    using m x' h upd [OF x] by (cases r) (auto simp: stays_def)
qed

lemma stays_pure: "stays P (\<lambda>x. (r, x))"
  by (simp add: stays_def)

lemma stays_for_each: "(\<And>y. y \<in> set ys \<Longrightarrow> stays P (f y)) \<Longrightarrow> stays P (for_each f ys)"
  unfolding stays_def by (intro allI impI, rule for_each_invariant [where P = P]) blast+

lemma orderly_observed:
  assumes "shares V L svc u" and "conforms u q" and "\<And>w. snd (call w) = perform (svc_clientset svc) L q w"
  shows "stays (orderly V svc u env c) (observed env q call)"
  using observed_orderly [OF assms(1) _ assms(2,3)] by (simp add: stays_def)

lemma shared_svc_simps [simp]:
  "svc_clientset (shared_svc env svc) = shared_clientset env (svc_clientset svc)"
  "svc_namespace (shared_svc env svc) = svc_namespace svc" "svc_env (shared_svc env svc) = svc_env svc"
  "sa_subjects (shared_svc env svc) v = sa_subjects svc v"
  "bindingObject (shared_svc env svc) v l r = bindingObject svc v l r"
  "managed_for (shared_svc env svc) v b = managed_for svc v b"
  by (simp_all add: shared_svc_def sa_subjects_def bindingObject_def managed_for_def)

lemma shared_clientset_simps [simp]:
  "cs_ClusterRoleBindings (shared_clientset env K) = shared_rbac env ClusterRoleBindingRequest (cs_ClusterRoleBindings K)"
  "cs_RoleBindings (shared_clientset env K) = shared_rbac env RoleBindingRequest (cs_RoleBindings K)"
  "cs_ServiceAccounts (shared_clientset env K) = shared_sa env (cs_ServiceAccounts K)"
  "cs_IsNotFound (shared_clientset env K) = cs_IsNotFound K"
  by (simp_all add: shared_clientset_def)

lemma own_subjects: "\<forall>x\<in>set (sa_subjects svc u). sub_Name x = u"
  by (simp add: sa_subjects_def)

lemma shared_writes_stay:
  assumes sh: "shares V L svc u"
  shows "stays (orderly V svc u env c) (CreateClusterRoleBinding (shared_svc env svc) u r l)"
    and "stays (orderly V svc u env c) (CreateRoleBinding (shared_svc env svc) u ns l rr)"
    and "stays (orderly V svc u env c) (IssueToken (shared_svc env svc) u)"
  by (simp_all add: single_call_eqs orderly_observed [OF sh] own_subjects)

lemma UpsertServiceAccount_stays:
  assumes sh: "shares V L svc u"
  shows "stays (orderly V svc u env c) (UpsertServiceAccount (shared_svc env svc) u)"
proof -
  have "stays (orderly V svc u env c) (createServiceAccount (shared_svc env svc) u)"
    by (simp add: single_call_eqs orderly_observed [OF sh])
  then have fallback: "stays (orderly V svc u env c) (\<lambda>x. if b then createServiceAccount (shared_svc env svc) u x else (Inl e, x))" for b e
    by (simp add: stays_def)
  show ?thesis
    unfolding UpsertServiceAccount_def
    by (intro stays_case fallback stays_pure) (simp add: orderly_observed [OF sh])
qed

lemma shared_lists_stay:
  assumes sh: "shares V L svc u"
  shows "stays (orderly V svc u env c) (GetClusterRoleBindings (shared_svc env svc) u)"
    and "stays (orderly V svc u env c) (GetRoleBindings (shared_svc env svc) u)"
  unfolding GetClusterRoleBindings_def GetRoleBindings_def
  by (intro stays_case stays_pure, simp add: orderly_observed [OF sh])+

text \<open>
  An update submits the object as it was read: in a tidy cluster an object with an own name
  has no other subject, whoever acted before. A deletion is of a name that was listed.
\<close>

lemma shared_read:
  assumes api: "rbac_api ns all cl view" and tidy: "tidy_view svc (view (env (length (snd x)) (fst x)))"
    and u: "CHR '':'' \<notin> set u" and own: "own_name u n"
    and get: "rc_Get (shared_rbac env tag cl) s n x = (Inr b, x')"
  shows "\<forall>y\<in>set (rb_Subjects b). sub_Name y = u"
proof -
  note b = rbac_api_get [OF api observedE [OF get [unfolded shared_simps]]]
  show "\<forall>y\<in>set (rb_Subjects b). sub_Name y = u" using tidy_viewD(2) [OF tidy b u] own by simp
qed

lemma shared_updates_stay:
  assumes sh: "shares V L svc u"
  shows "stays (orderly V svc u env c) (UpdateClusterRoleBinding (shared_svc env svc) u r l)"
    and "stays (orderly V svc u env c) (UpdateRoleBinding (shared_svc env svc) u ns rr l)"
proof -
  note api = kube_apiD(1,2) [OF sharesD(1) [OF sh]] and u = sharesD(4) [OF sh]
  let ?cl = "shared_rbac env ClusterRoleBindingRequest (cs_ClusterRoleBindings (svc_clientset svc))"
    and ?rcl = "shared_rbac env RoleBindingRequest (cs_RoleBindings (svc_clientset svc))"
  let ?n = "GenBindingName u r l" and ?m = "GenBindingName u (rr_Name rr) l" and ?P = "orderly V svc u env c"
  show "stays ?P (UpdateClusterRoleBinding (shared_svc env svc) u r l)"
    unfolding UpdateClusterRoleBinding_eq shared_svc_simps shared_clientset_simps pass_on
  proof (rule stays_bind [OF _ stays_pure])
    show "stays ?P (rc_Get ?cl () ?n)" by (simp add: orderly_observed [OF sh])
    fix x b x'
    assume x: "?P x" and get: "rc_Get ?cl () ?n x = (Inr b, x')" and x': "?P x'"
    have "conforms_rbac u (UpdateBinding () (b\<lparr>rb_RoleRef := (rb_RoleRef b)\<lparr>rr_Name := r\<rparr>, rb_Subjects := rb_Subjects b\<rparr>))"
      if q: "quiet V svc u env (Suc (length (snd x')))"
    proof -
      have "quiet V svc u env (Suc (length (snd x)))"
        using quiet_mono [OF q] observed_log [OF get [unfolded shared_simps]] by simp
      then have "tidy_view svc (v_CRB V (env (length (snd x)) (fst x)))"
        using orderly_tidy [OF x] by (simp add: tidy_def)
      then show ?thesis
        using shared_read [OF api(1) _ u own_name_GenBindingName get] gets_namedD [OF shared_gets_named [OF api(1)] get]
        by simp
    qed
    then show "?P (snd (rc_Update ?cl () (b\<lparr>rb_RoleRef := (rb_RoleRef b)\<lparr>rr_Name := r\<rparr>, rb_Subjects := rb_Subjects b\<rparr>) x'))"
      unfolding shared_simps by (intro observed_orderly [OF sh x']) simp_all
  qed
  show "stays ?P (UpdateRoleBinding (shared_svc env svc) u ns rr l)"
    unfolding UpdateRoleBinding_eq shared_svc_simps shared_clientset_simps pass_on
  proof (rule stays_bind [OF _ stays_pure])
    show "stays ?P (rc_Get ?rcl ns ?m)" by (simp add: orderly_observed [OF sh])
    fix x b x'
    assume get: "rc_Get ?rcl ns ?m x = (Inr b, x')" and x': "?P x'"
    have "conforms_rbac u (UpdateBinding ns (b\<lparr>rb_RoleRef := rr, rb_Subjects := sa_subjects svc u\<rparr>))"
      using gets_namedD [OF shared_gets_named [OF api(2)] get] own_subjects by simp
    then show "?P (snd (rc_Update ?rcl ns (b\<lparr>rb_RoleRef := rr, rb_Subjects := sa_subjects svc u\<rparr>) x'))"
      unfolding shared_simps by (intro observed_orderly [OF sh x']) simp_all
  qed
qed

lemma shared_deletes_stay:
  assumes sh: "shares V L svc u" and own: "quiet V svc u env c \<Longrightarrow> own_name u n"
  shows "stays (orderly V svc u env c) (DeleteClusterRoleBinding (shared_svc env svc) n)"
    and "stays (orderly V svc u env c) (DeleteRoleBinding (shared_svc env svc) ns n)"
proof -
  have "own_name u n" if "orderly V svc u env c x" "quiet V svc u env (Suc (length (snd x)))" for x :: "'a shared"
    using own quiet_mono [OF that(2), of c] that(1) by (simp add: orderly_def)
  then show "stays (orderly V svc u env c) (DeleteClusterRoleBinding (shared_svc env svc) n)"
    and "stays (orderly V svc u env c) (DeleteRoleBinding (shared_svc env svc) ns n)"
    unfolding stays_def by (auto simp: single_call_eqs intro!: observed_orderly [OF sh])
qed

section \<open>The loops\<close>

text \<open>
  The maps of existing bindings: each name once, and only names of the user when the others
  were quiet until the bindings were listed, which \<open>own\<close> stands for.
\<close>

definition own_map :: "bool \<Rightarrow> string \<Rightarrow> (string, rbac_binding) gomap \<Rightarrow> bool" where
  "own_map own u m \<longleftrightarrow> distinct (map fst m) \<and> (own \<longrightarrow> (\<forall>n\<in>fst ` set m. own_name u n))"

lemma own_map_delete: "own_map own u m \<Longrightarrow> own_map own u (AList.delete n m)"
  unfolding own_map_def list.set_map [symmetric] delete_keys by (auto simp: distinct_removeAll)

lemma own_map_entry:
  assumes "own_map own u m" and "visits_each ord" and "(n, b) \<in> set (range_entries ord m)" and "own"
  shows "own_name u n"
proof -
  have "map_of m n = Some b" using assms by (simp add: range_entries_iff own_map_def)
  then have "n \<in> fst ` set m" by (metis fst_conv image_eqI map_of_SomeD)
  then show ?thesis using assms(1,4) unfolding own_map_def by blast
qed

definition orderly_pass ::
  "'w KubeView \<Rightarrow> 'w serviceAccountsService \<Rightarrow> string \<Rightarrow> (nat \<Rightarrow> 'w \<Rightarrow> 'w) \<Rightarrow> nat \<Rightarrow>
     crbMap \<times> rbMap \<times> 'w shared \<Rightarrow> bool" where
  "orderly_pass V svc u env c st \<longleftrightarrow>
     (case st of (cm, rm, x) \<Rightarrow>
        own_map (quiet V svc u env c) u cm \<and> own_map (quiet V svc u env c) u rm \<and> orderly V svc u env c x)"

lemma ensureClusterRoleBinding_orderly:
  assumes sh: "shares V L svc u" and s: "as_serviceAccountsSvc s = shared_svc env svc"
    and x: "own_map own u m" "orderly V svc u env c x"
    and run: "ensureClusterRoleBinding s u l i n m x = (r, m', x')"
  shows "own_map own u m'" and "orderly V svc u env c x'"
proof -
  note stays = staysD [OF shared_writes_stay(1) [OF sh] x(2)] staysD [OF shared_updates_stay(1) [OF sh] x(2)]
  have "own_map own u m' \<and> orderly V svc u env c x'"
    using run x own_map_delete [OF x(1)]
    by (auto simp: ensureClusterRoleBinding_def s split: option.splits prod.splits sum.splits if_splits
        dest: stays)
  then show "own_map own u m'" and "orderly V svc u env c x'" by simp_all
qed

lemma ensureRoleBinding_orderly:
  assumes sh: "shares V L svc u" and s: "as_serviceAccountsSvc s = shared_svc env svc"
    and x: "own_map own u m" "orderly V svc u env c x"
    and run: "ensureRoleBinding s u l i n m x = (r, m', x')"
  shows "own_map own u m'" and "orderly V svc u env c x'"
proof -
  note stays = staysD [OF shared_writes_stay(2) [OF sh] x(2)] staysD [OF shared_updates_stay(2) [OF sh] x(2)]
  have "own_map own u m' \<and> orderly V svc u env c x'"
    using run x own_map_delete [OF x(1)]
    by (auto simp: ensureRoleBinding_def s Let_def split: option.splits prod.splits sum.splits if_splits
        dest: stays)
  then show "own_map own u m'" and "orderly V svc u env c x'" by simp_all
qed

lemma ensureBinding_orderly:
  assumes sh: "shares V L svc u" and s: "as_serviceAccountsSvc s = shared_svc env svc"
  shows "stays (orderly_pass V svc u env c) (ensureBinding s u l i)"
  unfolding stays_def
proof (intro allI impI)
  fix st
  assume st: "orderly_pass V svc u env c st"
  obtain cm rm x where p: "st = (cm, rm, x)" by (metis prod_cases3)
  then have own: "own_map (quiet V svc u env c) u cm" "own_map (quiet V svc u env c) u rm"
    and x: "orderly V svc u env c x"
    using st by (simp_all add: orderly_pass_def)
  show "orderly_pass V svc u env c (snd (ensureBinding s u l i st))"
    using ensureClusterRoleBinding_orderly [OF sh s own(1) x] ensureRoleBinding_orderly [OF sh s own(2) x]
    by (auto simp: ensureBinding_def p orderly_pass_def own x Let_def split: prod.split)
qed

lemma removeUnused_orderly:
  assumes sh: "shares V L svc u" and s: "as_serviceAccountsSvc s = shared_svc env svc"
    and m: "own_map (quiet V svc u env c) u m"
  shows "visits_each (as_crbOrder s) \<Longrightarrow> stays (orderly V svc u env c) (removeUnusedClusterRoleBindings s u m)"
    and "visits_each (as_rbOrder s) \<Longrightarrow> stays (orderly V svc u env c) (removeUnusedRoleBindings s u m)"
proof -
  note gone = shared_deletes_stay [OF sh]
  show "stays (orderly V svc u env c) (removeUnusedClusterRoleBindings s u m)"
    if ord: "visits_each (as_crbOrder s)"
    unfolding removeUnusedClusterRoleBindings_def s
    by (rule stays_for_each) (auto intro!: stays_case stays_pure gone own_map_entry [OF m ord])
  show "stays (orderly V svc u env c) (removeUnusedRoleBindings s u m)"
    if ord: "visits_each (as_rbOrder s)"
    unfolding removeUnusedRoleBindings_def s
    by (rule stays_for_each) (auto intro!: stays_case stays_pure gone own_map_entry [OF m ord])
qed

text \<open>The lists give maps of own names, and narrowing leaves them as they are.\<close>

lemma shared_list_own:
  assumes api: "rbac_api ns all cl view" and tidy: "tidy_view svc (view (env (length (snd x)) (fst x)))"
    and u: "CHR '':'' \<notin> set u"
    and run: "rc_List (shared_rbac env tag cl) all (saManagedLabel @ ''=true'') x = (Inr items, x')"
  shows "n \<in> fst ` set (from_pairs rb_Name (filterBindings (svc_namespace svc) u items)) \<Longrightarrow> own_name u n"
    and "filterBindings (svc_namespace svc) u (filter (\<lambda>b. own_name u (rb_Name b)) items) =
      filterBindings (svc_namespace svc) u items"
proof -
  note listed = shared_listed [where env = env, OF api tidy u run]
  show "filterBindings (svc_namespace svc) u (filter (\<lambda>b. own_name u (rb_Name b)) items) =
      filterBindings (svc_namespace svc) u items"
    by (rule narrow_filter) (use listed in blast)+
  show "own_name u n" if n: "n \<in> fst ` set (from_pairs rb_Name (filterBindings (svc_namespace svc) u items))"
  proof -
    obtain b where "map_of (from_pairs rb_Name (filterBindings (svc_namespace svc) u items)) n = Some b"
      using n by (metis map_of_eq_None_iff not_None_eq)
    then have b: "b \<in> set items" "any_subject (svc_namespace svc) u (rb_Subjects b)" "rb_Name b = n"
      using map_of_from_pairs_Some by (fastforce simp: filterBindings_filter)+
    then show ?thesis using listed [OF b(1)] by (auto simp: managed_for_def)
  qed
qed

lemma shared_lists:
  assumes sh: "shares V L svc u" and x: "orderly V svc u env c x" and q: "quiet V svc u env (Suc (length (snd x)))"
  shows "GetClusterRoleBindings (shared_svc env svc) u x = (Inr cbs, x') \<Longrightarrow>
      n \<in> fst ` set (from_pairs rb_Name cbs) \<Longrightarrow> own_name u n"
    and "GetRoleBindings (shared_svc env svc) u x = (Inr rbl, x') \<Longrightarrow>
      n \<in> fst ` set (from_pairs rb_Name rbl) \<Longrightarrow> own_name u n"
    and "GetClusterRoleBindings (narrow_svc u (shared_svc env svc)) u x = GetClusterRoleBindings (shared_svc env svc) u x"
    and "GetRoleBindings (narrow_svc u (shared_svc env svc)) u x = GetRoleBindings (shared_svc env svc) u x"
proof -
  have tidy: "tidy_view svc (v_CRB V (env (length (snd x)) (fst x)))" "tidy_view svc (v_RB V (env (length (snd x)) (fst x)))"
    using orderly_tidy [OF x q] by (simp_all add: tidy_def)
  note api = kube_apiD(1,2) [OF sharesD(1) [OF sh]]
  note c = shared_list_own [where env = env, OF api(1) tidy(1) sharesD(4) [OF sh]]
    and r = shared_list_own [where env = env, OF api(2) tidy(2) sharesD(4) [OF sh]]
  show "own_name u n" if get: "GetClusterRoleBindings (shared_svc env svc) u x = (Inr cbs, x')"
    and n: "n \<in> fst ` set (from_pairs rb_Name cbs)"
  proof -
    obtain items where "rc_List (shared_rbac env ClusterRoleBindingRequest (cs_ClusterRoleBindings (svc_clientset svc))) ()
        (saManagedLabel @ ''=true'') x = (Inr items, x')" "cbs = filterBindings (svc_namespace svc) u items"
      using get by (auto simp: GetClusterRoleBindings_def simp del: shared_simps split: prod.splits sum.splits)
    then show ?thesis using c(1) n by metis
  qed
  show "own_name u n" if get: "GetRoleBindings (shared_svc env svc) u x = (Inr rbl, x')"
    and n: "n \<in> fst ` set (from_pairs rb_Name rbl)"
  proof -
    obtain items where "rc_List (shared_rbac env RoleBindingRequest (cs_RoleBindings (svc_clientset svc))) ''''
        (saManagedLabel @ ''=true'') x = (Inr items, x')" "rbl = filterBindings (svc_namespace svc) u items"
      using get by (auto simp: GetRoleBindings_def simp del: shared_simps split: prod.splits sum.splits)
    then show ?thesis using r(1) n by metis
  qed
  show "GetClusterRoleBindings (narrow_svc u (shared_svc env svc)) u x = GetClusterRoleBindings (shared_svc env svc) u x"
    using c(2) by (auto simp: GetClusterRoleBindings_def narrow_List simp del: shared_simps split: prod.splits sum.splits)
  show "GetRoleBindings (narrow_svc u (shared_svc env svc)) u x = GetRoleBindings (shared_svc env svc) u x"
    using r(2) by (auto simp: GetRoleBindings_def narrow_List simp del: shared_simps split: prod.splits sum.splits)
qed

lemma list_log:
  "GetClusterRoleBindings (shared_svc env svc) u x = (r, x') \<Longrightarrow> length (snd x') = Suc (length (snd x))"
  "GetRoleBindings (shared_svc env svc) u x = (q, x') \<Longrightarrow> length (snd x') = Suc (length (snd x))"
  by (auto simp: GetClusterRoleBindings_def GetRoleBindings_def observed_def split: prod.splits sum.splits)

section \<open>The reconciliation, shared\<close>

lemma reconcile_narrow:
  assumes sh: "shares V L svc u" and q: "\<And>n. unnoticed V svc u (env n)"
    and s: "as_serviceAccountsSvc s = shared_svc env svc" and x: "orderly V svc u env c x"
  shows "reconcileClusterAndRoleBindings (narrow_auth u s) u ls x = reconcileClusterAndRoleBindings s u ls x"
proof -
  have quiet: "quiet V svc u env m" for m by (simp add: quiet_def q)
  note api = kube_apiD(1,2) [OF sharesD(1) [OF sh]]
  have named: "gets_named (cs_ClusterRoleBindings (svc_clientset (as_serviceAccountsSvc s)))"
    "gets_named (cs_RoleBindings (svc_clientset (as_serviceAccountsSvc s)))"
    by (simp_all add: s shared_gets_named [OF api(1)] shared_gets_named [OF api(2)])
  obtain r1 x1 where get: "GetClusterRoleBindings (shared_svc env svc) u x = (r1, x1)" by (rule prod.exhaust)
  have x1: "orderly V svc u env c x1" using staysD [OF shared_lists_stay(1) [OF sh] x get] .
  obtain e where e: "getExistingClusterRoleBindings s u x = (e, x1)"
    using get by (cases r1) (simp_all add: getExistingClusterRoleBindings_def s)
  have "getExistingClusterRoleBindings (narrow_auth u s) u x = (e, x1)"
    unfolding e [symmetric] by (simp add: getExistingClusterRoleBindings_def s shared_lists(3) [OF sh x quiet])
  moreover have "getExistingRoleBindings (narrow_auth u s) u x1 = getExistingRoleBindings s u x1"
    by (simp add: getExistingRoleBindings_def s shared_lists(4) [OF sh x1 quiet])
  ultimately show ?thesis
    unfolding reconcileClusterAndRoleBindings_def narrow_loops [OF named] using e by (cases e) simp_all
qed

text \<open>The part after the lists.\<close>

definition reconcile_rest ::
  "('c, 'w) authService \<Rightarrow> string \<Rightarrow> LdapGroupBinding list \<Rightarrow> crbMap \<Rightarrow> rbMap \<Rightarrow> ('w, http_error, unit) action" where
  "reconcile_rest s u ls cm rm w =
     (case ensureBindings s u ls (cm, rm, w) of
        (Inl err, _, _, w3) \<Rightarrow> (Inl err, w3)
      | (Inr _, cm', rm', w3) \<Rightarrow>
          (case removeUnusedClusterRoleBindings s u cm' w3 of
             (Inl err, w4) \<Rightarrow> (Inl err, w4)
           | (Inr _, w4) \<Rightarrow> removeUnusedRoleBindings s u rm' w4))"

lemma reconcile_rest:
  assumes "GetClusterRoleBindings (as_serviceAccountsSvc s) u w = (Inr cbs, w1)"
    and "GetRoleBindings (as_serviceAccountsSvc s) u w1 = (Inr rbl, w2)"
  shows "reconcileClusterAndRoleBindings s u ls w =
    reconcile_rest s u ls (from_pairs rb_Name cbs) (from_pairs rb_Name rbl) w2"
  unfolding reconcileClusterAndRoleBindings_def getExistingClusterRoleBindings_def
    getExistingRoleBindings_def reconcile_rest_def pass_on
  by (simp add: assms)

lemma reconcile_rest_orderly:
  assumes sh: "shares V L svc u" and s: "as_serviceAccountsSvc s = shared_svc env svc"
    and ord: "visits_each (as_crbOrder s)" "visits_each (as_rbOrder s)"
    and x: "orderly V svc u env c x"
    and own: "own_map (quiet V svc u env c) u cm" "own_map (quiet V svc u env c) u rm"
  shows "orderly V svc u env c (snd (reconcile_rest s u ls cm rm x))"
proof -
  obtain r cm' rm' x3 where e: "ensureBindings s u ls (cm, rm, x) = (r, cm', rm', x3)" by (rule prod_cases4)
  have "stays (orderly_pass V svc u env c) (ensureBindings s u ls)"
    unfolding ensureBindings_def by (intro stays_for_each ensureBinding_orderly [OF sh s])
  from staysD [OF this _ e] have p: "own_map (quiet V svc u env c) u cm'" "own_map (quiet V svc u env c) u rm'"
    "orderly V svc u env c x3"
    using x own by (simp_all add: orderly_pass_def)
  have "stays (orderly V svc u env c) (\<lambda>x. case removeUnusedClusterRoleBindings s u cm' x of
      (Inl err, x') \<Rightarrow> (Inl err, x') | (Inr _, x') \<Rightarrow> removeUnusedRoleBindings s u rm' x')"
    by (intro stays_case stays_pure removeUnused_orderly [OF sh s] p ord)
  from this [unfolded stays_def, rule_format, OF p(3)] show ?thesis
    using e p(3) by (cases r) (simp_all add: reconcile_rest_def)
qed

lemma reconcile_orderly:
  assumes sh: "shares V L svc u" and s: "as_serviceAccountsSvc s = shared_svc env svc"
    and ord: "visits_each (as_crbOrder s)" "visits_each (as_rbOrder s)"
  shows "stays (orderly V svc u env 0) (reconcileClusterAndRoleBindings s u ls)"
  unfolding stays_def
proof (intro allI impI)
  fix x
  assume x: "orderly V svc u env 0 x"
  obtain r1 x1 where g1: "GetClusterRoleBindings (shared_svc env svc) u x = (r1, x1)" by (rule prod.exhaust)
  have x1: "orderly V svc u env 0 x1" using staysD [OF shared_lists_stay(1) [OF sh] x g1] .
  obtain r2 x2 where g2: "GetRoleBindings (shared_svc env svc) u x1 = (r2, x2)" by (rule prod.exhaust)
  have x2: "orderly V svc u env 0 x2" using staysD [OF shared_lists_stay(2) [OF sh] x1 g2] .
  show "orderly V svc u env 0 (snd (reconcileClusterAndRoleBindings s u ls x))"
  proof (cases "\<exists>cbs rbl. r1 = Inr cbs \<and> r2 = Inr rbl")
    case False
    then show ?thesis
      using g1 g2 x1 x2
      by (cases r1; cases r2) (simp_all add: reconcileClusterAndRoleBindings_def getExistingClusterRoleBindings_def
        getExistingRoleBindings_def s)
  next
    case True
    then obtain cbs rbl where r: "r1 = Inr cbs" "r2 = Inr rbl" by blast
    let ?c = "length (snd x2)"
    have "quiet V svc u env ?c \<Longrightarrow> quiet V svc u env (Suc (length (snd x)))"
      "quiet V svc u env ?c \<Longrightarrow> quiet V svc u env (Suc (length (snd x1)))"
      using list_log(1) [OF g1] list_log(2) [OF g2] by (auto elim!: quiet_mono)
    then have own: "own_map (quiet V svc u env ?c) u (from_pairs rb_Name cbs)"
      "own_map (quiet V svc u env ?c) u (from_pairs rb_Name rbl)"
      using shared_lists(1) [OF sh x _ g1 [unfolded r]] shared_lists(2) [OF sh x1 _ g2 [unfolded r]]
      unfolding own_map_def by (blast intro: from_pairs_distinct)+
    have "orderly V svc u env ?c (snd (reconcile_rest s u ls (from_pairs rb_Name cbs) (from_pairs rb_Name rbl) x2))"
      by (rule reconcile_rest_orderly [OF sh s ord orderly_from [OF x2] own])
    from orderly_0 [OF this] show ?thesis
      using reconcile_rest [OF g1 [unfolded r, folded s] g2 [unfolded r, folded s], of ls] by simp
  qed
qed

section \<open>The outcome\<close>

text \<open>In a tidy cluster the roles a user holds are those its own bindings give.\<close>

lemma own_cluster_roles:
  assumes tidy: "tidy V svc (fst x)" and u: "CHR '':'' \<notin> set u"
  shows "cluster_roles (own_view u V) (narrow_svc u (shared_svc env svc)) u x = cluster_roles V svc u (fst x)"
proof -
  have "own_part u (v_CRB V) (fst x) k = Some b \<and> managed_for svc u b \<longleftrightarrow> v_CRB V (fst x) k = Some b \<and> managed_for svc u b" for k b
    using tidy_viewD(1) [of svc "v_CRB V (fst x)" k b u] tidy u by (auto simp: tidy_def own_part_def)
  then show ?thesis by (simp add: cluster_roles_def)
qed

lemma own_roles:
  assumes tidy: "tidy V svc (fst x)" and u: "CHR '':'' \<notin> set u"
  shows "roles (own_view u V) (narrow_svc u (shared_svc env svc)) u x = roles V svc u (fst x)"
proof -
  have "own_part u (v_RB V) (fst x) k = Some b \<and> managed_for svc u b \<longleftrightarrow> v_RB V (fst x) k = Some b \<and> managed_for svc u b" for k b
    using tidy_viewD(1) [of svc "v_RB V (fst x)" k b u] tidy u by (auto simp: tidy_def own_part_def)
  then show ?thesis by (simp add: roles_def)
qed

lemma own_settled:
  "namespaces_settled V svc u ls (fst x) \<Longrightarrow> namespaces_settled (own_view u V) (narrow_svc u (shared_svc env svc)) u ls x"
proof -
  assume "namespaces_settled V svc u ls (fst x)"
  moreover have "v_RB V (fst x) k = Some b" if "own_part u (v_RB V) (fst x) k = Some b" for k b
    using own_keyD [OF that] by simp
  ultimately show ?thesis
    unfolding namespaces_settled_def own_view_simps narrow_svc_simps shared_svc_simps by blast
qed

lemma shared_reconciliation:
  assumes sh: "shares V L svc u" and q: "\<And>n. unnoticed V svc u (env n)"
    and s: "as_serviceAccountsSvc s = shared_svc env svc" and wired: "wired s"
    and ord: "visits_each (as_crbOrder s)" "visits_each (as_rbOrder s)"
    and x: "orderly V svc u env c x" and run: "reconcileClusterAndRoleBindings s u ls x = (Inr y, x')"
  shows "cluster_roles (own_view u V) (narrow_svc u (shared_svc env svc)) u x' = due_cluster_roles ls"
    and "namespaces_settled (own_view u V) (narrow_svc u (shared_svc env svc)) u ls x \<Longrightarrow>
      roles (own_view u V) (narrow_svc u (shared_svc env svc)) u x' = due_roles ls"
proof -
  let ?n = "narrow_auth u s" and ?V = "own_view u V"
  have svc: "as_serviceAccountsSvc ?n = narrow_svc u (shared_svc env svc)" by (simp add: s)
  have api: "kube_api (svc_clientset (as_serviceAccountsSvc ?n)) ?V"
    using narrow_shared_kube_api [where env = env, OF sharesD(1) [OF sh] q] by (simp add: s)
  have run': "reconcileClusterAndRoleBindings ?n u ls x = (Inr y, x')"
    using run reconcile_narrow [OF sh q s x, of ls] by simp
  have wired': "wired ?n" and ord': "visits_each (as_crbOrder ?n)" "visits_each (as_rbOrder ?n)"
    using wired ord by simp_all
  show "cluster_roles ?V (narrow_svc u (shared_svc env svc)) u x' = due_cluster_roles ls"
    using reconciled_cluster_roles [OF reconcile_crbs [OF api wired' ord'(1) run']] unfolding svc .
  show "roles ?V (narrow_svc u (shared_svc env svc)) u x' = due_roles ls"
    if settled: "namespaces_settled ?V (narrow_svc u (shared_svc env svc)) u ls x"
    using reconciled_roles [OF api reconcile_rbs [OF api wired' ord'(2) settled [folded svc] run']] unfolding svc .
qed

section \<open>A whole login, shared\<close>

text \<open>
  The services on the shared cluster. The directory is shared as well: before each call to it
  the others act.
\<close>

definition shared_ldap :: "(nat \<Rightarrow> 'w \<Rightarrow> 'w) \<Rightarrow> 'w ldap_lib \<Rightarrow> 'w shared ldap_lib" where
  "shared_ldap env L =
     \<lparr>ll_DialURL = (\<lambda>url. observed env (DirectoryRequest (DialRequest url)) (ll_DialURL L url)),
      ll_Close = (\<lambda>c. observed env (DirectoryRequest (CloseRequest c)) (ll_Close L c)),
      ll_Bind = (\<lambda>c dn pw. observed env (DirectoryRequest (BindRequest c dn pw)) (ll_Bind L c dn pw)),
      ll_Search = (\<lambda>c r. observed env (DirectoryRequest (SearchDirectory c r)) (ll_Search L c r))\<rparr>"

definition shared_k8s :: "(nat \<Rightarrow> 'w \<Rightarrow> 'w) \<Rightarrow> ('c, 'w) k8sService \<Rightarrow> ('c, 'w shared) k8sService" where
  "shared_k8s env k = \<lparr>ks_env = ks_env k, ks_clientset = shared_clientset env (ks_clientset k),
     ks_namespace = ks_namespace k, ks_restConfig = ks_restConfig k\<rparr>"

definition shared_auth :: "(nat \<Rightarrow> 'w \<Rightarrow> 'w) \<Rightarrow> ('c, 'w) authService \<Rightarrow> ('c, 'w shared) authService" where
  "shared_auth env s =
     \<lparr>as_env = as_env s, as_k8sSvc = shared_k8s env (as_k8sSvc s),
      as_serviceAccountsSvc = shared_svc env (as_serviceAccountsSvc s),
      as_ldapGroupBindingsSvc = (\<lambda>x. as_ldapGroupBindingsSvc s (fst x)),
      as_ldapSvc = \<lparr>ls_env = ls_env (as_ldapSvc s), ls_lib = shared_ldap env (ls_lib (as_ldapSvc s)),
        ls_Sprintf_other = ls_Sprintf_other (as_ldapSvc s)\<rparr>,
      as_crbOrder = as_crbOrder s, as_rbOrder = as_rbOrder s\<rparr>"

lemma shared_auth_simps [simp]:
  "as_serviceAccountsSvc (shared_auth env s) = shared_svc env (as_serviceAccountsSvc s)"
  "as_env (shared_auth env s) = as_env s"
  "as_ldapGroupBindingsSvc (shared_auth env s) x = as_ldapGroupBindingsSvc s (fst x)"
  "ls_lib (as_ldapSvc (shared_auth env s)) = shared_ldap env (ls_lib (as_ldapSvc s))"
  "as_crbOrder (shared_auth env s) = as_crbOrder s" "as_rbOrder (shared_auth env s) = as_rbOrder s"
  "wired (shared_auth env s) = wired s"
  by (simp_all add: shared_auth_def wired_def shared_k8s_def GetNamespace_def)

text \<open>What each call to the directory preserves the two look-ups preserve.\<close>

definition ldap_stays :: "('w \<Rightarrow> bool) \<Rightarrow> 'w ldap_lib \<Rightarrow> bool" where
  "ldap_stays P L \<longleftrightarrow>
     (\<forall>url. stays P (ll_DialURL L url)) \<and> (\<forall>c. stays P (ll_Close L c)) \<and>
     (\<forall>c dn pw. stays P (ll_Bind L c dn pw)) \<and> (\<forall>c r. stays P (ll_Search L c r))"

lemma withConnection_stays:
  assumes "ldap_stays P (ls_lib s)" and "\<And>c. stays P (fn c)"
  shows "stays P (withConnection s fn)"
  unfolding stays_def
proof (intro allI impI)
  fix w
  assume w: "P w"
  have dial: "stays P (ll_DialURL (ls_lib s) url)" and close: "P v \<Longrightarrow> P (snd (ll_Close (ls_lib s) c v))"
    and bind: "stays P (ll_Bind (ls_lib s) c dn pw)" for url c dn pw v
    using assms(1) by (simp_all add: ldap_stays_def stays_def)
  have "stays P (\<lambda>w1. case ll_Bind (ls_lib s) c dn pw w1 of (Inl err, w2) \<Rightarrow> (Inl err, w2) | (Inr _, w2) \<Rightarrow> fn c w2)"
    for c dn pw by (intro stays_case bind stays_pure assms(2))
  then have inner: "P v \<Longrightarrow> P (snd (case ll_Bind (ls_lib s) c dn pw v of (Inl err, w2) \<Rightarrow> (Inl err, w2) | (Inr _, w2) \<Rightarrow> fn c w2))"
    for c dn pw v unfolding stays_def by blast
  obtain r w1 where d: "ll_DialURL (ls_lib s) (env_LDAPURL (ls_env s)) w = (r, w1)" by (rule prod.exhaust)
  have w1: "P w1" by (rule staysD [OF dial w d])
  show "P (snd (withConnection s fn w))"
  proof (cases r)
    case (Inr c)
    show ?thesis
      using close [OF inner [OF w1]] d Inr by (simp add: withConnection_def Let_def case_prod_unfold)
  qed (simp add: withConnection_def d w1)
qed

lemma GetUser_stays:
  assumes "ldap_stays P (ls_lib s)"
  shows "stays P (GetUser s u)" and "stays P (GetUserGroups s dn)"
proof -
  have search: "stays P (ll_Search (ls_lib s) c r)" for c r using assms by (simp add: ldap_stays_def)
  have pick: "stays P (\<lambda>w. if length es = 0 then (Inl LDAPResultNoSuchObject, w)
      else if length es > 1 then (Inl LDAPResultAmbiguousResponse, w) else (Inr (es ! 0), w))" for es :: "Entry list"
    by (simp add: stays_def)
  show "stays P (GetUser s u)" and "stays P (GetUserGroups s dn)"
    unfolding GetUser_def GetUserGroups_def
    by (intro withConnection_stays assms stays_case search stays_pure pick)+
qed

lemma shared_ldap_keeps:
  assumes "ldap_keeps f L" and "\<And>n w. f (env n w) = f w"
  shows "ldap_keeps (\<lambda>x. f (fst x)) (shared_ldap env L)"
  using ldap_keepsD [OF assms(1)]
  by (simp add: ldap_keeps_def shared_ldap_def keeps_observed [where f = f] assms(2))

lemma directory_orderly:
  assumes "shares V L svc u"
  shows "ldap_stays (orderly V svc u env c) (shared_ldap env L)"
  by (simp add: ldap_stays_def shared_ldap_def orderly_observed [OF assms])

text \<open>The user's own role bindings are the same before and after the look-ups.\<close>

lemma directory_keeps_own:
  assumes apart: "directory_apart (ls_lib (as_ldapSvc s)) V" and env: "\<And>n. unnoticed V svc u (env n)"
  shows "GetUser (as_ldapSvc (shared_auth env s)) v x = (r, x') \<Longrightarrow> v_RB (own_view u V) x' = v_RB (own_view u V) x"
    and "GetUserGroups (as_ldapSvc (shared_auth env s)) dn x = (q, x') \<Longrightarrow> v_RB (own_view u V) x' = v_RB (own_view u V) x"
proof -
  have "ldap_keeps (own_part u (v_RB V)) (ls_lib (as_ldapSvc s))"
    using directory_apartD(2) [OF apart] by (simp add: ldap_keeps_def keeps_def own_part_def fun_eq_iff)
  then have keep: "ldap_keeps (\<lambda>x. own_part u (v_RB V) (fst x)) (ls_lib (as_ldapSvc (shared_auth env s)))"
    unfolding shared_auth_simps by (rule shared_ldap_keeps [where f = "own_part u (v_RB V)"]) (simp add: unnoticedD(2) [OF env])
  show "v_RB (own_view u V) x' = v_RB (own_view u V) x" if "GetUser (as_ldapSvc (shared_auth env s)) v x = (r, x')"
    using keeps_eq [OF GetUser_keeps(1) [OF keep] that] by simp
  show "v_RB (own_view u V) x' = v_RB (own_view u V) x" if "GetUserGroups (as_ldapSvc (shared_auth env s)) dn x = (q, x')"
    using keeps_eq [OF GetUser_keeps(2) [OF keep] that] by simp
qed

end
