(* ===== verification/ConcurrentLogins.thy ===== *)
theory ConcurrentLogins
  imports SharedLogin
begin

text \<open>
  A login that runs at the same time as logins of other users: \<open>others\<close> describes what these
  do to the cluster and to the directory, request by request, and \<open>shared_login\<close> is the result about the whole of
  \<open>AuthAccount\<close>.
\<close>

section \<open>The others\<close>

text \<open>What the API server and the directory of an authentication service do on a request.\<close>

abbreviation served :: "('c, 'w) authService \<Rightarrow> api_request \<Rightarrow> 'w \<Rightarrow> 'w" where
  "served s \<equiv> perform (svc_clientset (as_serviceAccountsSvc s)) (ls_lib (as_ldapSvc s))"

text \<open>At every turn any number of requests of logins for other users, to either of them.\<close>

definition others :: "(api_request \<Rightarrow> 'w \<Rightarrow> 'w) \<Rightarrow> string \<Rightarrow> ('w \<Rightarrow> 'w) \<Rightarrow> bool" where
  "others serve u e \<longleftrightarrow>
     (\<exists>qs. e = fold serve qs \<and>
        (\<forall>q\<in>set qs. \<exists>v. v \<noteq> u \<and> CHR '':'' \<notin> set v \<and> conforms v q))"

lemma others_unnoticed:
  assumes "shares V L svc u" and "others (perform (svc_clientset svc) L) u e"
  shows "unnoticed V svc u e"
proof -
  obtain qs where e: "e = fold (perform (svc_clientset svc) L) qs"
    and qs: "\<And>q. q \<in> set qs \<Longrightarrow> \<exists>v. v \<noteq> u \<and> CHR '':'' \<notin> set v \<and> conforms v q"
    using assms(2) unfolding others_def by blast
  have "unnoticed V svc u (perform (svc_clientset svc) L q)" if "q \<in> set qs" for q
    using qs [OF that] perform_unnoticed [OF sharesD(1-3) [OF assms(1)] _ sharesD(4) [OF assms(1)]] by metis
  then show ?thesis unfolding e by (rule unnoticed_fold)
qed

section \<open>The steps of a login\<close>

text \<open>What every step of a login preserves the login preserves, whatever its outcome.\<close>

lemma ldapReconcilate_stays:
  assumes dir: "ldap_stays P (ls_lib (as_ldapSvc s))"
    and rec: "\<And>ls. stays P (reconcileClusterAndRoleBindings s (sa_Name sa) ls)"
  shows "stays P (ldapReconcilate s u sa)"
proof -
  have last: "stays P (\<lambda>x. case reconcileClusterAndRoleBindings s (sa_Name sa) (f x) x of
      (Inl err, x') \<Rightarrow> (Inl e, x') | (Inr _, x') \<Rightarrow> (Inr (), x'))" for f and e :: http_error
    unfolding stays_def
  proof (intro allI impI)
    fix x
    assume "P x"
    then have "P (snd (reconcileClusterAndRoleBindings s (sa_Name sa) (f x) x))"
      using rec unfolding stays_def by blast
    then show "P (snd (case reconcileClusterAndRoleBindings s (sa_Name sa) (f x) x of
        (Inl err, x') \<Rightarrow> (Inl e, x') | (Inr _, x') \<Rightarrow> (Inr (), x')))"
      by (auto split: prod.splits sum.splits)
  qed
  show ?thesis
    unfolding ldapReconcilate_def Let_def
    by (intro stays_case stays_pure GetUser_stays [OF dir] last)
qed

lemma AuthAccount_stays:
  assumes up: "stays P (UpsertServiceAccount (as_serviceAccountsSvc s) u)"
    and name: "\<And>x sa x'. UpsertServiceAccount (as_serviceAccountsSvc s) u x = (Inr sa, x') \<Longrightarrow> sa_Name sa = u"
    and dir: "ldap_stays P (ls_lib (as_ldapSvc s))"
    and rec: "\<And>ls. stays P (reconcileClusterAndRoleBindings s u ls)"
    and token: "stays P (IssueToken (as_serviceAccountsSvc s) u)"
  shows "stays P (AuthAccount s u)"
  unfolding AuthAccount_def
proof (rule stays_bind [OF up stays_pure])
  fix x sa x'
  assume x': "P x'" and run: "UpsertServiceAccount (as_serviceAccountsSvc s) u x = (Inr sa, x')"
  note name = name [OF run]
  let ?rest = "\<lambda>w1. case if env_LDAPEnabled (as_env s) then ldapReconcilate s u sa w1 else (Inr (), w1) of
      (Inl err, w2) \<Rightarrow> (Inl err, w2)
    | (Inr _, w2) \<Rightarrow> (case IssueToken (as_serviceAccountsSvc s) (sa_Name sa) w2 of
        (Inl err, w3) \<Rightarrow> (Inl (Error500InternalServerError ''Failed to issue token''), w3)
      | (Inr token, w3) \<Rightarrow>
          (Inr \<lparr>cr_Kind = ''ExecCredential'', cr_ApiVersion = ''client.authentication.k8s.io/v1beta1'',
             cr_Status = Some \<lparr>st_Token = tst_Token (tr_Status token),
               st_ExpirationTimestamp = tst_ExpirationTimestamp (tr_Status token)\<rparr>\<rparr>, w3))"
  have "stays P (ldapReconcilate s u sa)" by (rule ldapReconcilate_stays [OF dir]) (simp add: name rec)
  then have "stays P (\<lambda>x. if env_LDAPEnabled (as_env s) then ldapReconcilate s u sa x else (Inr (), x))"
    by (simp add: stays_def)
  then have "stays P ?rest" unfolding name by (intro stays_case stays_pure token)
  then show "P (snd (?rest x'))" using x' unfolding stays_def by blast
qed

text \<open>The service account that is returned is the user's, whatever the others do.\<close>

lemma shared_upsert_name:
  assumes api: "kube_api (svc_clientset svc) V" and up: "UpsertServiceAccount (shared_svc env svc) u x = (Inr sa, x')"
  shows "sa_Name sa = u"
proof -
  note sa = sa_apiD [OF kube_apiD(3) [OF api]]
  let ?cl = "shared_sa env (cs_ServiceAccounts (svc_clientset svc))" and ?ns = "svc_namespace svc"
  obtain g y where g: "sc_Get ?cl ?ns u x = (g, y)" by (rule prod.exhaust)
  show ?thesis
  proof (cases g)
    case (Inl e)
    let ?o = "\<lparr>sa_ObjectMeta = \<lparr>om_Name = u, om_Namespace = '''', om_Labels = []\<rparr>\<rparr>"
    have "sc_Create ?cl ?ns ?o y = (Inr sa, x')"
      using up g Inl by (auto simp: UpsertServiceAccount_def single_call_eqs simp del: shared_simps split: if_splits)
    note observedE [OF this [unfolded shared_simps]]
    then have "v_SA V (fst x') (?ns, u) = Some sa" using sa(7) by fastforce
    then show ?thesis using sa(1) by blast
  next
    case (Inr a)
    then have "sa = a" using up g by (simp add: UpsertServiceAccount_def del: shared_simps)
    moreover have "fst (sc_Get (cs_ServiceAccounts (svc_clientset svc)) ?ns u (env (length (snd x)) (fst x))) = Inr a"
      using observedE [OF g [unfolded shared_simps]] Inr by simp
    ultimately show ?thesis using sa(1,4) by blast
  qed
qed

section \<open>Whatever the outcome\<close>

lemma login_orderly:
  assumes sh: "shares V (ls_lib (as_ldapSvc s)) (as_serviceAccountsSvc s) u"
    and ord: "visits_each (as_crbOrder s)" "visits_each (as_rbOrder s)"
  shows "stays (orderly V (as_serviceAccountsSvc s) u env 0) (AuthAccount (shared_auth env s) u)"
proof (rule AuthAccount_stays, unfold shared_auth_simps)
  show "ldap_stays (orderly V (as_serviceAccountsSvc s) u env 0) (shared_ldap env (ls_lib (as_ldapSvc s)))"
    by (rule directory_orderly [OF sh])
  show "stays (orderly V (as_serviceAccountsSvc s) u env 0) (reconcileClusterAndRoleBindings (shared_auth env s) u ls)" for ls
    by (rule reconcile_orderly [OF sh]) (simp_all add: ord)
qed (rule UpsertServiceAccount_stays [OF sh] shared_upsert_name [OF sharesD(1) [OF sh]] shared_writes_stay(3) [OF sh]
      | assumption)+

section \<open>A successful login\<close>

text \<open>Only the reconciliation changes the user's own bindings.\<close>

lemma shared_accounts_keep:
  assumes sh: "shares V L svc u" and q: "\<And>n. unnoticed V svc u (env n)"
  shows "UpsertServiceAccount (shared_svc env svc) u x = (r, x') \<Longrightarrow> v_RB (own_view u V) x' = v_RB (own_view u V) x"
    and "IssueToken (shared_svc env svc) v x = (t, x') \<Longrightarrow>
      v_CRB (own_view u V) x' = v_CRB (own_view u V) x \<and> v_RB (own_view u V) x' = v_RB (own_view u V) x"
proof -
  note api = narrow_shared_kube_api [where env = env, OF sharesD(1) [OF sh] q]
  have "kube_api (svc_clientset (narrow_svc u (shared_svc env svc))) (own_view u V)" using api by simp
  note up = kube_apiD(9) [OF this, THEN sa_calls_keep(1), of u, unfolded narrow_accounts]
    and tok = kube_apiD(8,9) [OF this, THEN sa_calls_keep(2), unfolded narrow_accounts]
  show "UpsertServiceAccount (shared_svc env svc) u x = (r, x') \<Longrightarrow> v_RB (own_view u V) x' = v_RB (own_view u V) x"
    by (rule keeps_eq [OF up])
  show "IssueToken (shared_svc env svc) v x = (t, x') \<Longrightarrow>
      v_CRB (own_view u V) x' = v_CRB (own_view u V) x \<and> v_RB (own_view u V) x' = v_RB (own_view u V) x"
    using keeps_eq [OF tok(1)] keeps_eq [OF tok(2)] by blast
qed

lemma own_roles_view:
  "v_CRB W y = v_CRB W x \<Longrightarrow> cluster_roles W svc u y = cluster_roles W svc u x"
  "v_RB W y = v_RB W x \<Longrightarrow> roles W svc u y = roles W svc u x"
  by (simp_all add: cluster_roles_def roles_def)

text \<open>The calls of a login that has issued credentials with LDAP on.\<close>

lemma shared_login_steps:
  fixes s :: "('c, 'w) authService"
  defines "svc \<equiv> as_serviceAccountsSvc s"
  assumes api: "kube_api (svc_clientset svc) V" and on: "env_LDAPEnabled (as_env s)"
    and run: "AuthAccount (shared_auth env s) u x = (Inr cred, x')"
  obtains sa x1 user x2 groups x3 x4 token where
    "UpsertServiceAccount (shared_svc env svc) u x = (Inr sa, x1)"
    "GetUser (as_ldapSvc (shared_auth env s)) u x1 = (Inr user, x2)"
    "GetUserGroups (as_ldapSvc (shared_auth env s)) (entry_DN user) x2 = (Inr groups, x3)"
    "reconcileClusterAndRoleBindings (shared_auth env s) u
       (filter (\<lambda>l. spec_LdapGroupDN (lgb_Spec l) \<in> set groups) (cached (as_ldapGroupBindingsSvc s (fst x3)))) x3 = (Inr (), x4)"
    "IssueToken (shared_svc env svc) u x4 = (Inr token, x')"
proof -
  let ?s = "shared_auth env s"
  obtain sa x1 x4 token where
    up: "UpsertServiceAccount (as_serviceAccountsSvc ?s) u x = (Inr sa, x1)"
    and rec: "if env_LDAPEnabled (as_env ?s) then ldapReconcilate ?s u sa x1 = (Inr (), x4) else x4 = x1"
    and tok: "IssueToken (as_serviceAccountsSvc ?s) (sa_Name sa) x4 = (Inr token, x')"
    by (rule AuthAccount_steps [OF run])
  have name: "sa_Name sa = u"
    using shared_upsert_name [OF api] up by (simp add: svc_def)
  have "ldapReconcilate ?s u sa x1 = (Inr (), x4)" using rec on by simp
  then obtain user groups x2 x3 where
    "GetUser (as_ldapSvc ?s) u x1 = (Inr user, x2)"
    "GetUserGroups (as_ldapSvc ?s) (entry_DN user) x2 = (Inr groups, x3)"
    "reconcileClusterAndRoleBindings ?s (sa_Name sa)
       (filter (\<lambda>l. spec_LdapGroupDN (lgb_Spec l) \<in> set groups) (cached (as_ldapGroupBindingsSvc ?s x3))) x3 = (Inr (), x4)"
    by (rule ldapReconcilate_steps)
  then show thesis using that up tok unfolding name shared_auth_simps svc_def by blast
qed

lemma shared_login:
  fixes s :: "('c, 'w) authService"
  defines "svc \<equiv> as_serviceAccountsSvc s"
  assumes sh: "shares V (ls_lib (as_ldapSvc s)) svc u" and q: "\<And>n. unnoticed V svc u (env n)" and wired: "wired s"
    and ord: "visits_each (as_crbOrder s)" "visits_each (as_rbOrder s)" and on: "env_LDAPEnabled (as_env s)"
    and x: "orderly V svc u env 0 x" and run: "AuthAccount (shared_auth env s) u x = (Inr cred, x')"
  obtains sa x1 user x2 groups x3 where
    "UpsertServiceAccount (shared_svc env svc) u x = (Inr sa, x1)"
    "GetUser (as_ldapSvc (shared_auth env s)) u x1 = (Inr user, x2)"
    "GetUserGroups (as_ldapSvc (shared_auth env s)) (entry_DN user) x2 = (Inr groups, x3)"
    "cluster_roles V svc u (fst x') = due_cluster_roles
       (filter (\<lambda>l. spec_LdapGroupDN (lgb_Spec l) \<in> set groups) (cached (as_ldapGroupBindingsSvc s (fst x3))))"
    "namespaces_settled V svc u
        (filter (\<lambda>l. spec_LdapGroupDN (lgb_Spec l) \<in> set groups) (cached (as_ldapGroupBindingsSvc s (fst x3)))) (fst x) \<Longrightarrow>
      roles V svc u (fst x') = due_roles
       (filter (\<lambda>l. spec_LdapGroupDN (lgb_Spec l) \<in> set groups) (cached (as_ldapGroupBindingsSvc s (fst x3))))"
    "orderly V svc u env 0 x'"
proof -
  let ?s = "shared_auth env s" and ?n = "narrow_svc u (shared_svc env svc)" and ?V = "own_view u V"
  have s: "as_serviceAccountsSvc ?s = shared_svc env svc" by (simp add: svc_def)
  obtain sa x1 user x2 groups x3 x4 token where
    up: "UpsertServiceAccount (shared_svc env svc) u x = (Inr sa, x1)"
    and gu: "GetUser (as_ldapSvc ?s) u x1 = (Inr user, x2)"
    and gg: "GetUserGroups (as_ldapSvc ?s) (entry_DN user) x2 = (Inr groups, x3)"
    and rc: "reconcileClusterAndRoleBindings ?s u
       (filter (\<lambda>l. spec_LdapGroupDN (lgb_Spec l) \<in> set groups) (cached (as_ldapGroupBindingsSvc s (fst x3)))) x3 = (Inr (), x4)"
    and tok: "IssueToken (shared_svc env svc) u x4 = (Inr token, x')"
    unfolding svc_def by (rule shared_login_steps [OF sharesD(1) [OF sh [unfolded svc_def]] on run])
  let ?ls = "filter (\<lambda>l. spec_LdapGroupDN (lgb_Spec l) \<in> set groups) (cached (as_ldapGroupBindingsSvc s (fst x3)))"
  have "ldap_stays (orderly V svc u env 0) (ls_lib (as_ldapSvc ?s))" using directory_orderly [OF sh] by simp
  note dir = GetUser_stays [OF this]
  have x3: "orderly V svc u env 0 x3"
    using staysD [OF dir(2) staysD [OF dir(1) staysD [OF UpsertServiceAccount_stays [OF sh] x up] gu] gg] .
  have wired': "wired ?s" and ord': "visits_each (as_crbOrder ?s)" "visits_each (as_rbOrder ?s)"
    using wired ord by simp_all
  note outcome = shared_reconciliation [OF sh q s wired' ord' x3 rc]
  have x': "orderly V svc u env 0 x'"
    using staysD [OF shared_writes_stay(3) [OF sh] staysD [OF reconcile_orderly [OF sh s ord'] x3 rc] tok] .
  then have tidy: "tidy V svc (fst x')" using q by (simp add: orderly_def quiet_def)
  note keep = conjunct1 [OF shared_accounts_keep(2) [OF sh q tok]] conjunct2 [OF shared_accounts_keep(2) [OF sh q tok]]
    shared_accounts_keep(1) [OF sh q up] directory_keeps_own(1) [OF sharesD(3) [OF sh] q gu]
    directory_keeps_own(2) [OF sharesD(3) [OF sh] q gg]
  note own = own_cluster_roles [OF tidy sharesD(4) [OF sh]] own_roles [OF tidy sharesD(4) [OF sh]]
  have c: "cluster_roles V svc u (fst x') = due_cluster_roles ?ls"
    using outcome(1) own_roles_view(1) [OF keep(1)] own(1) by simp
  have r: "roles V svc u (fst x') = due_roles ?ls" if "namespaces_settled V svc u ?ls (fst x)"
  proof -
    have eq: "v_RB ?V x3 = v_RB ?V x" using keep(3-5) by simp
    have "namespaces_settled ?V ?n u ?ls x3"
      by (rule iffD2 [OF namespaces_settled_view [where V = ?V and w' = x3 and w = x, OF eq] own_settled [OF that]])
    then show ?thesis using outcome(2) own_roles_view(2) [OF keep(2)] own(2) by simp
  qed
  show thesis using that [OF up gu gg c r x'] .
qed

section \<open>Two logins of one user\<close>

text \<open>
  A binding that another login of the same user creates after this one has listed the
  bindings: the create request of this one finds it there.
\<close>

lemma delete_shrinks: "map_of (AList.delete k m) \<subseteq>\<^sub>m map_of m"
  by (simp add: map_le_def delete_conv')

lemma ensure_shrinks:
  "map_of (fst (snd (ensureClusterRoleBinding s u l i n m w))) \<subseteq>\<^sub>m map_of m"
  "map_of (fst (snd (ensureRoleBinding s u l i n m w))) \<subseteq>\<^sub>m map_of m"
  unfolding ensureClusterRoleBinding_def ensureRoleBinding_def Let_def
  by (simp_all add: delete_shrinks split: option.split prod.split sum.split)

lemma ensureBinding_shrinks:
  "map_of (fst (snd (ensureBinding s u l i (cm, rm, w)))) \<subseteq>\<^sub>m map_of cm"
  "map_of (fst (snd (snd (ensureBinding s u l i (cm, rm, w))))) \<subseteq>\<^sub>m map_of rm"
  by (simp_all add: ensureBinding_def Let_def case_prod_unfold ensure_shrinks)

lemma items_shrink:
  fixes x :: 'w
  assumes "for_each (\<lambda>(l, i). ensureBinding s u l i) ps (cm0, rm0, x) = (r, cm, rm, y)"
  shows "map_of cm \<subseteq>\<^sub>m map_of cm0" and "map_of rm \<subseteq>\<^sub>m map_of rm0"
proof -
  let ?P = "\<lambda>st :: crbMap \<times> rbMap \<times> 'w. map_of (fst st) \<subseteq>\<^sub>m map_of cm0 \<and> map_of (fst (snd st)) \<subseteq>\<^sub>m map_of rm0"
  have "?P (snd (for_each (\<lambda>(l, i). ensureBinding s u l i) ps (cm0, rm0, x)))"
  proof (rule for_each_invariant [where P = ?P])
    fix p :: "LdapGroupBinding \<times> LdapGroupBindingItem" and st :: "crbMap \<times> rbMap \<times> 'w"
    assume P: "?P st"
    obtain l i where p: "p = (l, i)" by fastforce
    obtain cm rm v where st: "st = (cm, rm, v)" by (metis prod_cases3)
    show "?P (snd ((case p of (l, i) \<Rightarrow> ensureBinding s u l i) st))"
      using P p st map_le_trans [OF ensureBinding_shrinks(1) [of s u l i cm rm v]]
        map_le_trans [OF ensureBinding_shrinks(2) [of s u l i cm rm v]] by simp
  qed simp
  then show "map_of cm \<subseteq>\<^sub>m map_of cm0" and "map_of rm \<subseteq>\<^sub>m map_of rm0" using assms by simp_all
qed

lemma unlisted_name:
  assumes "map_of m \<subseteq>\<^sub>m map_of (from_pairs rb_Name bs)" and "n \<notin> rb_Name ` set bs"
  shows "map_of m n = None"
proof -
  have "map_of (from_pairs rb_Name bs) n = None"
    using assms(2) by (simp add: map_of_from_pairs_None image_iff) metis
  then show ?thesis using assms(1) by (metis domIff map_le_def)
qed

lemma create_refused:
  assumes api: "rbac_api ns all cl view" and there: "view (env (length (snd x)) (fst x)) (s, rb_Name b) \<noteq> None"
    and run: "observed env q (rc_Create cl s b) x = (r, x')"
  shows "\<exists>e. r = Inl e"
proof (cases r)
  case (Inr c)
  then have "view (env (length (snd x)) (fst x)) (s, rb_Name b) = None"
    using rbac_api_create(1) [OF api observedE [OF run [unfolded Inr]]] by simp
  then show ?thesis using there by simp
qed simp

lemma overtaken_create:
  assumes api: "kube_api (svc_clientset svc) V" and s: "as_serviceAccountsSvc s = shared_svc env svc"
    and lists: "GetClusterRoleBindings (shared_svc env svc) u x = (Inr cbs, x1)"
      "GetRoleBindings (shared_svc env svc) u x1 = (Inr rbl, x2)"
    and items: "all_items ls = before @ (l, i) # rest"
    and reached: "for_each (\<lambda>(l, i). ensureBinding s u l i) before
      (from_pairs rb_Name cbs, from_pairs rb_Name rbl, x2) = (Inr (), cm, rm, y)"
    and n: "n = GenBindingName u (item_Name i) (lgb_Name l)"
    and taken: "item_Kind i = ''ClusterRole'' \<and> n \<notin> rb_Name ` set cbs \<and>
        v_CRB V (env (length (snd y)) (fst y)) ((), n) \<noteq> None \<or>
      item_Kind i = ''Role'' \<and> item_Namespace i \<noteq> '''' \<and> n \<notin> rb_Name ` set rbl \<and>
        v_RB V (env (length (snd y)) (fst y)) (item_Namespace i, n) \<noteq> None"
  shows "\<exists>msg. fst (reconcileClusterAndRoleBindings s u ls x) = Inl (Error500InternalServerError msg)"
proof -
  note shrunk = items_shrink [OF reached]
  have "\<exists>msg. fst (ensureBinding s u l i (cm, rm, y)) = Inl (Error500InternalServerError msg)"
    using taken
  proof
    assume c: "item_Kind i = ''ClusterRole'' \<and> n \<notin> rb_Name ` set cbs \<and>
        v_CRB V (env (length (snd y)) (fst y)) ((), n) \<noteq> None"
    have none: "map_of cm n = None" using unlisted_name [OF shrunk(1)] c by blast
    obtain r y' where run: "CreateClusterRoleBinding (shared_svc env svc) u (item_Name i) (lgb_Name l) y = (r, y')"
      by (rule prod.exhaust)
    obtain e where "r = Inl e"
      using create_refused [OF kube_apiD(1) [OF api] _ run [unfolded single_call_eqs shared_svc_simps shared_clientset_simps shared_simps]]
        c n by auto
    then show ?thesis
      using none run n c by (simp add: ensureBinding_def ensureClusterRoleBinding_def s Let_def)
  next
    assume c: "item_Kind i = ''Role'' \<and> item_Namespace i \<noteq> '''' \<and> n \<notin> rb_Name ` set rbl \<and>
        v_RB V (env (length (snd y)) (fst y)) (item_Namespace i, n) \<noteq> None"
    have none: "map_of rm n = None" using unlisted_name [OF shrunk(2)] c by blast
    obtain r y' where run: "CreateRoleBinding (shared_svc env svc) u (item_Namespace i) (lgb_Name l) (item_roleRef i) y = (r, y')"
      by (rule prod.exhaust)
    obtain e where "r = Inl e"
      using create_refused [OF kube_apiD(2) [OF api] _ run [unfolded single_call_eqs shared_svc_simps shared_clientset_simps shared_simps]]
        c n by (auto simp: item_roleRef_def)
    then show ?thesis
      using none run n c by (simp add: ensureBinding_def ensureRoleBinding_def s Let_def)
  qed
  then obtain msg where "fst (ensureBindings s u ls (from_pairs rb_Name cbs, from_pairs rb_Name rbl, x2)) =
      Inl (Error500InternalServerError msg)"
    using reached
    by (cases "ensureBinding s u l i (cm, rm, y)") (auto simp: ensureBindings_flat items for_each_append)
  then show ?thesis
    unfolding reconcile_rest [OF lists [folded s]] reconcile_rest_def
    by (auto split: prod.splits sum.splits)
qed

end
