(* ===== verification/Schedules.thy ===== *)
theory Schedules
  imports ConcurrentLogins
begin

text \<open>
  Any number of logins at once. A schedule is the order in which the API server and the directory
  serve the requests of all of them; between two requests of one user come requests of the others, as
  the schedule has it. An execution is a schedule in which every user's requests are the ones
  the code makes when the others act as scheduled. By induction over the schedule every request
  conforms, so that each login runs undisturbed.
\<close>

section \<open>Schedules\<close>

type_synonym schedule = "(string \<times> api_request) list"

definition made_by :: "string \<Rightarrow> schedule \<Rightarrow> api_request list" where
  "made_by u sched = map snd (filter (\<lambda>e. fst e = u) sched)"

text \<open>The requests of the others after \<open>n\<close> requests of \<open>u\<close> and before the next one.\<close>

fun between :: "string \<Rightarrow> schedule \<Rightarrow> nat \<Rightarrow> api_request list" where
  "between u [] n = []"
| "between u (e # es) n =
     (if fst e = u then (case n of 0 \<Rightarrow> [] | Suc m \<Rightarrow> between u es m)
      else if n = 0 then snd e # between u es 0
      else between u es n)"

definition turn :: "(api_request \<Rightarrow> 'w \<Rightarrow> 'w) \<Rightarrow> schedule \<Rightarrow> string \<Rightarrow> nat \<Rightarrow> 'w \<Rightarrow> 'w" where
  "turn serve sched u n = fold serve (between u sched n)"

definition execution :: "('c, 'w) authService \<Rightarrow> string set \<Rightarrow> 'w \<Rightarrow> schedule \<Rightarrow> bool" where
  "execution s us w sched \<longleftrightarrow>
     fst ` set sched \<subseteq> us \<and>
     (\<forall>u\<in>us. snd (snd (AuthAccount (shared_auth (turn (served s) sched u) s) u (w, []))) = made_by u sched)"

lemma made_by_simps [simp]:
  "made_by u [] = []" "made_by u (e # es) = (if fst e = u then snd e # made_by u es else made_by u es)"
  by (simp_all add: made_by_def)

lemma made_by_nth:
  "k < length sched \<Longrightarrow> fst (sched ! k) = u \<Longrightarrow>
     length (made_by u (take k sched)) < length (made_by u sched) \<and>
     made_by u sched ! length (made_by u (take k sched)) = snd (sched ! k)"
  by (induction sched arbitrary: k) (auto simp: nth_Cons' take_Cons')

text \<open>What the others do up to a request of \<open>u\<close> comes before it in the schedule.\<close>

lemma between_take:
  "k < length sched \<Longrightarrow> fst (sched ! k) = u \<Longrightarrow> n \<le> length (made_by u (take k sched)) \<Longrightarrow>
     q \<in> set (between u sched n) \<Longrightarrow> \<exists>v. v \<noteq> u \<and> (v, q) \<in> set (take k sched)"
proof (induction sched arbitrary: k n)
  case Nil
  then show ?case by simp
next
  case (Cons e es)
  show ?case
  proof (cases k)
    case 0
    then show ?thesis using Cons.prems by simp
  next
    case (Suc j)
    have es: "j < length es" "fst (es ! j) = u" using Cons.prems Suc by simp_all
    show ?thesis
    proof (cases "fst e = u")
      case True
      then obtain m where "n = Suc m" "q \<in> set (between u es m)"
        using Cons.prems(4) by (cases n) simp_all
      then show ?thesis using Cons.IH [OF es, of m] Cons.prems(3) True Suc by auto
    next
      case False
      show ?thesis
      proof (cases "q \<in> set (between u es n)")
        case True
        then show ?thesis using Cons.IH [OF es, of n] Cons.prems(3) False Suc by auto
      next
        case new: False
        then have "q = snd e" using Cons.prems(4) False by (auto split: if_splits)
        then have "(fst e, q) \<in> set (take k (e # es))" using Suc by (cases e) simp
        then show ?thesis using False by blast
      qed
    qed
  qed
qed

lemma between_others: "set (between u sched n) \<subseteq> snd ` {e \<in> set sched. fst e \<noteq> u}"
proof (induction sched arbitrary: n)
  case (Cons e es)
  have "snd ` {x \<in> set es. fst x \<noteq> u} \<subseteq> snd ` {x \<in> set (e # es). fst x \<noteq> u}" by auto
  then show ?case using Cons.IH by (cases n) (auto simp: subset_iff)
qed simp

text \<open>A block of requests of one user.\<close>

lemma between_block:
  "between u (map (Pair v) qs @ es) n =
     (if v = u then if n < length qs then [] else between u es (n - length qs)
      else if n = 0 then qs @ between u es 0 else between u es n)"
proof (induction qs arbitrary: n)
  case Nil
  then show ?case by simp
next
  case (Cons q qs)
  then show ?case by (cases n) auto
qed

lemma between_block_end: "between u (map (Pair v) qs) n = (if v = u \<or> n \<noteq> 0 then [] else qs)"
  using between_block [of u v qs "[]" n] by simp

section \<open>The world of an execution\<close>

text \<open>Serving the requests of one user, with the others at their turns.\<close>

fun serve_all :: "(api_request \<Rightarrow> 'w \<Rightarrow> 'w) \<Rightarrow> (nat \<Rightarrow> 'w \<Rightarrow> 'w) \<Rightarrow> nat \<Rightarrow> api_request list \<Rightarrow> 'w \<Rightarrow> 'w" where
  "serve_all serve env n [] w = w"
| "serve_all serve env n (q # qs) w = serve_all serve env (Suc n) qs (serve q (env n w))"

lemma serve_all_snoc: "serve_all serve env n (qs @ [q]) w = serve q (env (n + length qs) (serve_all serve env n qs w))"
  by (induction qs arbitrary: n w) simp_all

lemma serve_all_Suc: "serve_all serve env (Suc n) qs w = serve_all serve (\<lambda>n. env (Suc n)) n qs w"
  by (induction qs arbitrary: n w) simp_all

lemma serve_all_cong: "(\<And>m. n \<le> m \<Longrightarrow> env m = env' m) \<Longrightarrow> serve_all serve env n qs w = serve_all serve env' n qs w"
  by (induction qs arbitrary: n w) simp_all

text \<open>Each user's view of the execution is the same: all requests in the order of the schedule.\<close>

lemma turn_simps:
  "fst e = u \<Longrightarrow> turn serve (e # es) u 0 = (\<lambda>w. w)"
  "fst e = u \<Longrightarrow> turn serve (e # es) u (Suc m) = turn serve es u m"
  "fst e \<noteq> u \<Longrightarrow> turn serve (e # es) u 0 = (\<lambda>w. turn serve es u 0 (serve (snd e) w))"
  "fst e \<noteq> u \<Longrightarrow> turn serve (e # es) u (Suc m) = turn serve es u (Suc m)"
  by (simp_all add: turn_def fun_eq_iff)

lemma serve_schedule:
  "turn serve sched u (length (made_by u sched)) (serve_all serve (turn serve sched u) 0 (made_by u sched) w) =
     fold serve (map snd sched) w"
proof (induction sched arbitrary: w)
  case Nil
  then show ?case by (simp add: turn_def)
next
  case (Cons e es)
  show ?case
  proof (cases "fst e = u")
    case True
    have "serve_all serve (turn serve (e # es) u) 1 (made_by u es) v = serve_all serve (turn serve es u) 0 (made_by u es) v" for v
      by (simp add: serve_all_Suc turn_simps(2) [OF True])
    then show ?thesis using True Cons.IH by (simp add: turn_simps)
  next
    case False
    have later: "serve_all serve (turn serve (e # es) u) (Suc n) qs v = serve_all serve (turn serve es u) (Suc n) qs v" for n qs v
      by (rule serve_all_cong) (metis Suc_le_D turn_simps(4) [OF False])
    show ?thesis
    proof (cases "made_by u es")
      case Nil
      then show ?thesis using False Cons.IH [of "serve (snd e) w"] by (simp add: turn_simps)
    next
      case c: (Cons q qs)
      then show ?thesis
        using False Cons.IH [of "serve (snd e) w"] by (simp add: turn_simps later)
    qed
  qed
qed

section \<open>The world a run has seen\<close>

text \<open>
  An invariant of shared calls is one of the code, which touches the cluster by them only.
\<close>

definition call_invariant :: "(nat \<Rightarrow> 'w \<Rightarrow> 'w) \<Rightarrow> (api_request \<Rightarrow> 'w \<Rightarrow> 'w) \<Rightarrow> ('w shared \<Rightarrow> bool) \<Rightarrow> bool" where
  "call_invariant env serve P \<longleftrightarrow>
     (\<forall>x w q. P x \<longrightarrow> w = serve q (env (length (snd x)) (fst x)) \<longrightarrow> P (w, snd x @ [q]))"

lemma call_stays:
  assumes "call_invariant env serve P" and "\<And>w. snd (call w) = serve q w"
  shows "stays P (observed env q call)"
  unfolding stays_def
proof (intro allI impI)
  fix x
  assume "P x"
  then have "P (serve q (env (length (snd x)) (fst x)), snd x @ [q])"
    using assms(1) unfolding call_invariant_def by blast
  then show "P (snd (observed env q call x))"
    using assms(2) [of "env (length (snd x)) (fst x)"] by (auto simp: observed_def split: prod.split)
qed

lemma service_calls_stay:
  assumes c: "call_invariant env (perform (svc_clientset svc) L) P"
  shows "stays P (GetClusterRoleBindings (shared_svc env svc) u)" "stays P (GetRoleBindings (shared_svc env svc) u)"
    "stays P (CreateClusterRoleBinding (shared_svc env svc) u r l)" "stays P (CreateRoleBinding (shared_svc env svc) u ns l rr)"
    "stays P (UpdateClusterRoleBinding (shared_svc env svc) u r l)" "stays P (UpdateRoleBinding (shared_svc env svc) u ns rr l)"
    "stays P (DeleteClusterRoleBinding (shared_svc env svc) n)" "stays P (DeleteRoleBinding (shared_svc env svc) ns n)"
    "stays P (UpsertServiceAccount (shared_svc env svc) u)" "stays P (IssueToken (shared_svc env svc) u)"
proof -
  note call = call_stays [OF c]
  show "stays P (GetClusterRoleBindings (shared_svc env svc) u)" "stays P (GetRoleBindings (shared_svc env svc) u)"
    unfolding GetClusterRoleBindings_def GetRoleBindings_def by (intro stays_case stays_pure, simp add: call)+
  show "stays P (CreateClusterRoleBinding (shared_svc env svc) u r l)" "stays P (CreateRoleBinding (shared_svc env svc) u ns l rr)"
    "stays P (DeleteClusterRoleBinding (shared_svc env svc) n)" "stays P (DeleteRoleBinding (shared_svc env svc) ns n)"
    by (simp_all add: single_call_eqs call)
  show "stays P (UpdateClusterRoleBinding (shared_svc env svc) u r l)"
    unfolding UpdateClusterRoleBinding_eq pass_on by (intro stays_case stays_pure) (simp_all add: call)
  show "stays P (UpdateRoleBinding (shared_svc env svc) u ns rr l)"
    unfolding UpdateRoleBinding_eq pass_on by (intro stays_case stays_pure) (simp_all add: call)
  show "stays P (IssueToken (shared_svc env svc) u)" by (simp add: single_call_eqs call)
  have "stays P (createServiceAccount (shared_svc env svc) u)" by (simp add: single_call_eqs call)
  then have "stays P (\<lambda>x. if b then createServiceAccount (shared_svc env svc) u x else (Inl e, x))" for b e
    by (simp add: stays_def)
  then show "stays P (UpsertServiceAccount (shared_svc env svc) u)"
    unfolding UpsertServiceAccount_def by (intro stays_case stays_pure) (simp_all add: call)
qed

lemma ensureBinding_stays:
  assumes c: "call_invariant env (perform (svc_clientset svc) L) P" and s: "as_serviceAccountsSvc s = shared_svc env svc"
  shows "stays (\<lambda>(cm, rm, x). P x) (ensureBinding s u l i)"
  unfolding stays_def
proof (intro allI impI)
  fix st :: "crbMap \<times> rbMap \<times> 'a shared"
  assume st: "case st of (cm, rm, x) \<Rightarrow> P x"
  obtain cm rm x where p: "st = (cm, rm, x)" by (metis prod_cases3)
  then have x: "P x" using st by simp
  note k = staysD [OF service_calls_stay(3) [OF c] x] staysD [OF service_calls_stay(4) [OF c] x]
    staysD [OF service_calls_stay(5) [OF c] x] staysD [OF service_calls_stay(6) [OF c] x]
  have "P x'" if "ensureClusterRoleBinding s u ln i n m x = (r, m', x')" for ln n m r m' x'
    using that x by (auto simp: ensureClusterRoleBinding_def s split: option.splits prod.splits sum.splits if_splits dest: k)
  moreover have "P x'" if "ensureRoleBinding s u ln i n m x = (r, m', x')" for ln n m r m' x'
    using that x by (auto simp: ensureRoleBinding_def s Let_def split: option.splits prod.splits sum.splits if_splits dest: k)
  ultimately show "case snd (ensureBinding s u l i st) of (cm, rm, x) \<Rightarrow> P x"
    using x by (auto simp: ensureBinding_def p Let_def split: prod.split)
qed

lemma reconcile_stays:
  assumes c: "call_invariant env (perform (svc_clientset svc) L) P" and s: "as_serviceAccountsSvc s = shared_svc env svc"
  shows "stays P (reconcileClusterAndRoleBindings s u ls)"
proof -
  note k = service_calls_stay [OF c]
  have lists: "stays P (getExistingClusterRoleBindings s u)" "stays P (getExistingRoleBindings s u)"
    unfolding getExistingClusterRoleBindings_def getExistingRoleBindings_def s by (intro stays_case stays_pure k(1,2))+
  have removes: "stays P (removeUnusedClusterRoleBindings s u m)" "stays P (removeUnusedRoleBindings s u m)" for m
    unfolding removeUnusedClusterRoleBindings_def removeUnusedRoleBindings_def s
    by (rule stays_for_each, auto intro!: stays_case stays_pure k(7,8))+
  have rest: "stays P (reconcile_rest s u ls cm rm)" for cm rm
    unfolding stays_def
  proof (intro allI impI)
    fix x
    assume "P x"
    obtain r cm' rm' x3 where e: "ensureBindings s u ls (cm, rm, x) = (r, cm', rm', x3)" by (rule prod_cases4)
    have "stays (\<lambda>(cm, rm, x). P x) (ensureBindings s u ls)"
      unfolding ensureBindings_def by (intro stays_for_each ensureBinding_stays [OF c s])
    from staysD [OF this _ e] have x3: "P x3" using \<open>P x\<close> by simp
    have "stays P (\<lambda>x. case removeUnusedClusterRoleBindings s u cm' x of
        (Inl err, x') \<Rightarrow> (Inl err, x') | (Inr _, x') \<Rightarrow> removeUnusedRoleBindings s u rm' x')"
      by (intro stays_case stays_pure removes)
    from this [unfolded stays_def, rule_format, OF x3] show "P (snd (reconcile_rest s u ls cm rm x))"
      using e x3 by (cases r) (simp_all add: reconcile_rest_def)
  qed
  have "reconcileClusterAndRoleBindings s u ls = (\<lambda>x. case getExistingClusterRoleBindings s u x of
      (Inl e, x') \<Rightarrow> (Inl e, x')
    | (Inr cm, x') \<Rightarrow> (case getExistingRoleBindings s u x' of
        (Inl e, x'') \<Rightarrow> (Inl e, x'') | (Inr rm, x'') \<Rightarrow> reconcile_rest s u ls cm rm x''))"
    unfolding fun_eq_iff reconcileClusterAndRoleBindings_def reconcile_rest_def pass_on by simp
  then show ?thesis by (simp only:) (intro stays_case stays_pure lists rest)
qed

lemma login_stays:
  assumes c: "call_invariant env (served s) P" and api: "kube_api (svc_clientset (as_serviceAccountsSvc s)) V"
  shows "stays P (AuthAccount (shared_auth env s) u)"
proof (rule AuthAccount_stays, unfold shared_auth_simps)
  show "ldap_stays P (shared_ldap env (ls_lib (as_ldapSvc s)))"
    by (simp add: ldap_stays_def shared_ldap_def call_stays [OF c])
  show "stays P (reconcileClusterAndRoleBindings (shared_auth env s) u ls)" for ls
    by (rule reconcile_stays [OF c]) simp
qed (rule service_calls_stay(9,10) [OF c] shared_upsert_name [OF api] | assumption)+

lemma run_world:
  assumes api: "kube_api (svc_clientset (as_serviceAccountsSvc s)) V"
    and run: "AuthAccount (shared_auth env s) u (w, []) = (r, w', log)"
  shows "w' = serve_all (served s) env 0 log w"
proof -
  let ?P = "\<lambda>x. fst x = serve_all (served s) env 0 (snd x) w"
  have "call_invariant env (served s) ?P"
    unfolding call_invariant_def by (simp add: serve_all_snoc)
  from staysD [OF login_stays [OF this api] _ run] show ?thesis by simp
qed

section \<open>Every request of an execution conforms\<close>

lemma execution_user: "execution s us w sched \<Longrightarrow> (v, q) \<in> set sched \<Longrightarrow> v \<in> us"
  unfolding execution_def by (metis fst_conv image_eqI subsetD)

lemma execution_run:
  assumes "execution s us w sched" and "u \<in> us"
  shows "\<exists>r w'. AuthAccount (shared_auth (turn (served s) sched u) s) u (w, []) = (r, w', made_by u sched)"
  using assms by (metis execution_def prod.collapse)

definition may_share :: "'w KubeView \<Rightarrow> ('c, 'w) authService \<Rightarrow> string set \<Rightarrow> bool" where
  "may_share V s us \<longleftrightarrow> (\<forall>u\<in>us. shares V (ls_lib (as_ldapSvc s)) (as_serviceAccountsSvc s) u)"

lemma may_shareD: "may_share V s us \<Longrightarrow> u \<in> us \<Longrightarrow> shares V (ls_lib (as_ldapSvc s)) (as_serviceAccountsSvc s) u"
  by (simp add: may_share_def)

lemma turn_unnoticed:
  assumes "may_share V s us" and "u \<in> us"
    and "\<And>q. q \<in> set (between u sched n) \<Longrightarrow> \<exists>v\<in>us. v \<noteq> u \<and> conforms v q"
  shows "unnoticed V (as_serviceAccountsSvc s) u (turn (served s) sched u n)"
proof (rule others_unnoticed [OF may_shareD [OF assms(1,2)]])
  have "\<exists>v. v \<noteq> u \<and> CHR '':'' \<notin> set v \<and> conforms v q" if "q \<in> set (between u sched n)" for q
    using assms(3) [OF that] sharesD(4) [OF may_shareD [OF assms(1)]] by blast
  then show "others (served s) u (turn (served s) sched u n)"
    unfolding others_def turn_def by blast
qed

lemma execution_conforms:
  fixes s :: "('c, 'w) authService"
  defines "svc \<equiv> as_serviceAccountsSvc s"
  assumes sh: "may_share V s us" and ord: "visits_each (as_crbOrder s)" "visits_each (as_rbOrder s)"
    and tidy: "tidy V svc w" and ex: "execution s us w sched"
  shows "k < length sched \<Longrightarrow> conforms (fst (sched ! k)) (snd (sched ! k))"
proof (induction k rule: less_induct)
  case (less k)
  define u where "u = fst (sched ! k)"
  let ?env = "turn (served s) sched u" and ?j = "length (made_by u (take k sched))"
  have u: "u \<in> us" using execution_user [OF ex, of u] nth_mem [OF less.prems] by (metis prod.collapse u_def)
  obtain r w' where run: "AuthAccount (shared_auth ?env s) u (w, []) = (r, w', made_by u sched)"
    using execution_run [OF ex u] by blast
  have "orderly V svc u ?env 0 (w, [])" using tidy by (simp add: orderly_def)
  from staysD [OF login_orderly [OF may_shareD [OF sh u] ord] this [unfolded svc_def] run]
  have after: "orderly V svc u ?env 0 (w', made_by u sched)" by (simp add: svc_def)
  have "unnoticed V svc u (?env n)" if n: "n \<le> ?j" for n
    unfolding svc_def
  proof (rule turn_unnoticed [OF sh u])
    fix q
    assume q: "q \<in> set (between u sched n)"
    obtain v where v: "v \<noteq> u" "(v, q) \<in> set (take k sched)"
      using between_take [OF less.prems u_def [symmetric] n q] by blast
    then obtain i where i: "i < k" "sched ! i = (v, q)" using less.prems by (auto simp: in_set_conv_nth)
    then have "conforms v q" using less.IH [of i] less.prems by simp
    moreover have "v \<in> us" using execution_user [OF ex] v(2) by (meson in_set_takeD)
    ultimately show "\<exists>v\<in>us. v \<noteq> u \<and> conforms v q" using v(1) by blast
  qed
  then have "quiet V svc u ?env (Suc ?j)" by (simp add: quiet_def)
  moreover have "\<forall>j<length (made_by u sched). quiet V svc u ?env (Suc j) \<longrightarrow> conforms u (made_by u sched ! j)"
    using after unfolding orderly_def snd_conv by blast
  ultimately have "conforms u (made_by u sched ! ?j)"
    using made_by_nth [OF less.prems u_def [symmetric]] by blast
  then show ?case using made_by_nth [OF less.prems u_def [symmetric]] by (simp add: u_def)
qed

section \<open>The outcome\<close>

lemma execution_unnoticed:
  assumes sh: "may_share V s us" and ord: "visits_each (as_crbOrder s)" "visits_each (as_rbOrder s)"
    and tidy: "tidy V (as_serviceAccountsSvc s) w" and ex: "execution s us w sched" and u: "u \<in> us"
  shows "unnoticed V (as_serviceAccountsSvc s) u (turn (served s) sched u n)"
proof (rule turn_unnoticed [OF sh u])
  fix q
  assume "q \<in> set (between u sched n)"
  then obtain v where v: "v \<noteq> u" "(v, q) \<in> set sched" using between_others [of u sched n] by force
  then obtain k where "k < length sched" "sched ! k = (v, q)" by (auto simp: in_set_conv_nth)
  then have "conforms v q" using execution_conforms [OF sh ord tidy ex, of k] by simp
  moreover have "v \<in> us" using execution_user [OF ex v(2)] .
  ultimately show "\<exists>v\<in>us. v \<noteq> u \<and> conforms v q" using v(1) by blast
qed

text \<open>With the cluster tidy, the roles a user holds are read off its own part.\<close>

lemma roles_of_own_part:
  assumes "tidy V svc w" and "tidy V svc v" and u: "CHR '':'' \<notin> set u"
  shows "own_part u (v_CRB V) v = own_part u (v_CRB V) w \<Longrightarrow> cluster_roles V svc u v = cluster_roles V svc u w"
    and "own_part u (v_RB V) v = own_part u (v_RB V) w \<Longrightarrow> roles V svc u v = roles V svc u w"
proof -
  have c: "v_CRB V x k = Some b \<and> managed_for svc u b \<longleftrightarrow> own_part u (v_CRB V) x k = Some b \<and> managed_for svc u b"
    if "tidy V svc x" for x k b
    using tidy_viewD(1) [of svc "v_CRB V x" k b u] that u by (auto simp: tidy_def own_part_def)
  have r: "v_RB V x k = Some b \<and> managed_for svc u b \<longleftrightarrow> own_part u (v_RB V) x k = Some b \<and> managed_for svc u b"
    if "tidy V svc x" for x k b
    using tidy_viewD(1) [of svc "v_RB V x" k b u] that u by (auto simp: tidy_def own_part_def)
  show "cluster_roles V svc u v = cluster_roles V svc u w" if "own_part u (v_CRB V) v = own_part u (v_CRB V) w"
    unfolding cluster_roles_def c [OF assms(1)] c [OF assms(2)] that ..
  show "roles V svc u v = roles V svc u w" if "own_part u (v_RB V) v = own_part u (v_RB V) w"
    unfolding roles_def r [OF assms(1)] r [OF assms(2)] that ..
qed

lemma execution_outcome:
  fixes s :: "('c, 'w) authService" and w :: 'w and sched :: schedule
  defines "svc \<equiv> as_serviceAccountsSvc s"
  defines "final \<equiv> fold (served s) (map snd sched) w"
  assumes sh: "may_share V s us" and wired: "wired s"
    and ord: "visits_each (as_crbOrder s)" "visits_each (as_rbOrder s)"
    and tidy: "tidy V svc w" and ex: "execution s us w sched" and u: "u \<in> us" and on: "env_LDAPEnabled (as_env s)"
    and ok: "fst (AuthAccount (shared_auth (turn (served s) sched u) s) u (w, [])) = Inr cred"
  obtains sa x1 user x2 groups x3 where
    "UpsertServiceAccount (shared_svc (turn (served s) sched u) svc) u (w, []) = (Inr sa, x1)"
    "GetUser (as_ldapSvc (shared_auth (turn (served s) sched u) s)) u x1 = (Inr user, x2)"
    "GetUserGroups (as_ldapSvc (shared_auth (turn (served s) sched u) s)) (entry_DN user) x2 = (Inr groups, x3)"
    "cluster_roles V svc u final = due_cluster_roles
       (filter (\<lambda>l. spec_LdapGroupDN (lgb_Spec l) \<in> set groups) (cached (as_ldapGroupBindingsSvc s (fst x3))))"
    "namespaces_settled V svc u
        (filter (\<lambda>l. spec_LdapGroupDN (lgb_Spec l) \<in> set groups) (cached (as_ldapGroupBindingsSvc s (fst x3)))) w \<Longrightarrow>
      roles V svc u final = due_roles
       (filter (\<lambda>l. spec_LdapGroupDN (lgb_Spec l) \<in> set groups) (cached (as_ldapGroupBindingsSvc s (fst x3))))"
proof -
  let ?env = "turn (served s) sched u" and ?log = "made_by u sched"
  note shu = may_shareD [OF sh u, folded svc_def]
  have q: "unnoticed V svc u (?env n)" for n
    using execution_unnoticed [OF sh ord tidy [unfolded svc_def] ex u] by (simp add: svc_def)
  obtain w' where run: "AuthAccount (shared_auth ?env s) u (w, []) = (Inr cred, w', ?log)"
    using execution_run [OF ex u] ok by fastforce
  have start: "orderly V svc u ?env 0 (w, [])" using tidy by (simp add: orderly_def)
  have final: "final = ?env (length ?log) w'"
    unfolding run_world [OF sharesD(1) [OF shu [unfolded svc_def]] run] final_def by (rule serve_schedule [symmetric])
  have same: "cluster_roles V svc u final = cluster_roles V svc u w'" "roles V svc u final = roles V svc u w'"
    if "orderly V svc u ?env 0 (w', ?log)"
  proof -
    have w': "tidy V svc w'" using that q by (simp add: orderly_def quiet_def)
    then have tidy': "tidy V svc final" using unnoticedD(4) [OF q] final by simp
    show "cluster_roles V svc u final = cluster_roles V svc u w'" "roles V svc u final = roles V svc u w'"
      using roles_of_own_part [OF w' tidy' sharesD(4) [OF shu]] unnoticedD(1,2) [OF q] final by simp_all
  qed
  show thesis
    by (rule shared_login [OF shu [unfolded svc_def] q [unfolded svc_def] wired ord on start [unfolded svc_def] run])
       (rule that, (simp add: svc_def same [unfolded svc_def])+)
qed

end
