(* ===== verification/ConcurrencyProperties.thy ===== *)
theory ConcurrencyProperties
  imports Examples Schedules
begin

text \<open>
  The properties of logins that run at the same time, with their witnesses: for different
  users both halves of a rely/guarantee argument, for one user the race between two of them.
\<close>

section \<open>The memory server\<close>

lemma mem_client_settles:
  assumes "\<And>m w. get (put m w) = m"
  shows "rbac_settles (mem_client ns get put) (\<lambda>w. mem_look ns (get w))"
  using assms by (auto simp: rbac_settles_def mem_client_def stamp_stored split: option.splits)

lemma mem_settles: "kube_settles mem_K mem_V"
  by (simp add: kube_settles_def mem_K_def mem_V_def mem_client_settles)

lemma tidy_empty: "tidy mem_V svc example_world" "tidy mem_V svc empty_world"
  by (simp_all add: tidy_def tidy_view_def)

lemma example_apart: "directory_apart (mem_ldap table) mem_V"
  by (simp add: directory_apart_def ldap_keeps_def keeps_def mem_ldap_def mem_V_def)

section \<open>Two logins at once\<close>

text \<open>
  Logins of \<open>ann\<close> in the group of \<open>devs\<close> and of \<open>bob\<close> in that of \<open>ops\<close>. Their first
  connections to the directory are open at the same time, and \<open>ann\<close> waits while \<open>bob\<close> reads and
  writes bindings.
\<close>

definition ops :: LdapGroupBinding where
  "ops = new_lgb ''ops'' ''cn=ops'' [\<lparr>item_Kind = ''ClusterRole'', item_Name = ''admin'', item_Namespace = '''', item_ApiGroup = ''''\<rparr>]"

definition two_users_directory :: "string \<Rightarrow> string \<Rightarrow> Entry list" where
  "two_users_directory base flt =
     (if base = ''ou=users'' \<and> flt = ''(uid=bob)'' then [\<lparr>entry_DN = ''uid=bob''\<rparr>]
      else if base = ''ou=groups'' \<and> flt = ''(member=uid=bob)'' then [\<lparr>entry_DN = ''cn=ops''\<rparr>]
      else example_directory base flt)"

definition two_users_auth :: "(unit, mem) authService" where
  "two_users_auth = example_auth\<lparr>as_ldapSvc := New_Ldap example_env (mem_ldap two_users_directory) (\<lambda>f a. f)\<rparr>"

definition two_users_world :: mem where
  "two_users_world = example_world\<lparr>mem_cache := add (\<lambda>_. 0) ops (mem_cache example_world)\<rparr>"

lemma two_users_simps [simp]:
  "as_serviceAccountsSvc two_users_auth = example_svc" "as_env two_users_auth = example_env"
  "ls_lib (as_ldapSvc two_users_auth) = mem_ldap two_users_directory"
  "as_crbOrder two_users_auth = (\<lambda>ks. ks)" "as_rbOrder two_users_auth = (\<lambda>ks. ks)"
  "as_ldapGroupBindingsSvc two_users_auth = mem_cache" "wired two_users_auth"
  "tidy mem_V example_svc two_users_world" "env_LDAPEnabled example_env"
  using example_wired
  by (simp_all add: two_users_auth_def New_Ldap_def wired_def two_users_world_def tidy_def tidy_view_def mem_V_def
      example_world_def empty_world_def mem_look_def example_env_def)

definition account_requests :: "string \<Rightarrow> api_request list" where
  "account_requests u = [GetServiceAccountRequest ''kerbernetes'' u,
     CreateServiceAccountRequest ''kerbernetes'' \<lparr>sa_ObjectMeta = \<lparr>om_Name = u, om_Namespace = '''', om_Labels = []\<rparr>\<rparr>]"

definition dial :: api_request where
  "dial = DirectoryRequest (DialRequest '''')"

definition lookup_requests :: "conn \<Rightarrow> string \<Rightarrow> string \<Rightarrow> api_request list" where
  "lookup_requests c base flt = map DirectoryRequest
     [BindRequest c '''' '''', SearchDirectory c (searchRequest base flt), CloseRequest c]"

definition list_requests :: "api_request list" where
  "list_requests = [ClusterRoleBindingRequest (ListBindings () ''kerbernetes.io/managed=true''),
     RoleBindingRequest (ListBindings '''' ''kerbernetes.io/managed=true'')]"

definition token_request :: "string \<Rightarrow> api_request" where
  "token_request u = CreateTokenRequest ''kerbernetes'' u
     \<lparr>tr_Spec = \<lparr>trs_Audiences = [''https://kubernetes.default.svc.cluster.local''], trs_ExpirationSeconds = Some 600\<rparr>,
      tr_Status = \<lparr>tst_Token = '''', tst_ExpirationTimestamp = 0\<rparr>\<rparr>"

definition bob_rest :: "api_request list" where
  "bob_rest = lookup_requests 1 ''ou=users'' ''(uid=bob)'' @ dial # lookup_requests 0 ''ou=groups'' ''(member=uid=bob)'' @
     list_requests @
     [ClusterRoleBindingRequest (CreateBinding () (crb_object example_svc ''bob'' (''ops'', ''admin''))), token_request ''bob'']"

definition ann_rest :: "api_request list" where
  "ann_rest = dial # lookup_requests 0 ''ou=groups'' ''(member=uid=ann)'' @ list_requests @
     [ClusterRoleBindingRequest (CreateBinding () (crb_object example_svc ''ann'' (''devs'', ''view''))),
      RoleBindingRequest (CreateBinding ''dev''
         (rb_object example_svc ''ann'' (''devs'', ''dev'', item_roleRef (edit_item ''dev'')))),
      token_request ''ann'']"

definition two_users_schedule :: schedule where
  "two_users_schedule =
     map (Pair ''ann'') (account_requests ''ann'') @ map (Pair ''bob'') (account_requests ''bob'') @
     map (Pair ''ann'') [dial] @ map (Pair ''bob'') [dial] @
     map (Pair ''ann'') (lookup_requests 0 ''ou=users'' ''(uid=ann)'') @
     map (Pair ''bob'') bob_rest @ map (Pair ''ann'') ann_rest"

text \<open>What each of the two finds done between its requests, in a form that evaluates.\<close>

fun two_users_serve :: "api_request list \<Rightarrow> mem \<Rightarrow> mem" where
  "two_users_serve [] w = w"
| "two_users_serve (q # qs) w = two_users_serve qs (perform mem_K (mem_ldap two_users_directory) q w)"

definition two_users_between :: "string \<Rightarrow> nat \<Rightarrow> api_request list" where
  "two_users_between u n =
     (if u = ''ann'' then
        if n = 2 then account_requests ''bob'' else if n = 3 then [dial] else if n = 6 then bob_rest else []
      else
        if n = 0 then account_requests ''ann'' else if n = 2 then [dial]
        else if n = 3 then lookup_requests 0 ''ou=users'' ''(uid=ann)'' else if n = 14 then ann_rest else [])"

definition two_users_turn :: "string \<Rightarrow> nat \<Rightarrow> mem \<Rightarrow> mem" where
  "two_users_turn u n w = two_users_serve (two_users_between u n) w"

lemma two_users_between: "between ''ann'' two_users_schedule n = two_users_between ''ann'' n"
  "between ''bob'' two_users_schedule n = two_users_between ''bob'' n"
  unfolding two_users_schedule_def between_block between_block_end two_users_between_def
  by (auto simp: account_requests_def lookup_requests_def list_requests_def bob_rest_def ann_rest_def)

lemma two_users_turn:
  "turn (served two_users_auth) two_users_schedule ''ann'' = two_users_turn ''ann''"
  "turn (served two_users_auth) two_users_schedule ''bob'' = two_users_turn ''bob''"
proof -
  have "two_users_serve qs = fold (served two_users_auth) qs" for qs
    by (induction qs) (simp_all add: fun_eq_iff)
  then show "turn (served two_users_auth) two_users_schedule ''ann'' = two_users_turn ''ann''"
    "turn (served two_users_auth) two_users_schedule ''bob'' = two_users_turn ''bob''"
    by (simp_all add: fun_eq_iff turn_def two_users_turn_def two_users_between)
qed

text \<open>The calls of the two logins one by one.\<close>

definition account_call :: "string \<Rightarrow> (api_error + ServiceAccount) \<times> mem shared" where
  "account_call u = UpsertServiceAccount (shared_svc (two_users_turn u) example_svc) u (two_users_world, [])"

definition user_call :: "string \<Rightarrow> (ldap_error + Entry) \<times> mem shared" where
  "user_call u = GetUser (as_ldapSvc (shared_auth (two_users_turn u) two_users_auth)) u (snd (account_call u))"

definition groups_call :: "string \<Rightarrow> (ldap_error + string list) \<times> mem shared" where
  "groups_call u = GetUserGroups (as_ldapSvc (shared_auth (two_users_turn u) two_users_auth)) (''uid='' @ u) (snd (user_call u))"

definition two_users_groups :: "string \<Rightarrow> string list" where
  "two_users_groups u = [if u = ''ann'' then ''cn=devs'' else ''cn=ops'']"

definition reconcile_call :: "string \<Rightarrow> (http_error + unit) \<times> mem shared" where
  "reconcile_call u = reconcileClusterAndRoleBindings (shared_auth (two_users_turn u) two_users_auth) u
     (userGroupBindings (two_users_groups u)
        (bindings_seen (mem_cache (fst (snd (groups_call u)))) (GetBindings (mem_cache (fst (snd (groups_call u)))))))
     (snd (groups_call u))"

definition token_call :: "string \<Rightarrow> (api_error + TokenRequest) \<times> mem shared" where
  "token_call u = IssueToken (shared_svc (two_users_turn u) example_svc) u (snd (reconcile_call u))"

lemma ann_calls:
  "fst (account_call ''ann'') = Inr \<lparr>sa_ObjectMeta = \<lparr>om_Name = ''ann'', om_Namespace = ''kerbernetes'', om_Labels = []\<rparr>\<rparr>"
  "fst (user_call ''ann'') = Inr \<lparr>entry_DN = ''uid=ann''\<rparr>" "fst (groups_call ''ann'') = Inr [''cn=devs'']"
  "fst (reconcile_call ''ann'') = Inr ()" "isl (fst (token_call ''ann'')) = False"
  by code_simp+

lemma ann_log: "snd (snd (token_call ''ann'')) = made_by ''ann'' two_users_schedule"
  by code_simp

lemma bob_calls:
  "fst (account_call ''bob'') = Inr \<lparr>sa_ObjectMeta = \<lparr>om_Name = ''bob'', om_Namespace = ''kerbernetes'', om_Labels = []\<rparr>\<rparr>"
  "fst (user_call ''bob'') = Inr \<lparr>entry_DN = ''uid=bob''\<rparr>" "fst (groups_call ''bob'') = Inr [''cn=ops'']"
  "fst (reconcile_call ''bob'') = Inr ()" "isl (fst (token_call ''bob'')) = False"
  by code_simp+

lemma bob_log: "snd (snd (token_call ''bob'')) = made_by ''bob'' two_users_schedule"
  by code_simp

lemma two_users_run:
  assumes "fst (account_call u) = Inr sa" and "sa_Name sa = u" and "fst (user_call u) = Inr user"
    and "entry_DN user = ''uid='' @ u" and "fst (groups_call u) = Inr (two_users_groups u)"
    and "fst (reconcile_call u) = Inr ()" and "isl (fst (token_call u)) = False"
  shows "\<exists>cred. AuthAccount (shared_auth (two_users_turn u) two_users_auth) u (two_users_world, []) = (Inr cred, snd (token_call u))"
proof -
  let ?s = "shared_auth (two_users_turn u) two_users_auth"
  obtain token where token: "fst (token_call u) = Inr token" using assms(7) by (cases "fst (token_call u)") auto
  have call1: "UpsertServiceAccount (as_serviceAccountsSvc ?s) u (two_users_world, []) = (Inr sa, snd (account_call u))"
    unfolding assms(1) [symmetric] account_call_def by simp
  have call2: "GetUser (as_ldapSvc ?s) u (snd (account_call u)) = (Inr user, snd (user_call u))"
    unfolding assms(3) [symmetric] user_call_def by simp
  have call3: "GetUserGroups (as_ldapSvc ?s) (entry_DN user) (snd (user_call u)) =
      (Inr (two_users_groups u), snd (groups_call u))"
    unfolding assms(4) assms(5) [symmetric] groups_call_def by simp
  have call4: "reconcileClusterAndRoleBindings ?s (sa_Name sa)
      (userGroupBindings (two_users_groups u)
        (bindings_seen (as_ldapGroupBindingsSvc ?s (snd (groups_call u))) (GetBindings (as_ldapGroupBindingsSvc ?s (snd (groups_call u))))))
      (snd (groups_call u)) = (Inr (), snd (reconcile_call u))"
    unfolding assms(2) assms(6) [symmetric] reconcile_call_def shared_auth_simps two_users_simps by simp
  have call5: "IssueToken (as_serviceAccountsSvc ?s) (sa_Name sa) (snd (reconcile_call u)) = (Inr token, snd (token_call u))"
    unfolding assms(2) token [symmetric] token_call_def by simp
  show ?thesis by (rule exI, rule AuthAccount_successful [OF call1 _ call2 call3 call4 call5]) simp
qed

lemma two_users_logins:
  "\<exists>cred. AuthAccount (shared_auth (two_users_turn ''ann'') two_users_auth) ''ann'' (two_users_world, []) = (Inr cred, snd (token_call ''ann''))"
  "\<exists>cred. AuthAccount (shared_auth (two_users_turn ''bob'') two_users_auth) ''bob'' (two_users_world, []) = (Inr cred, snd (token_call ''bob''))"
  by (rule two_users_run [OF ann_calls(1) _ ann_calls(2)], simp_all add: ann_calls two_users_groups_def)
    (rule two_users_run [OF bob_calls(1) _ bob_calls(2)], simp_all add: bob_calls two_users_groups_def)

lemma two_users_execution: "execution two_users_auth {''ann'', ''bob''} two_users_world two_users_schedule"
proof -
  have "snd (snd (AuthAccount (shared_auth (two_users_turn ''ann'') two_users_auth) ''ann'' (two_users_world, []))) =
      made_by ''ann'' two_users_schedule"
    "snd (snd (AuthAccount (shared_auth (two_users_turn ''bob'') two_users_auth) ''bob'' (two_users_world, []))) =
      made_by ''bob'' two_users_schedule"
    using two_users_logins ann_log bob_log by auto
  moreover have "fst ` set two_users_schedule \<subseteq> {''ann'', ''bob''}"
    by (auto simp: two_users_schedule_def)
  ultimately show ?thesis
    unfolding execution_def using two_users_turn by simp
qed

lemma two_users_hyps:
  "kube_api (svc_clientset (as_serviceAccountsSvc two_users_auth)) mem_V"
  "kube_settles (svc_clientset (as_serviceAccountsSvc two_users_auth)) mem_V"
  "directory_apart (ls_lib (as_ldapSvc two_users_auth)) mem_V" "wired two_users_auth"
  "visits_each (as_crbOrder two_users_auth)" "visits_each (as_rbOrder two_users_auth)"
  "env_LDAPEnabled (as_env two_users_auth)" "tidy mem_V (as_serviceAccountsSvc two_users_auth) two_users_world"
  by (simp_all add: example_hyps mem_settles example_apart)

text \<open>For each of the two the other is one of the others.\<close>

lemma two_users_others: "others (served two_users_auth) ''ann'' (two_users_turn ''ann'' n)"
proof -
  have "conforms ''bob'' q" if "q \<in> set (two_users_between ''ann'' n)" for q
    using that
    by (auto simp: two_users_between_def account_requests_def dial_def bob_rest_def lookup_requests_def list_requests_def
        token_request_def crb_object_def own_subjects split: if_splits)
  then show ?thesis
    unfolding others_def two_users_turn [symmetric] turn_def two_users_between
    by (intro exI [of _ "two_users_between ''ann'' n"]) (auto intro!: exI [of _ "''bob''"])
qed

section \<open>Different users\<close>

text \<open>C5. Any number of logins for different users, with LDAP enabled and no colon in the users'
  names, their requests to the API server and to the directory interleaved in any way, in a
  cluster that starts out tidy (a binding managed for a user has the user's prefix in its name
  and no other subject). Then every request conforms, and in the cluster that the whole
  schedule leaves behind each user whose login issued credentials holds exactly the cluster
  roles due for the groups the directory returned in that login. The user also holds exactly
  the roles due in namespaces, provided that at the start no name of the user's RoleBindings
  was in use in two namespaces or wanted in another one than where it was.\<close>

theorem simultaneous_logins_grant_due_roles:
  assumes "kube_api (svc_clientset (as_serviceAccountsSvc s)) V"
    and "kube_settles (svc_clientset (as_serviceAccountsSvc s)) V" and "directory_apart (ls_lib (as_ldapSvc s)) V"
    and "wired s" and "visits_each (as_crbOrder s)" and "visits_each (as_rbOrder s)" and "env_LDAPEnabled (as_env s)"
    and "\<And>v. v \<in> us \<Longrightarrow> CHR '':'' \<notin> set v" and "tidy V (as_serviceAccountsSvc s) w"
    and "execution s us w sched" and "u \<in> us"
    and "fst (AuthAccount (shared_auth (turn (served s) sched u) s) u (w, [])) = Inr cred"
  shows "(\<forall>e\<in>set sched. conforms (fst e) (snd e)) \<and>
    (\<exists>sa x1 user x2 groups x3.
      UpsertServiceAccount (shared_svc (turn (served s) sched u) (as_serviceAccountsSvc s)) u (w, []) = (Inr sa, x1) \<and>
      GetUser (as_ldapSvc (shared_auth (turn (served s) sched u) s)) u x1 = (Inr user, x2) \<and>
      GetUserGroups (as_ldapSvc (shared_auth (turn (served s) sched u) s)) (entry_DN user) x2 = (Inr groups, x3) \<and>
      (let ls = filter (\<lambda>l. spec_LdapGroupDN (lgb_Spec l) \<in> set groups) (cached (as_ldapGroupBindingsSvc s (fst x3)));
           final = fold (served s) (map snd sched) w
       in cluster_roles V (as_serviceAccountsSvc s) u final = due_cluster_roles ls \<and>
         (namespaces_settled V (as_serviceAccountsSvc s) u ls w \<longrightarrow>
            roles V (as_serviceAccountsSvc s) u final = due_roles ls)))"
proof -
  have sh: "may_share V s us" using assms(1-3,8) by (simp add: may_share_def shares_def)
  show ?thesis
  proof (rule conjI)
    show "\<forall>e\<in>set sched. conforms (fst e) (snd e)"
      using execution_conforms [OF sh assms(5,6,9,10)] by (metis in_set_conv_nth)
  qed (rule execution_outcome [OF sh assms(4-6,9-11,7,12)], simp only: Let_def, blast)
qed

lemma simultaneous_logins_grant_due_roles_witness:
  "let env = turn (served two_users_auth) two_users_schedule ''bob'';
       final = fold (served two_users_auth) (map snd two_users_schedule) two_users_world
   in list_all (\<lambda>e. conforms (fst e) (snd e)) two_users_schedule \<and>
    (\<exists>sa x1 user x2 groups x3.
      UpsertServiceAccount (shared_svc env example_svc) ''bob'' (two_users_world, []) = (Inr sa, x1) \<and>
      GetUser (as_ldapSvc (shared_auth env two_users_auth)) ''bob'' x1 = (Inr user, x2) \<and>
      GetUserGroups (as_ldapSvc (shared_auth env two_users_auth)) (entry_DN user) x2 = (Inr groups, x3) \<and>
      cluster_roles mem_V example_svc ''bob'' final = due_cluster_roles
        (filter (\<lambda>l. spec_LdapGroupDN (lgb_Spec l) \<in> set groups) (cached (mem_cache (fst x3)))))"
proof -
  obtain cred where "fst (AuthAccount (shared_auth (turn (served two_users_auth) two_users_schedule ''bob'') two_users_auth)
      ''bob'' (two_users_world, [])) = Inr cred"
    using two_users_logins(2) unfolding two_users_turn by auto
  note bob = this
  have colon: "v \<in> {''ann'', ''bob''} \<Longrightarrow> CHR '':'' \<notin> set v" for v by auto
  show ?thesis
    using simultaneous_logins_grant_due_roles [OF two_users_hyps(1-7) colon two_users_hyps(8) two_users_execution _ bob]
    unfolding list_all_iff Let_def two_users_simps(1,6) by blast
qed

text \<open>C6. A login ends with exactly the due roles also when logins of other users run at the same
  time. With LDAP enabled, no colon in the users' names and a cluster that starts out tidy:
  whatever requests the others make between the requests of this login, after it has issued
  credentials the user holds exactly the cluster roles due for the groups the directory
  returned, and exactly the roles due in namespaces, provided that at the start no name of
  the user's RoleBindings was in use in two namespaces or wanted in another one than where it
  was.\<close>

theorem concurrent_login_grants_due_roles:
  assumes "kube_api (svc_clientset (as_serviceAccountsSvc s)) V"
    and "kube_settles (svc_clientset (as_serviceAccountsSvc s)) V" and "directory_apart (ls_lib (as_ldapSvc s)) V"
    and "wired s" and "visits_each (as_crbOrder s)" and "visits_each (as_rbOrder s)"
    and "CHR '':'' \<notin> set u" and "\<And>n. others (served s) u (env n)"
    and "tidy V (as_serviceAccountsSvc s) w" and "env_LDAPEnabled (as_env s)"
    and "AuthAccount (shared_auth env s) u (w, []) = (Inr cred, w', log)"
  shows "\<exists>sa x1 user x2 groups x3.
    UpsertServiceAccount (shared_svc env (as_serviceAccountsSvc s)) u (w, []) = (Inr sa, x1) \<and>
    GetUser (as_ldapSvc (shared_auth env s)) u x1 = (Inr user, x2) \<and>
    GetUserGroups (as_ldapSvc (shared_auth env s)) (entry_DN user) x2 = (Inr groups, x3) \<and>
    (let ls = filter (\<lambda>l. spec_LdapGroupDN (lgb_Spec l) \<in> set groups) (cached (as_ldapGroupBindingsSvc s (fst x3)))
     in cluster_roles V (as_serviceAccountsSvc s) u w' = due_cluster_roles ls \<and>
       (namespaces_settled V (as_serviceAccountsSvc s) u ls w \<longrightarrow>
          roles V (as_serviceAccountsSvc s) u w' = due_roles ls))"
proof -
  have sh: "shares V (ls_lib (as_ldapSvc s)) (as_serviceAccountsSvc s) u" using assms(1-3,7) by (simp add: shares_def)
  note q = others_unnoticed [OF sh assms(8)]
  have "orderly V (as_serviceAccountsSvc s) u env 0 (w, [])" using assms(9) by (simp add: orderly_def)
  from shared_login [OF sh q assms(4-6,10) this assms(11)] show ?thesis
    unfolding Let_def fst_conv by metis
qed

lemma concurrent_login_grants_due_roles_witness:
  "\<exists>sa x1 user x2 groups x3.
    UpsertServiceAccount (shared_svc (two_users_turn ''ann'') example_svc) ''ann'' (two_users_world, []) = (Inr sa, x1) \<and>
    GetUser (as_ldapSvc (shared_auth (two_users_turn ''ann'') two_users_auth)) ''ann'' x1 = (Inr user, x2) \<and>
    GetUserGroups (as_ldapSvc (shared_auth (two_users_turn ''ann'') two_users_auth)) (entry_DN user) x2 = (Inr groups, x3) \<and>
    (let ls = filter (\<lambda>l. spec_LdapGroupDN (lgb_Spec l) \<in> set groups) (cached (mem_cache (fst x3)));
         w' = fst (snd (token_call ''ann''))
     in cluster_roles mem_V example_svc ''ann'' w' = due_cluster_roles ls \<and>
       (namespaces_settled mem_V example_svc ''ann'' ls two_users_world \<longrightarrow>
          roles mem_V example_svc ''ann'' w' = due_roles ls))"
proof -
  obtain cred where "AuthAccount (shared_auth (two_users_turn ''ann'') two_users_auth) ''ann'' (two_users_world, []) =
      (Inr cred, fst (snd (token_call ''ann'')), snd (snd (token_call ''ann'')))"
    using two_users_logins(1) by auto
  from concurrent_login_grants_due_roles [OF _ _ _ _ _ _ _ _ _ _ this, of mem_V] show ?thesis
    unfolding Let_def using two_users_others by (simp add: example_hyps example_apart mem_settles)
qed

text \<open>C7. A login, whatever its outcome, only makes requests that the logins of other users do not
  notice, and keeps the cluster tidy, when the others do, for users without a colon in their
  names and a cluster that starts out tidy: it reads, it writes and deletes bindings under
  names made for its user and with no other subject, and it deals with its user's service
  account.\<close>

theorem concurrent_login_conforms:
  assumes "kube_api (svc_clientset (as_serviceAccountsSvc s)) V"
    and "kube_settles (svc_clientset (as_serviceAccountsSvc s)) V" and "directory_apart (ls_lib (as_ldapSvc s)) V"
    and "visits_each (as_crbOrder s)" and "visits_each (as_rbOrder s)"
    and "CHR '':'' \<notin> set u" and "\<And>n. others (served s) u (env n)"
    and "tidy V (as_serviceAccountsSvc s) w"
    and "AuthAccount (shared_auth env s) u (w, []) = (r, w', log)"
  shows "tidy V (as_serviceAccountsSvc s) w' \<and> (\<forall>q\<in>set log. conforms u q)"
proof -
  have sh: "shares V (ls_lib (as_ldapSvc s)) (as_serviceAccountsSvc s) u" using assms(1-3,6) by (simp add: shares_def)
  note q = others_unnoticed [OF sh assms(7)]
  have "orderly V (as_serviceAccountsSvc s) u env 0 (w, [])" using assms(8) by (simp add: orderly_def)
  from staysD [OF login_orderly [OF sh assms(4,5)] this assms(9)] show ?thesis
    using q by (auto simp: orderly_def quiet_def in_set_conv_nth)
qed

lemma concurrent_login_conforms_witness:
  "tidy mem_V example_svc (fst (snd (AuthAccount (shared_auth (two_users_turn ''ann'') two_users_auth) ''ann'' (two_users_world, [])))) \<and>
   list_all (conforms ''ann'') (snd (snd (AuthAccount (shared_auth (two_users_turn ''ann'') two_users_auth) ''ann'' (two_users_world, []))))"
  unfolding list_all_iff
  by (rule concurrent_login_conforms [of two_users_auth mem_V "''ann''" "two_users_turn ''ann''" two_users_world
        "fst (AuthAccount (shared_auth (two_users_turn ''ann'') two_users_auth) ''ann'' (two_users_world, []))", simplified])
    (simp_all add: example_hyps example_apart mem_settles two_users_others [simplified])

section \<open>The same user\<close>

text \<open>C17. Two simultaneous logins of one user disturb each other. A login has listed the bindings,
  and its loop comes to an item, of either kind and at any place, whose binding the lists did
  not have. If another login has created that binding by then, the request to create it finds
  it there, and the reconciliation fails with status 500, although what it wants exists.\<close>

theorem simultaneous_logins_fail:
  assumes "kube_api (svc_clientset svc) V" and "as_serviceAccountsSvc s = shared_svc env svc"
    and "GetClusterRoleBindings (shared_svc env svc) u x = (Inr cbs, x1)"
    and "GetRoleBindings (shared_svc env svc) u x1 = (Inr rbl, x2)"
    and "all_items ls = before @ (l, i) # rest"
    and "for_each (\<lambda>(l, i). ensureBinding s u l i) before (from_pairs rb_Name cbs, from_pairs rb_Name rbl, x2) =
      (Inr (), cm, rm, y)"
    and "n = GenBindingName u (item_Name i) (lgb_Name l)"
    and "item_Kind i = ''ClusterRole'' \<and> n \<notin> rb_Name ` set cbs \<and>
        v_CRB V (env (length (snd y)) (fst y)) ((), n) \<noteq> None \<or>
      item_Kind i = ''Role'' \<and> item_Namespace i \<noteq> '''' \<and> n \<notin> rb_Name ` set rbl \<and>
        v_RB V (env (length (snd y)) (fst y)) (item_Namespace i, n) \<noteq> None"
  shows "\<exists>msg. fst (reconcileClusterAndRoleBindings s u ls x) = Inl (Error500InternalServerError msg)"
  by (rule overtaken_create [OF assms])

definition ann_again :: "nat \<Rightarrow> mem \<Rightarrow> mem" where
  "ann_again n = (if n = 2 then served example_auth (ClusterRoleBindingRequest
     (CreateBinding () (crb_object example_svc ''ann'' (''devs'', ''view'')))) else (\<lambda>w. w))"

lemma simultaneous_logins_fail_witness:
  "\<exists>msg. fst (reconcileClusterAndRoleBindings (shared_auth ann_again example_auth) ''ann'' [devs] (empty_world, [])) =
    Inl (Error500InternalServerError msg)"
proof (rule simultaneous_logins_fail [of example_svc mem_V _ ann_again])
  show "GetClusterRoleBindings (shared_svc ann_again example_svc) ''ann'' (empty_world, []) =
      (Inr [], empty_world, [ClusterRoleBindingRequest (ListBindings () (saManagedLabel @ ''=true''))])"
    by (simp add: GetClusterRoleBindings_def GetRoleBindings_def observed_def mem_K_def mem_client_def mem_list_def
        ann_again_def empty_world_def saManagedLabel_def map_filter_simps)
  show "GetRoleBindings (shared_svc ann_again example_svc) ''ann''
        (empty_world, [ClusterRoleBindingRequest (ListBindings () (saManagedLabel @ ''=true''))]) =
      (Inr [], empty_world, [ClusterRoleBindingRequest (ListBindings () (saManagedLabel @ ''=true'')),
         RoleBindingRequest (ListBindings '''' (saManagedLabel @ ''=true''))])"
    by (simp add: GetClusterRoleBindings_def GetRoleBindings_def observed_def mem_K_def mem_client_def mem_list_def
        ann_again_def empty_world_def saManagedLabel_def map_filter_simps)
  show "all_items [devs] = [] @ (devs, view_item) # [(devs, edit_item ''dev'')]"
    by (simp add: all_items_def devs_def new_lgb_def)
  let ?w2 = "(empty_world, [ClusterRoleBindingRequest (ListBindings () (saManagedLabel @ ''=true'')),
      RoleBindingRequest (ListBindings '''' (saManagedLabel @ ''=true''))])"
  show "for_each (\<lambda>(l, i). ensureBinding (shared_auth ann_again example_auth) ''ann'' l i) []
      (from_pairs rb_Name [], from_pairs rb_Name [], ?w2) = (Inr (), from_pairs rb_Name [], from_pairs rb_Name [], ?w2)"
    by simp
  have "v_CRB mem_V (ann_again (length (snd ?w2)) (fst ?w2)) ((), GenBindingName ''ann'' (item_Name view_item) (lgb_Name devs)) \<noteq> None"
    by (simp add: devs_def new_lgb_def view_item_def ann_again_def mem_K_def mem_V_def mem_client_def
        crb_object_def empty_world_def mem_look_def)
  then show "item_Kind view_item = ''ClusterRole'' \<and> GenBindingName ''ann'' (item_Name view_item) (lgb_Name devs) \<notin> rb_Name ` set [] \<and>
        v_CRB mem_V (ann_again (length (snd ?w2)) (fst ?w2))
          ((), GenBindingName ''ann'' (item_Name view_item) (lgb_Name devs)) \<noteq> None \<or>
      item_Kind view_item = ''Role'' \<and> item_Namespace view_item \<noteq> '''' \<and>
        GenBindingName ''ann'' (item_Name view_item) (lgb_Name devs) \<notin> rb_Name ` set [] \<and>
        v_RB mem_V (ann_again (length (snd ?w2)) (fst ?w2))
          (item_Namespace view_item, GenBindingName ''ann'' (item_Name view_item) (lgb_Name devs)) \<noteq> None"
    by (simp add: view_item_def)
qed (simp_all add: example_hyps)

end
