(* ===== verification/ServiceProperties.thy ===== *)
theory ServiceProperties
  imports Examples
begin

text \<open>
  Properties of the services on their own: listing and naming bindings, service accounts, the
  directory, and the configuration.
\<close>

section \<open>Bindings and service accounts\<close>

text \<open>C28. Listing returns exactly the bindings managed for the user: those with the managed label
  and with the user's service account of the service's namespace among their subjects; the
  RoleBindings of all namespaces are covered.\<close>

theorem listing_is_exact:
  assumes "kube_api (svc_clientset svc) V"
    and "GetClusterRoleBindings svc u w = (Inr cbs, w1)" and "GetRoleBindings svc u w1 = (Inr rbs, w2)"
  shows "set cbs = {b. managed_for svc u b \<and> (\<exists>k. v_CRB V w k = Some b)} \<and>
    set rbs = {b. managed_for svc u b \<and> (\<exists>k. v_RB V w k = Some b)} \<and>
    distinct (map rb_Name cbs) \<and> distinct (map (\<lambda>b. (rb_Namespace b, rb_Name b)) rbs)"
proof -
  have "v_RB V w1 = v_RB V w"
    using keeps_eq [OF crb_calls_keep(1) [OF kube_apiD(4) [OF assms(1)]] assms(2)] .
  then show ?thesis
    using GetClusterRoleBindings_spec [OF assms(1,2)] GetRoleBindings_spec [OF assms(1,3)] by simp
qed

lemma listing_is_exact_witness:
  "set [stamp (\<lambda>_. '''') ((), ''kerbernetes:ann:devs:view'') (crb_object example_svc ''ann'' (''devs'', ''view''))] =
     {b. managed_for example_svc ''ann'' b \<and> (\<exists>k. v_CRB mem_V (granted_world []) k = Some b)}"
proof -
  let ?w = "snd (GetClusterRoleBindings example_svc ''ann'' (granted_world []))"
  have "fst (GetClusterRoleBindings example_svc ''ann'' (granted_world [])) =
      Inr [stamp (\<lambda>_. '''') ((), ''kerbernetes:ann:devs:view'') (crb_object example_svc ''ann'' (''devs'', ''view''))]"
    by code_simp
  then have c: "GetClusterRoleBindings example_svc ''ann'' (granted_world []) =
      (Inr [stamp (\<lambda>_. '''') ((), ''kerbernetes:ann:devs:view'') (crb_object example_svc ''ann'' (''devs'', ''view''))], ?w)"
    by (simp add: prod_eq_iff)
  have "fst (GetRoleBindings example_svc ''ann'' ?w) = Inr []" by code_simp
  then have r: "GetRoleBindings example_svc ''ann'' ?w = (Inr [], snd (GetRoleBindings example_svc ''ann'' ?w))"
    by (simp add: prod_eq_iff)
  from listing_is_exact [OF _ c r, of mem_V] show ?thesis by (simp add: example_hyps)
qed

lemma UpsertServiceAccount_frame:
  assumes api: "kube_api (svc_clientset svc) V" and k: "k \<noteq> (svc_namespace svc, u)"
  shows "keeps (\<lambda>w. v_SA V w k) (UpsertServiceAccount svc u)"
proof -
  note sa = sa_apiD [OF kube_apiD(3) [OF api]]
  have "keeps (\<lambda>w. v_SA V w k) (sc_Get (cs_ServiceAccounts (svc_clientset svc)) (svc_namespace svc) u)"
    using sa(2) by (simp add: keeps_def)
  moreover have "keeps (\<lambda>w. v_SA V w k) (createServiceAccount svc u)"
    using sa(6) [of k "svc_namespace svc"] k by (simp add: single_call_eqs)
  ultimately show ?thesis unfolding UpsertServiceAccount_def by (intro keeps_rules)
qed

text \<open>C29. Upserting gives the service account of that name in the service's namespace: the existing
  one as it is, whoever made it, or a new one; no other service account changes.\<close>

theorem upsert_keeps_or_creates:
  assumes "kube_api (svc_clientset svc) V" and "UpsertServiceAccount svc u w = (Inr sa, w')"
  shows "sa_Name sa = u \<and> v_SA V w' = (v_SA V w)((svc_namespace svc, u) \<mapsto> sa) \<and>
    (\<forall>a. v_SA V w (svc_namespace svc, u) = Some a \<longrightarrow> sa = a)"
proof -
  note sa = sa_apiD [OF kube_apiD(3) [OF assms(1)]]
  note name = UpsertServiceAccount_name [OF assms]
  have "v_SA V w' k = ((v_SA V w)((svc_namespace svc, u) \<mapsto> sa)) k" for k
    using keeps_eq [OF UpsertServiceAccount_frame [OF assms(1)] assms(2)] name(2)
    by (cases "k = (svc_namespace svc, u)") simp_all
  moreover have "sa = a" if a: "v_SA V w (svc_namespace svc, u) = Some a" for a
  proof -
    obtain g v where g: "sc_Get (cs_ServiceAccounts (svc_clientset svc)) (svc_namespace svc) u w = (g, v)"
      by fastforce
    obtain x where "g = Inr x"
      using assms(2) g a sa(5) [of "svc_namespace svc" u w]
      by (cases g) (auto simp: UpsertServiceAccount_def split: if_splits)
    then show ?thesis
      using assms(2) g a sa(4) [of "svc_namespace svc" u w] by (simp add: UpsertServiceAccount_def)
  qed
  ultimately show ?thesis using name(1) by (simp add: fun_eq_iff)
qed

lemma upsert_keeps_or_creates_witness:
  "v_SA mem_V (snd (UpsertServiceAccount example_svc ''ann'' empty_world)) (''kerbernetes'', ''ann'') \<noteq> None \<and>
   v_SA mem_V empty_world (''kerbernetes'', ''ann'') = None"
proof -
  have run: "UpsertServiceAccount example_svc ''ann'' empty_world =
      (Inr \<lparr>sa_ObjectMeta = \<lparr>om_Name = ''ann'', om_Namespace = ''kerbernetes'', om_Labels = []\<rparr>\<rparr>,
       snd (UpsertServiceAccount example_svc ''ann'' empty_world))"
  proof -
    have "fst (UpsertServiceAccount example_svc ''ann'' empty_world) =
        Inr \<lparr>sa_ObjectMeta = \<lparr>om_Name = ''ann'', om_Namespace = ''kerbernetes'', om_Labels = []\<rparr>\<rparr>" by code_simp
    then show ?thesis by (simp add: prod_eq_iff)
  qed
  have "v_SA mem_V empty_world (''kerbernetes'', ''ann'') = None"
    by (simp add: mem_V_def mem_look_sa_def empty_world_def)
  then show ?thesis using upsert_keeps_or_creates [OF _ run, of mem_V] by (simp add: example_hyps)
qed

text \<open>Reading a binding name back: after the prefix come the user and the LdapGroupBinding, which
  have no colon, and the role, which may have some.\<close>

definition split_colon :: "string \<Rightarrow> string \<times> string" where
  "split_colon s = (takeWhile (\<lambda>c. c \<noteq> CHR '':'') s, tl (dropWhile (\<lambda>c. c \<noteq> CHR '':'') s))"

definition read_binding_name :: "string \<Rightarrow> string \<times> string \<times> string" where
  "read_binding_name name =
     (let (u, rest) = split_colon (snd (split_colon name)); (l, r) = split_colon rest in (u, r, l))"

lemma split_colon_append: "CHR '':'' \<notin> set a \<Longrightarrow> split_colon (a @ CHR '':'' # b) = (a, b)"
  by (induction a) (auto simp: split_colon_def)

text \<open>C30. A binding name tells the user, the role and the LdapGroupBinding it was made for, when the
  user name and the name of the LdapGroupBinding have no colon; so distinct grants never share
  a name.\<close>

theorem binding_name_reads_back:
  assumes "CHR '':'' \<notin> set u" and "CHR '':'' \<notin> set l"
  shows "read_binding_name (GenBindingName u r l) = (u, r, l)"
proof -
  have "split_colon (GenBindingName u r l) = (''kerbernetes'', u @ CHR '':'' # l @ CHR '':'' # r)"
    using split_colon_append [of "''kerbernetes''"] by (simp add: GenBindingName_def)
  then show ?thesis using split_colon_append assms by (simp add: read_binding_name_def)
qed

lemma binding_name_reads_back_witness:
  "read_binding_name ''kerbernetes:ann:devs:system:view'' = (''ann'', ''system:view'', ''devs'')"
  using binding_name_reads_back [of "''ann''" "''devs''" "''system:view''"] by (simp add: GenBindingName_def)

section \<open>The directory\<close>

text \<open>
  \<open>counts n L\<close>: \<open>n\<close> is the number of open connections, which a successful dial raises by one
  and a close lowers by one; nothing else changes it.
\<close>

definition counts :: "('w \<Rightarrow> nat) \<Rightarrow> 'w ldap_lib \<Rightarrow> bool" where
  "counts n L \<longleftrightarrow>
     (\<forall>url w. n (snd (ll_DialURL L url w)) = (case fst (ll_DialURL L url w) of Inl e \<Rightarrow> n w | Inr c \<Rightarrow> Suc (n w))) \<and>
     (\<forall>c w. n (snd (ll_Close L c w)) = n w - 1) \<and>
     (\<forall>c dn pw. keeps n (ll_Bind L c dn pw)) \<and> (\<forall>c r. keeps n (ll_Search L c r))"

lemma withConnection_closes:
  assumes "counts n (ls_lib s)" and "\<And>c. keeps n (fn c)"
  shows "n (snd (withConnection s fn w)) = n w"
proof -
  obtain d w1 where d: "ll_DialURL (ls_lib s) (env_LDAPURL (ls_env s)) w = (d, w1)" by fastforce
  show ?thesis
  proof (cases d)
    case (Inl e)
    then show ?thesis using d assms(1) [unfolded counts_def]
      by (metis (mono_tags, lifting) withConnection_def fst_conv old.prod.case old.sum.simps(5) snd_conv)
  next
    case (Inr c)
    have open1: "n w1 = Suc (n w)" using d Inr assms(1) [unfolded counts_def] by (metis fst_conv snd_conv old.sum.simps(6))
    obtain b w2 where b: "ll_Bind (ls_lib s) c (env_LDAPBindDN (ls_env s)) (env_LDAPBindPassword (ls_env s)) w1 = (b, w2)"
      by fastforce
    have "keeps n (ll_Bind (ls_lib s) c (env_LDAPBindDN (ls_env s)) (env_LDAPBindPassword (ls_env s)))"
      using assms(1) by (simp add: counts_def)
    then have "n w2 = n w1" using b by (rule keeps_eq)
    moreover have "n (snd (fn c w2)) = n w2" using keepsD [OF assms(2)] .
    ultimately show ?thesis
      using d Inr b open1 assms(1) by (cases b) (auto simp: withConnection_def counts_def split: prod.split)
  qed
qed

text \<open>C31. Every directory operation closes the connection it opened, on every path: afterwards as
  many connections are open as before.\<close>

theorem ldap_connections_closed:
  assumes "counts n (ls_lib s)"
  shows "n (snd (GetUser s u w)) = n w \<and> n (snd (GetUserGroups s dn w)) = n w"
proof -
  have search: "keeps n (ll_Search (ls_lib s) c r)" for c r using assms by (simp add: counts_def)
  have "n (snd (GetUser s u w)) = n w"
    unfolding GetUser_def by (rule withConnection_closes [OF assms]) (intro keeps_rules search)
  moreover have "n (snd (GetUserGroups s dn w)) = n w"
    unfolding GetUserGroups_def by (rule withConnection_closes [OF assms]) (intro keeps_rules search)
  ultimately show ?thesis ..
qed

lemma ldap_connections_closed_witness:
  "mem_conns (snd (GetUser (as_ldapSvc example_auth) ''eve'' empty_world)) = 0"
proof -
  have "counts mem_conns (ls_lib (as_ldapSvc example_auth))"
    by (simp add: counts_def example_auth_def New_Auth_def New_Ldap_def mem_ldap_def keeps_def)
  from ldap_connections_closed [OF this, of "''eve''" empty_world "''''"] show ?thesis
    by (simp add: empty_world_def)
qed

text \<open>A user is found exactly when the search for it gives one entry; the groups of a user are
  the names of the entries of the group search, in their order.\<close>

theorem directory_answers:
  assumes "ll_DialURL (ls_lib s) (env_LDAPURL (ls_env s)) w = (Inr c, w1)"
    and "ll_Bind (ls_lib s) c (env_LDAPBindDN (ls_env s)) (env_LDAPBindPassword (ls_env s)) w1 = (Inr x, w2)"
    and "fst (ll_Search (ls_lib s) c (searchRequest (env_LDAPUserBaseDN (ls_env s))
      (Sprintf1 (ls_Sprintf_other s) (env_LDAPUserFilter (ls_env s)) u)) w2) = Inr users"
    and "fst (ll_Search (ls_lib s) c (searchRequest (env_LDAPGroupBaseDN (ls_env s))
      (Sprintf1 (ls_Sprintf_other s) (env_LDAPGroupFilter (ls_env s)) dn)) w2) = Inr groups"
  shows "(fst (GetUser s u w) = Inr e \<longleftrightarrow> users = [e]) \<and>
    fst (GetUserGroups s dn w) = Inr (map entry_DN groups)"
proof -
  have "fold (\<lambda>entry gs. gs @ [entry_DN entry]) xs acc = acc @ map entry_DN xs"
    for xs :: "Entry list" and acc
    by (induction xs arbitrary: acc) simp_all
  moreover have "users = [] \<or> (\<exists>a. users = [a]) \<or> length users > 1" by (cases users rule: list.exhaust) auto
  ultimately show ?thesis
    using assms
    by (auto simp: GetUser_def GetUserGroups_def withConnection_def split: prod.splits if_splits)
qed

lemma directory_answers_witness:
  "fst (GetUser (as_ldapSvc example_auth) ''ann'' empty_world) = Inr \<lparr>entry_DN = ''uid=ann''\<rparr> \<and>
   fst (GetUserGroups (as_ldapSvc example_auth) ''uid=ann'' empty_world) = Inr [''cn=devs'']"
proof -
  have s: "ls_lib (as_ldapSvc example_auth) = mem_ldap example_directory"
    "ls_env (as_ldapSvc example_auth) = example_env"
    by (simp_all add: example_auth_def New_Auth_def New_Ldap_def)
  have f: "Sprintf1 o' ''(uid=%s)'' ''ann'' = ''(uid=ann)''" "Sprintf1 o' ''(member=%s)'' ''uid=ann'' = ''(member=uid=ann)''" for o'
    by (simp_all add: Sprintf1_def)
  have "(fst (GetUser (as_ldapSvc example_auth) ''ann'' empty_world) = Inr \<lparr>entry_DN = ''uid=ann''\<rparr> \<longleftrightarrow>
      [\<lparr>entry_DN = ''uid=ann''\<rparr>] = [\<lparr>entry_DN = ''uid=ann''\<rparr>]) \<and>
    fst (GetUserGroups (as_ldapSvc example_auth) ''uid=ann'' empty_world) = Inr (map entry_DN [\<lparr>entry_DN = ''cn=devs''\<rparr>])"
    by (rule directory_answers [where c = 0])
       (simp_all add: s f mem_ldap_def empty_world_def example_env_def searchRequest_def example_directory_def)
  then show ?thesis by simp
qed

section \<open>The configuration\<close>

lemma balance_append:
  "count_list (xs @ ys) c = count_list xs c + count_list ys c"
  by (induction xs) simp_all

text \<open>C32. Where the two filters are left to their defaults, the user name and the user's DN go into
  the searches as they are, without escaping; and the group search is not a valid filter: it
  has one opening parenthesis more than closing ones for every DN that has as many of both.\<close>

theorem default_filters:
  assumes "env_libs_ok L" and "New_Env L = Inr env"
    and "el_Unmarshal L (automaticBindEnv mapstructure_tags) zero_Env = Inr e0"
    and "env_LDAPUserFilter e0 = ''''" and "env_LDAPGroupFilter e0 = ''''"
  shows "Sprintf1 other (env_LDAPUserFilter env) u = ''(uid='' @ u @ '')'' \<and>
    Sprintf1 other (env_LDAPGroupFilter env) dn = ''((member='' @ dn @ '')'' \<and>
    (count_list dn CHR ''('' = count_list dn CHR '')'' \<longrightarrow>
       count_list (Sprintf1 other (env_LDAPGroupFilter env) dn) CHR ''('' =
         Suc (count_list (Sprintf1 other (env_LDAPGroupFilter env) dn) CHR '')''))"
proof -
  have "env = SetDefaults L e0" using assms(2,3) by (auto simp: New_Env_def Let_def split: if_splits)
  then have "env_LDAPUserFilter env = ''(uid=%s)''" "env_LDAPGroupFilter env = ''((member=%s)''"
    using assms(1,4,5) by (simp_all add: SetDefaults_def env_libs_ok_def)
  then have f: "Sprintf1 other (env_LDAPUserFilter env) u = ''(uid='' @ u @ '')''"
    "Sprintf1 other (env_LDAPGroupFilter env) dn = ''((member='' @ dn @ '')''"
    by (simp_all add: Sprintf1_def)
  then show ?thesis by (simp add: balance_append)
qed

definition example_env_libs :: env_libs where
  "example_env_libs =
     \<lparr>el_Unmarshal = (\<lambda>keys z. Inr z), el_default_string = (\<lambda>d v. if v = '''' then d else v),
      el_default_int = (\<lambda>d v. if v \<noteq> 0 then v else if d = ''3000'' then 3000 else 600),
      el_default_bool = (\<lambda>d v. v), el_required_string = (\<lambda>v. v \<noteq> ''''), el_required_int = (\<lambda>v. v \<noteq> 0)\<rparr>"

lemma example_env_libs_ok: "env_libs_ok example_env_libs"
  by (simp add: env_libs_ok_def example_env_libs_def)

lemma default_filters_witness:
  "Sprintf1 (\<lambda>f a. f) (env_LDAPUserFilter (SetDefaults example_env_libs zero_Env)) ''*'' = ''(uid=*)''"
proof -
  have "New_Env example_env_libs = Inr (SetDefaults example_env_libs zero_Env)"
    using validate_SetDefaults [OF example_env_libs_ok] by (simp add: New_Env_def example_env_libs_def Let_def)
  from default_filters [OF example_env_libs_ok this, of zero_Env "\<lambda>f a. f" "''*''" "''''"] show ?thesis
    by (simp add: example_env_libs_def zero_Env_def)
qed

text \<open>C33. Every configuration that can be read is accepted, with all required settings present:
  the defaults fill exactly what was left empty and keep everything else, so the validation
  after them never fails.\<close>

theorem configuration_always_valid:
  assumes "env_libs_ok L" and "el_Unmarshal L (automaticBindEnv mapstructure_tags) zero_Env = Inr e0"
  shows "\<exists>env. New_Env L = Inr env \<and> validate_Struct L env \<and>
    env_HTTPPort env = (if env_HTTPPort e0 = 0 then 3000 else env_HTTPPort e0) \<and>
    env_APIPrefix env = (if env_APIPrefix e0 = '''' then ''/api'' else env_APIPrefix e0) \<and>
    env_KeytabPath env = (if env_KeytabPath e0 = '''' then ''/etc/krb5.keytab'' else env_KeytabPath e0) \<and>
    env_Namespace env = (if env_Namespace e0 = '''' then ''default'' else env_Namespace e0) \<and>
    env_TokenDuration env = (if env_TokenDuration e0 = 0 then 600 else env_TokenDuration e0) \<and>
    env_TokenAudience env =
      (if env_TokenAudience e0 = '''' then ''https://kubernetes.default.svc.cluster.local'' else env_TokenAudience e0) \<and>
    env_LDAPEnabled env = env_LDAPEnabled e0 \<and> env_LDAPURL env = env_LDAPURL e0 \<and>
    env_LDAPBindDN env = env_LDAPBindDN e0 \<and> env_LDAPBindPassword env = env_LDAPBindPassword e0 \<and>
    env_LDAPUserBaseDN env = (if env_LDAPUserBaseDN e0 = '''' then ''ou=users'' else env_LDAPUserBaseDN e0) \<and>
    env_LDAPUserFilter env = (if env_LDAPUserFilter e0 = '''' then ''(uid=%s)'' else env_LDAPUserFilter e0) \<and>
    env_LDAPGroupBaseDN env = (if env_LDAPGroupBaseDN e0 = '''' then ''ou=groups'' else env_LDAPGroupBaseDN e0) \<and>
    env_LDAPGroupFilter env = (if env_LDAPGroupFilter e0 = '''' then ''((member=%s)'' else env_LDAPGroupFilter e0)"
proof -
  have "New_Env L = Inr (SetDefaults L e0)"
    using assms(2) validate_SetDefaults [OF assms(1)] by (simp add: New_Env_def Let_def)
  then show ?thesis
    using validate_SetDefaults [OF assms(1)] assms(1) by (simp add: SetDefaults_def env_libs_ok_def)
qed

lemma configuration_always_valid_witness:
  "\<exists>env. New_Env example_env_libs = Inr env \<and> env_HTTPPort env = 3000"
  using configuration_always_valid [OF example_env_libs_ok, of zero_Env]
  by (auto simp: example_env_libs_def zero_Env_def)

end
