(* ===== verification/FactoryRuns.thy ===== *)
theory FactoryRuns
  imports InformerFactory
begin

text \<open>
  The informer factory over time: callers ask for informers, call \<open>Start\<close> any number of
  times, goroutines end, and somebody calls \<open>Shutdown\<close>, in any order.
\<close>

section \<open>The step relation\<close>

text \<open>\<open>fr_running\<close> are the informers whose goroutine is alive, \<open>fr_ever\<close> all that were ever run.\<close>

record factory_run =
  fr_factory :: sharedInformerFactory
  fr_heap :: informer_heap
  fr_running :: "addr list"
  fr_ever :: "addr list"

inductive factory_step :: "factory_run \<Rightarrow> factory_run \<Rightarrow> bool" where
  get: "InformerFor ty (\<lambda>c r. new_informer (obj c r)) (fr_factory s) (fr_heap s) = (i, f, h) \<Longrightarrow>
    factory_step s (s\<lparr>fr_factory := f, fr_heap := h\<rparr>)"
| start: "visits_each ord \<Longrightarrow> factory_Start ord (fr_factory s) = (f, run) \<Longrightarrow>
    factory_step s (s\<lparr>fr_factory := f, fr_running := fr_running s @ run, fr_ever := fr_ever s @ run\<rparr>)"
| finish: "i \<in> set (fr_running s) \<Longrightarrow>
    factory_step s (s\<lparr>fr_factory := Done (fr_factory s), fr_running := remove1 i (fr_running s)\<rparr>)"
| shutdown: "factory_step s (s\<lparr>fr_factory := Shutdown (fr_factory s)\<rparr>)"

inductive_cases factory_stepE: "factory_step s s'"

definition fresh_run :: "addr \<Rightarrow> duration \<Rightarrow> SharedInformerOption list \<Rightarrow> informer_heap \<Rightarrow> factory_run" where
  "fresh_run client resync options h =
     \<lparr>fr_factory = NewSharedInformerFactoryWithOptions client resync options, fr_heap = h,
      fr_running = [], fr_ever = []\<rparr>"

section \<open>The invariant\<close>

definition run_inv :: "factory_run \<Rightarrow> bool" where
  "run_inv s \<longleftrightarrow>
     distinct (map fst (fct_informers (fr_factory s))) \<and>
     distinct (map snd (fct_informers (fr_factory s))) \<and>
     (\<forall>(ty, i)\<in>set (fct_informers (fr_factory s)). i < ih_next (fr_heap s)) \<and>
     (\<forall>ty. is_started (fr_factory s) ty \<longrightarrow> ty \<in> fst ` set (fct_informers (fr_factory s))) \<and>
     distinct (fr_ever s) \<and>
     set (fr_ever s) = {i. \<exists>ty. (ty, i) \<in> set (fct_informers (fr_factory s)) \<and> is_started (fr_factory s) ty} \<and>
     distinct (fr_running s) \<and> set (fr_running s) \<subseteq> set (fr_ever s) \<and>
     fct_wg (fr_factory s) = length (fr_running s)"

lemma InformerFor_new:
  assumes "InformerFor ty (\<lambda>c r. new_informer (obj c r)) f h = (i, f', h')" and "ty \<notin> fst ` set (fct_informers f)"
  shows "i = ih_next h" "ih_next h' = Suc (ih_next h)"
    "f' = f\<lparr>fct_informers := AList.update ty i (fct_informers f)\<rparr>"
proof -
  have "map_of (fct_informers f) ty = None" using assms(2) by (simp add: map_of_eq_None_iff)
  then show "i = ih_next h" "ih_next h' = Suc (ih_next h)"
    "f' = f\<lparr>fct_informers := AList.update ty i (fct_informers f)\<rparr>"
    using assms(1) by (auto simp: InformerFor_def new_informer_def SetTransform_next Let_def)
qed

lemma InformerFor_old:
  assumes "InformerFor ty new f h = (i, f', h')" and "ty \<in> fst ` set (fct_informers f)"
  shows "f' = f \<and> h' = h"
proof -
  obtain j where "map_of (fct_informers f) ty = Some j"
    using assms(2) by (metis map_of_eq_None_iff not_None_eq)
  then show ?thesis using assms(1) by (simp add: InformerFor_def)
qed

lemma update_new_key: "k \<notin> fst ` set m \<Longrightarrow> AList.update k v m = m @ [(k, v)]"
  by (induction m) auto

lemma get_inv:
  assumes inv: "run_inv s"
    and get: "InformerFor ty (\<lambda>c r. new_informer (obj c r)) (fr_factory s) (fr_heap s) = (i, f, h)"
  shows "run_inv (s\<lparr>fr_factory := f, fr_heap := h\<rparr>)"
proof (cases "ty \<in> fst ` set (fct_informers (fr_factory s))")
  case True
  then show ?thesis using InformerFor_old [OF get] inv by (auto simp: run_inv_def)
next
  case False
  note new = InformerFor_new [OF get False]
  let ?m = "fct_informers (fr_factory s)"
  have m: "fct_informers f = ?m @ [(ty, i)]" using new False by (simp add: update_new_key)
  have started: "is_started f t = is_started (fr_factory s) t" for t using new by (simp add: is_started_def)
  have "i \<notin> snd ` set ?m" using inv new(1) by (auto simp: run_inv_def)
  moreover have "\<not> is_started (fr_factory s) ty" using inv False by (auto simp: run_inv_def)
  moreover have "fct_wg f = fct_wg (fr_factory s)" using new by simp
  ultimately show ?thesis
    using inv new(1,2) m False started by (auto simp: run_inv_def)
qed

lemma start_inv:
  assumes inv: "run_inv s" and ord: "visits_each ord" and st: "factory_Start ord (fr_factory s) = (f, run)"
  shows "run_inv (s\<lparr>fr_factory := f, fr_running := fr_running s @ run, fr_ever := fr_ever s @ run\<rparr>)"
proof (cases "fct_shuttingDown (fr_factory s)")
  case True
  then show ?thesis using st inv by (auto simp: factory_Start_def run_inv_def)
next
  case False
  let ?f = "fr_factory s"
  let ?es = "range_entries ord (fct_informers ?f)"
  have keys: "distinct (map fst (fct_informers ?f))" "distinct (map snd (fct_informers ?f))"
    using inv by (simp_all add: run_inv_def)
  have es: "distinct (map fst ?es)" "set ?es = set (fct_informers ?f)"
    using distinct_range_entries [OF ord keys(1)] range_entries_iff [OF ord keys(1)] keys(1) by auto
  have inj: "inj_on snd (set ?es)" using keys(2) es(2) by (simp add: distinct_map)
  have loop: "start_loop ?es ?f = (f, run)" using st False by (simp add: factory_Start_def)
  note spec = start_loop_spec [OF es(1) loop]
  have run: "set run = {i. \<exists>ty. (ty, i) \<in> set (fct_informers ?f) \<and> \<not> is_started ?f ty}"
    using spec(1) es(2) by force
  have ever: "set (fr_ever s) = {i. \<exists>ty. (ty, i) \<in> set (fct_informers ?f) \<and> is_started ?f ty}"
    using inv by (simp add: run_inv_def)
  have "distinct run"
    using spec(1) es(1) inj by (auto simp: distinct_map intro: inj_on_subset)
  moreover have "set run \<inter> set (fr_ever s) = {}"
  proof (rule equals0I)
    fix i
    assume "i \<in> set run \<inter> set (fr_ever s)"
    then obtain t u where "(t, i) \<in> set (fct_informers ?f)" "\<not> is_started ?f t"
      and "(u, i) \<in> set (fct_informers ?f)" "is_started ?f u"
      using run ever by auto
    moreover from this have "(t, i) = (u, i)" using inj es(2) by (metis inj_onD snd_conv)
    ultimately show False by simp
  qed
  moreover have "set (fr_ever s) \<union> set run =
      {i. \<exists>ty. (ty, i) \<in> set (fct_informers ?f) \<and> (is_started ?f ty \<or> ty \<in> fst ` set ?es)}"
    using run ever es(2) by force
  moreover have "is_started f ty \<longleftrightarrow> is_started ?f ty \<or> ty \<in> fst ` set ?es" for ty by (rule spec(2))
  moreover have sub: "set (fr_running s) \<subseteq> set (fr_ever s)"
    using inv unfolding run_inv_def by blast
  moreover from this have "set (fr_running s) \<inter> set run = {}"
    using \<open>set run \<inter> set (fr_ever s) = {}\<close> by blast
  ultimately show ?thesis
    using inv spec(3,4) es(2) unfolding run_inv_def
    by (simp add: Int_commute le_supI1 le_supI2) blast
qed

lemma factory_step_inv: "factory_step s s' \<Longrightarrow> run_inv s \<Longrightarrow> run_inv s'"
proof (induction rule: factory_step.induct)
  case (get ty obj s i f h)
  then show ?case by (simp add: get_inv)
next
  case (start ord s f run)
  then show ?case by (simp add: start_inv)
next
  case (finish i s)
  then show ?case
    by (auto simp: run_inv_def Done_def is_started_def length_remove1 dest: notin_set_remove1)
next
  case (shutdown s)
  then show ?case by (auto simp: run_inv_def Shutdown_def is_started_def)
qed

text \<open>The options of the factory set its configuration only.\<close>

definition config_option :: "SharedInformerOption \<Rightarrow> bool" where
  "config_option opt \<longleftrightarrow>
     (\<forall>f. fct_informers (opt f) = fct_informers f \<and>
        fct_startedInformers (opt f) = fct_startedInformers f \<and> fct_wg (opt f) = fct_wg f)"

lemma config_options:
  "config_option (WithCustomResyncConfig cfg)" "config_option (WithTweakListOptions tweak)"
  "config_option (WithNamespace ns)" "config_option (WithTransform t)"
proof -
  have "fct_informers (WithCustomResyncConfig cfg f) = fct_informers f \<and>
      fct_startedInformers (WithCustomResyncConfig cfg f) = fct_startedInformers f \<and>
      fct_wg (WithCustomResyncConfig cfg f) = fct_wg f" for f
    unfolding WithCustomResyncConfig_def by (induction cfg arbitrary: f) auto
  then show "config_option (WithCustomResyncConfig cfg)" by (simp add: config_option_def)
qed (simp_all add: config_option_def WithTweakListOptions_def WithNamespace_def WithTransform_def)

lemma config_options_fold:
  "\<forall>opt\<in>set options. config_option opt \<Longrightarrow> config_option (fold (\<lambda>opt factory. opt factory) options)"
  by (induction options) (auto simp: config_option_def)

lemma fresh_run_inv:
  assumes "\<forall>opt\<in>set options. config_option opt"
  shows "run_inv (fresh_run client resync options h)"
proof -
  let ?f = "NewSharedInformerFactoryWithOptions client resync options"
  have "fct_informers ?f = []" "fct_startedInformers ?f = []" "fct_wg ?f = 0"
    using config_options_fold [OF assms]
    by (simp_all add: config_option_def NewSharedInformerFactoryWithOptions_def)
  then show ?thesis by (simp add: run_inv_def fresh_run_def is_started_def)
qed

lemma factory_steps_inv: "factory_step\<^sup>*\<^sup>* s s' \<Longrightarrow> run_inv s \<Longrightarrow> run_inv s'"
  by (induction rule: rtranclp_induct) (auto intro: factory_step_inv)

section \<open>After Shutdown\<close>

lemma shut_down_step:
  "factory_step s s' \<Longrightarrow> fct_shuttingDown (fr_factory s) \<Longrightarrow>
     fct_shuttingDown (fr_factory s') \<and> fr_ever s' = fr_ever s"
proof (induction rule: factory_step.induct)
  case (get ty obj s i f h)
  then show ?case by (auto simp: InformerFor_def Let_def split: option.splits prod.splits)
next
  case (start ord s f run)
  then show ?case by (simp add: factory_Start_def)
next
  case (finish i s)
  then show ?case by (simp add: Done_def)
next
  case (shutdown s)
  then show ?case by (simp add: Shutdown_def)
qed

lemma shut_down_steps:
  "factory_step\<^sup>*\<^sup>* s s' \<Longrightarrow> fct_shuttingDown (fr_factory s) \<Longrightarrow>
     fct_shuttingDown (fr_factory s') \<and> fr_ever s' = fr_ever s"
  by (induction rule: rtranclp_induct) (auto dest: shut_down_step)

section \<open>A start runs what is there\<close>

lemma started_after_start:
  assumes "run_inv s" and "visits_each ord" and "\<not> fct_shuttingDown (fr_factory s)"
    and "factory_Start ord (fr_factory s) = (f, run)"
  shows "is_started f ty \<longleftrightarrow> ty \<in> fst ` set (fct_informers f)"
proof -
  let ?es = "range_entries ord (fct_informers (fr_factory s))"
  have keys: "distinct (map fst (fct_informers (fr_factory s)))" using assms(1) by (simp add: run_inv_def)
  have es: "distinct (map fst ?es)" "fst ` set ?es = fst ` set (fct_informers (fr_factory s))"
    using distinct_range_entries [OF assms(2) keys] range_entries_iff [OF assms(2) keys] keys by force+
  have "start_loop ?es (fr_factory s) = (f, run)" using assms(3,4) by (simp add: factory_Start_def)
  from start_loop_spec(2,4) [OF es(1) this] es(2) assms(1) show ?thesis by (auto simp: run_inv_def)
qed

end
