(* ===== verification/StartupProperties.thy ===== *)
theory StartupProperties
  imports ServiceProperties FactoryRuns
begin

text \<open>
  Properties of the informer factory, of the service that uses it, and of the process that is
  built from all the services.
\<close>

section \<open>The informer factory\<close>

text \<open>C37. Whatever callers do with a factory, no informer is ever run twice, the count of goroutines
  is the number of those alive, and \<open>Shutdown\<close> returns exactly when none is. After
  \<open>Shutdown\<close> no informer is run any more.\<close>

theorem informers_run_once:
  assumes "\<forall>opt\<in>set options. config_option opt" and "factory_step\<^sup>*\<^sup>* (fresh_run client resync options h) s"
  shows "distinct (fr_ever s) \<and> fct_wg (fr_factory s) = length (fr_running s) \<and>
    (Shutdown_returns (fr_factory s) \<longleftrightarrow> fct_shuttingDown (fr_factory s) \<and> fr_running s = []) \<and>
    (fct_shuttingDown (fr_factory s) \<longrightarrow> (\<forall>s'. factory_step\<^sup>*\<^sup>* s s' \<longrightarrow> fr_ever s' = fr_ever s))"
proof -
  have "run_inv s" using factory_steps_inv [OF assms(2) fresh_run_inv [OF assms(1)]] .
  then have once: "distinct (fr_ever s)" "fct_wg (fr_factory s) = length (fr_running s)"
    unfolding run_inv_def by blast+
  have quiet: "fr_ever s' = fr_ever s" if "fct_shuttingDown (fr_factory s)" "factory_step\<^sup>*\<^sup>* s s'" for s'
    using shut_down_steps [OF that(2,1)] by (rule conjunct2)
  have "Shutdown_returns (fr_factory s) \<longleftrightarrow> fct_shuttingDown (fr_factory s) \<and> fr_running s = []"
    using once(2) by (simp add: Shutdown_returns_def)
  with once quiet show ?thesis by blast
qed

definition one_informer :: "addr \<Rightarrow> duration \<Rightarrow> SharedIndexInformer" where
  "one_informer c r = \<lparr>inf_client = c, inf_List = id, inf_Watch = id, inf_type = ''T'', inf_resync = r,
     inf_indexers = [], inf_transform = None, inf_handlers = 0\<rparr>"

definition empty_heap :: informer_heap where
  "empty_heap = \<lparr>ih_next = 0, ih_objs = Map.empty\<rparr>"

lemma informers_run_once_witness:
  "\<exists>s. factory_step\<^sup>*\<^sup>* (fresh_run 7 0 [WithNamespace ''ns''] empty_heap) s \<and> fr_ever s = [0] \<and> fct_wg (fr_factory s) = 1"
proof -
  let ?s0 = "fresh_run 7 0 [WithNamespace ''ns''] empty_heap"
  obtain i f h where get: "InformerFor ''T'' (\<lambda>c r. new_informer (one_informer c r)) (fr_factory ?s0) (fr_heap ?s0) = (i, f, h)"
    by (metis prod_cases3)
  have i: "i = 0" and f: "fct_informers f = [(''T'', 0)]" "fct_startedInformers f = []" "fct_wg f = 0" "\<not> fct_shuttingDown f"
    using get by (auto simp: InformerFor_def new_informer_def fresh_run_def empty_heap_def WithNamespace_def
        NewSharedInformerFactoryWithOptions_def Let_def)
  obtain f1 run where start: "factory_Start (\<lambda>ks. ks) f = (f1, run)" by fastforce
  have run: "run = [0]"
    using start f by (auto simp: factory_Start_def range_entries_def map_filter_simps is_started_def Let_def)
  let ?s1 = "?s0\<lparr>fr_factory := f, fr_heap := h\<rparr>"
  let ?s2 = "?s1\<lparr>fr_factory := f1, fr_running := fr_running ?s1 @ run, fr_ever := fr_ever ?s1 @ run\<rparr>"
  have "factory_step ?s0 ?s1" by (rule factory_step.get [OF get])
  moreover have "factory_step ?s1 ?s2"
    by (rule factory_step.start [OF visits_each_id]) (use start in simp)
  ultimately have steps: "factory_step\<^sup>*\<^sup>* ?s0 ?s2" by (meson r_into_rtranclp rtranclp.rtrancl_into_rtrancl)
  have "fct_wg (fr_factory ?s2) = length (fr_running ?s2)"
    using informers_run_once [OF _ steps] config_options(3) by simp
  then show ?thesis using steps run by (intro exI [of _ ?s2]) (simp add: fresh_run_def)
qed

text \<open>\<open>Start\<close> runs exactly the informers that were asked for and not yet run; afterwards
  all of them have been run, and starting again runs nothing.\<close>

theorem start_runs_the_rest:
  assumes "\<forall>opt\<in>set options. config_option opt" and "factory_step\<^sup>*\<^sup>* (fresh_run client resync options h) s"
    and "visits_each ord" and "\<not> fct_shuttingDown (fr_factory s)"
    and "factory_Start ord (fr_factory s) = (f, run)"
  shows "distinct (fr_ever s @ run) \<and> set (fr_ever s @ run) = snd ` set (fct_informers f) \<and>
    (\<forall>ord'. visits_each ord' \<longrightarrow> snd (factory_Start ord' f) = [])"
proof -
  have inv: "run_inv s" using factory_steps_inv [OF assms(2) fresh_run_inv [OF assms(1)]] .
  have inv': "run_inv (s\<lparr>fr_factory := f, fr_running := fr_running s @ run, fr_ever := fr_ever s @ run\<rparr>)"
    using start_inv [OF inv assms(3,5)] .
  note all = started_after_start [OF inv assms(3-5)]
  have "set (fr_ever s @ run) = {i. \<exists>ty. (ty, i) \<in> set (fct_informers f) \<and> is_started f ty}"
    using inv' by (simp add: run_inv_def)
  also have "\<dots> = snd ` set (fct_informers f)" by (force simp: all)
  finally have "set (fr_ever s @ run) = snd ` set (fct_informers f)" .
  moreover have "snd (factory_Start ord' f) = []" if ord': "visits_each ord'" for ord'
  proof -
    obtain f2 run2 where again: "factory_Start ord' f = (f2, run2)" by fastforce
    have keys: "distinct (map fst (fct_informers f))" using inv' by (simp add: run_inv_def)
    let ?es = "range_entries ord' (fct_informers f)"
    have es: "distinct (map fst ?es)" using distinct_range_entries [OF ord' keys] .
    have "fst ` set ?es \<subseteq> fst ` set (fct_informers f)"
      using range_entries_iff [OF ord' keys] keys by force
    then have "\<forall>e\<in>set ?es. is_started f (fst e)" using all by blast
    then have "filter (\<lambda>(ty, i). \<not> is_started f ty) ?es = []" by (auto simp: filter_empty_conv)
    then show ?thesis
      using start_loop_spec(1) [OF es, of f f2 run2] again by (auto simp: factory_Start_def split: if_splits)
  qed
  ultimately show ?thesis using inv' by (simp add: run_inv_def)
qed

lemma start_runs_the_rest_witness:
  "snd (factory_Start (\<lambda>ks. ks) (fst (factory_Start (\<lambda>ks. ks) (fr_factory (fresh_run 7 0 [] empty_heap))))) = []"
  using start_runs_the_rest [of "[]" 7 0 empty_heap "fresh_run 7 0 [] empty_heap" "\<lambda>ks. ks"]
  by (simp add: visits_each_id fresh_run_def NewSharedInformerFactoryWithOptions_def factory_Start_def range_entries_def
      map_filter_simps)

section \<open>The service on its factory\<close>

lemma singleton_list: "distinct xs \<Longrightarrow> set xs = {x} \<Longrightarrow> xs = [x]"
proof (cases xs)
  case (Cons y ys)
  assume "distinct xs" "set xs = {x}"
  then show ?thesis using Cons by (cases ys) auto
qed simp

text \<open>The documented behaviour of registering handlers.\<close>

definition registers_handlers :: "(addr \<Rightarrow> informer_heap \<Rightarrow> (string + unit) \<times> informer_heap) \<Rightarrow> bool" where
  "registers_handlers AddEventHandler \<longleftrightarrow>
     (\<forall>a h h'. AddEventHandler a h = (Inr (), h') \<longrightarrow>
        ih_objs h' = (ih_objs h)(a := map_option (inf_handlers_update Suc) (ih_objs h a)))"

text \<open>What the constructor leaves: one informer, known to the factory and not yet run.\<close>

lemma New_LdapGroupBindings_run:
  assumes "New_LdapGroupBindings NewForConfig AddEventHandler c h = (Inr svc, h')"
  obtains cs h1 where "NewForConfig c = Inr cs"
    and "lgs_informerFactory svc = (NewSharedInformerFactory cs 0)\<lparr>fct_informers := [(''*v1.LdapGroupBinding'', ih_next h)]\<rparr>"
    and "AddEventHandler (ih_next h) h1 = (Inr (), h')"
    and "ih_objs h1 (ih_next h) = Some \<lparr>inf_client = cs, inf_List = tweaked None, inf_Watch = tweaked None,
        inf_type = ''*v1.LdapGroupBinding'', inf_resync = 0, inf_indexers = [''namespace''],
        inf_transform = None, inf_handlers = 0\<rparr>"
    and "\<not> lgs_stopped svc"
  using assms
  by (auto simp: New_LdapGroupBindings_def initial_service_def Let_def Informer_def InformerFor_def defaultInformer_def
      NewFilteredLdapGroupBindingInformer_def new_informer_def empty_slice_def SetTransform_def
      NewSharedInformerFactory_def NewSharedInformerFactoryWithOptions_def LdapGroupBindings_def V1_def
      RbacKerbernetes_def split: sum.splits prod.splits)

lemma started_service:
  assumes "New_LdapGroupBindings NewForConfig AddEventHandler c h = (Inr svc, h')" and "visits_each ord"
  shows "case Start ord synced ctxDone svc h'' of (outcome, svc', h2, run) \<Rightarrow>
     run = [ih_next h] \<and> h2 = h'' \<and>
     outcome = (if synced (ih_next h) \<and> ctxDone then Returned (Inr ()) else Blocked) \<and>
     (lgs_stopped svc' \<longleftrightarrow> outcome = Returned (Inr ()))"
proof -
  obtain cs where f: "lgs_informerFactory svc =
      (NewSharedInformerFactory cs 0)\<lparr>fct_informers := [(''*v1.LdapGroupBinding'', ih_next h)]\<rparr>"
    and "open": "\<not> lgs_stopped svc"
    using assms(1) by (rule New_LdapGroupBindings_run)
  have "distinct (ord [''*v1.LdapGroupBinding''])" "set (ord [''*v1.LdapGroupBinding'']) = {''*v1.LdapGroupBinding''}"
    using assms(2) by (simp_all add: visits_each_def)
  then have "ord [''*v1.LdapGroupBinding''] = [''*v1.LdapGroupBinding'']" by (rule singleton_list)
  then show ?thesis
    using f "open"
    by (simp add: Start_def factory_Start_def NewSharedInformerFactory_def NewSharedInformerFactoryWithOptions_def
        range_entries_def map_filter_simps is_started_def Informer_def InformerFor_def Let_def)
qed

text \<open>C35. The service runs the informer its handlers are registered with: a new service's \<open>Start\<close>
  runs exactly one informer, which watches the LdapGroupBindings of all the cluster through
  the service's client set, unfiltered, and has the handlers. \<open>Start\<close> never fails: it returns,
  with its channel closed, when the cache is synced and the context ends, and else blocks for
  ever; in particular it does when the cache is never synced, as nobody else closes the
  channel that the wait for the cache listens to.\<close>

theorem service_runs_its_informer:
  assumes "New_LdapGroupBindings NewForConfig AddEventHandler c h = (Inr svc, h')"
    and "registers_handlers AddEventHandler" and "visits_each ord"
  shows "\<exists>cs inf. NewForConfig c = Inr cs \<and> ih_objs h' (ih_next h) = Some inf \<and>
    inf_client inf = cs \<and> inf_type inf = ''*v1.LdapGroupBinding'' \<and> inf_List inf = (\<lambda>options. options) \<and>
    inf_Watch inf = (\<lambda>options. options) \<and> inf_handlers inf = 1 \<and>
    (case Start ord synced ctxDone svc h' of (outcome, svc', h'', run) \<Rightarrow>
       run = [ih_next h] \<and> h'' = h' \<and>
       outcome = (if synced (ih_next h) \<and> ctxDone then Returned (Inr ()) else Blocked) \<and>
       (lgs_stopped svc' \<longleftrightarrow> outcome = Returned (Inr ())))"
proof -
  obtain cs h1 where cs: "NewForConfig c = Inr cs" and add: "AddEventHandler (ih_next h) h1 = (Inr (), h')"
    and inf: "ih_objs h1 (ih_next h) = Some \<lparr>inf_client = cs, inf_List = tweaked None, inf_Watch = tweaked None,
        inf_type = ''*v1.LdapGroupBinding'', inf_resync = 0, inf_indexers = [''namespace''],
        inf_transform = None, inf_handlers = 0\<rparr>"
    using assms(1) by (rule New_LdapGroupBindings_run)
  have "tweaked None = (\<lambda>options. options)" by (simp add: tweaked_def fun_eq_iff)
  moreover have "ih_objs h' (ih_next h) = map_option (inf_handlers_update Suc) (ih_objs h1 (ih_next h))"
    using add assms(2) by (simp add: registers_handlers_def)
  ultimately show ?thesis using cs inf started_service [OF assms(1,3)] by simp
qed

definition count_handler :: "addr \<Rightarrow> informer_heap \<Rightarrow> (string + unit) \<times> informer_heap" where
  "count_handler a h =
     (Inr (), h\<lparr>ih_objs := (ih_objs h)(a := map_option (inf_handlers_update Suc) (ih_objs h a))\<rparr>)"

lemma count_handler_registers: "registers_handlers count_handler"
  by (auto simp: registers_handlers_def count_handler_def)

lemma service_runs_its_informer_witness:
  "\<exists>svc h'. New_LdapGroupBindings (\<lambda>_. Inr 7) count_handler () empty_heap = (Inr svc, h') \<and>
    snd (snd (snd (Start (\<lambda>ks. ks) (\<lambda>_. True) False svc h'))) = [0] \<and>
    fst (Start (\<lambda>ks. ks) (\<lambda>_. True) False svc h') = Blocked"
proof -
  have "isl (fst (New_LdapGroupBindings (\<lambda>_. Inr 7) count_handler () empty_heap)) = False"
    by (simp add: New_LdapGroupBindings_def count_handler_def case_prod_beta Let_def)
  then obtain svc h' where new: "New_LdapGroupBindings (\<lambda>_. Inr 7) count_handler () empty_heap = (Inr svc, h')"
    by (metis fst_conv isl_def not_Cons_self2 sum.exhaust surj_pair)
  from service_runs_its_informer [OF new count_handler_registers visits_each_id, of "\<lambda>_. True" False]
  show ?thesis using new by (auto simp: empty_heap_def split: prod.splits)
qed

section \<open>The process\<close>

lemma handled_login:
  assumes "Register L ctrl = Some operation" and "kr_Load L (env_KeytabPath (ac_env ctrl)) = Inr kt"
    and "kr_Authenticate L kt r w = (Some u, w1)" and "u \<noteq> ''''"
  shows "op_Handler operation ctx r w =
    (case AuthAccount (ac_authSvc ctrl) u w1 of
       (Inl err, w2) \<Rightarrow> (Handled (Inl err), w2)
     | (Inr creds, w2) \<Rightarrow> (Handled (Inr \<lparr>out_Body = creds\<rparr>), w2))"
  using assms
  by (auto elim!: Register_handler simp: getKerberosAuth_def GetPrincipal_extended split: prod.splits sum.splits)

lemma background_service:
  fixes L :: "('c, 'k, 'r, 'w) libs"
  assumes "apiBootstrap L h = Some (server, di)"
  obtains k :: "('c, 'w) k8sService" where "New_LdapGroupBindings (lib_NewForConfig L) (lib_AddEventHandler L) (GetRestConfig k) h =
    (Inr (sv_Background server), inj_heap di)"
  using assms by (rule apiBootstrap_run) (auto simp: made_def)

text \<open>C34. A process that comes up serves one operation, whose accepted requests are logins at the
  injector's own authentication service: built from the configuration that was read, the
  Kubernetes service made from it, the service accounts in that service's namespace and
  cluster, the directory of the configuration, and the one service of LdapGroupBindings that
  was made. This service is also the one that is started in the background, so logins read
  the cache that its informer fills; it is empty then. The server listens on the configured
  port and prefix.\<close>

theorem bootstrap_serves_logins:
  assumes "apiBootstrap L h = Some (server, di)"
  shows "\<exists>e k s operation g. New_Env (lib_env L) = Inr e \<and> New_K8s (lib_k8s L) e = Inr k \<and>
    inj_auth di = Some s \<and> wired s \<and> as_env s = e \<and>
    svc_clientset (as_serviceAccountsSvc s) = ks_clientset k \<and> svc_namespace (as_serviceAccountsSvc s) = ks_namespace k \<and>
    ls_env (as_ldapSvc s) = e \<and> ls_lib (as_ldapSvc s) = lib_ldap L \<and>
    as_ldapGroupBindingsSvc s = lib_cache L g \<and> cached g = [] \<and>
    New_LdapGroupBindings (lib_NewForConfig L) (lib_AddEventHandler L) (ks_restConfig k) h = (Inr g, inj_heap di) \<and>
    sv_Background server = g \<and> sv_Port server = env_HTTPPort e \<and> sv_Prefix server = env_APIPrefix e \<and>
    api_Operations (rt_API (sv_Router server)) = [operation] \<and>
    (\<forall>kt ctx r w u w1. kr_Load (lib_krb L) (env_KeytabPath e) = Inr kt \<longrightarrow>
       kr_Authenticate (lib_krb L) kt r w = (Some u, w1) \<longrightarrow> u \<noteq> '''' \<longrightarrow>
       op_Handler operation ctx r w =
         (case AuthAccount s u w1 of
            (Inl err, w2) \<Rightarrow> (Handled (Inl err), w2)
          | (Inr creds, w2) \<Rightarrow> (Handled (Inr \<lparr>out_Body = creds\<rparr>), w2)))"
proof -
  obtain s e g operation where made: "made L h di" "inj_auth di = Some s" "inj_env di = Some e"
      "inj_ldapgroupbindings di = Some g" "sv_Background server = g"
    and reg: "Register (lib_krb L) \<lparr>ac_authSvc = s, ac_env = e\<rparr> = Some operation"
    and server: "sv_Port server = env_HTTPPort e" "sv_Prefix server = env_APIPrefix e"
      "sv_Router server = \<lparr>rt_API = \<lparr>api_Config =
        WithServers (WithOverviewDoc (lib_DefaultConfig L ''Kerbernetes API'' ''dev'')) e,
        api_Operations = [operation]\<rparr>, rt_Get = [(''/docs'', notFoundHandler)]\<rparr>"
    using assms by (rule apiBootstrap_run)
  obtain k a l where parts: "inj_k8s di = Some k" "inj_serviceaccounts di = Some a" "inj_ldap di = Some l"
    and s: "s = New_Auth e k a (lib_cache L g) l (lib_crbOrder L) (lib_rbOrder L)"
    using made(1-4) by (auto simp: made_def)
  have "New_Env (lib_env L) = Inr e" "New_K8s (lib_k8s L) e = Inr k" "a = New_ServiceAccounts e k"
    "l = New_Ldap e (lib_ldap L) (lib_Sprintf_other L)"
    "New_LdapGroupBindings (lib_NewForConfig L) (lib_AddEventHandler L) (GetRestConfig k) h = (Inr g, inj_heap di)"
    using made(1,3,4) parts by (auto simp: made_def)
  moreover from this(5) have "cached g = []" by (rule New_LdapGroupBindings_cache)
  moreover have "op_Handler operation ctx r w =
      (case AuthAccount s u w1 of
         (Inl err, w2) \<Rightarrow> (Handled (Inl err), w2)
       | (Inr creds, w2) \<Rightarrow> (Handled (Inr \<lparr>out_Body = creds\<rparr>), w2))"
    if "kr_Load (lib_krb L) (env_KeytabPath e) = Inr kt" "kr_Authenticate (lib_krb L) kt r w = (Some u, w1)" "u \<noteq> ''''"
    for kt ctx r w u w1
    using handled_login [OF reg _ that(2,3)] that(1) by simp
  ultimately show ?thesis
    using made(2,5) server s
    by (intro exI [of _ e] exI [of _ k] exI [of _ s] exI [of _ operation] exI [of _ g])
       (simp add: wired_def New_Auth_def New_ServiceAccounts_def New_Ldap_def GetClientset_def GetNamespace_def
         GetRestConfig_def)
qed

definition example_libs :: "(unit, unit, unit, mem) libs" where
  "example_libs =
     \<lparr>lib_env = example_env_libs,
      lib_k8s = \<lparr>kl_ReadFile = (\<lambda>_. Inl (K8sError ''no such file'')), kl_InClusterConfig = Inr (),
        kl_ClientConfig = Inr (), kl_NewForConfig = (\<lambda>_. Inr mem_K)\<rparr>,
      lib_NewForConfig = (\<lambda>_. Inr 7), lib_AddEventHandler = count_handler, lib_cache = (\<lambda>g. mem_cache),
      lib_ldap = mem_ldap example_directory, lib_Sprintf_other = (\<lambda>f a. f), lib_krb = example_krb (Some ''ann''),
      lib_DefaultConfig = (\<lambda>t v. \<lparr>cfg_Title = t, cfg_Version = v, cfg_Contact = None, cfg_Servers = []\<rparr>),
      lib_crbOrder = (\<lambda>ks. ks), lib_rbOrder = (\<lambda>ks. ks)\<rparr>"

lemma example_boots: "\<exists>server di. apiBootstrap example_libs empty_heap = Some (server, di)"
proof -
  have "New_Env example_env_libs = Inr (SetDefaults example_env_libs zero_Env)"
    using validate_SetDefaults [OF example_env_libs_ok] by (simp add: New_Env_def example_env_libs_def Let_def)
  then show ?thesis
    by (simp add: apiBootstrap_def example_libs_def and_then_def MustInvoke_def invoke_env_def invoke_k8s_def
        invoke_serviceaccounts_def invoke_ldapgroupbindings_def invoke_ldap_def invoke_auth_def InitServices_def
        New_K8s_def getNamespace_def New_LdapGroupBindings_def count_handler_def apiMux_def ControllersInit_def
        controllersList_def Init_def Register_def SPNEGO_def example_krb_def Let_def case_prod_beta)
qed

lemma bootstrap_serves_logins_witness:
  "\<exists>server di s. apiBootstrap example_libs empty_heap = Some (server, di) \<and> inj_auth di = Some s \<and> wired s \<and>
    as_ldapGroupBindingsSvc s = lib_cache example_libs (sv_Background server)"
proof -
  obtain server di where run: "apiBootstrap example_libs empty_heap = Some (server, di)" using example_boots by blast
  from bootstrap_serves_logins [OF this] show ?thesis using run by blast
qed

text \<open>C36. The background goroutine of a process never ends by itself: with the context that never
  ends \<open>Start\<close> blocks for ever, whether the cache gets synced or not. So the branch that reports
  an error and exits the process is never taken, and a process whose cache cannot be filled
  goes on serving.\<close>

theorem background_never_returns:
  fixes L :: "('c, 'k, 'r, 'w) libs"
  assumes "apiBootstrap L h = Some (server, di)" and "visits_each ord"
  shows "fst (Start ord synced False (sv_Background server) (inj_heap di)) = Blocked \<and>
    \<not> background_exits ord synced (sv_Background server) (inj_heap di)"
proof -
  obtain k :: "('c, 'w) k8sService" where
    new: "New_LdapGroupBindings (lib_NewForConfig L) (lib_AddEventHandler L) (GetRestConfig k) h =
      (Inr (sv_Background server), inj_heap di)"
    using assms(1) by (rule background_service)
  obtain outcome svc' h'' run where st:
      "Start ord synced False (sv_Background server) (inj_heap di) = (outcome, svc', h'', run)"
    by (metis prod_cases4)
  have "outcome = Blocked"
    using started_service [OF new assms(2), where synced = synced and ctxDone = False and h'' = "inj_heap di"] st by simp
  then show ?thesis using st by (simp add: background_exits_def)
qed

lemma background_never_returns_witness:
  "\<exists>server di. apiBootstrap example_libs empty_heap = Some (server, di) \<and>
    fst (Start (\<lambda>ks. ks) (\<lambda>_. False) False (sv_Background server) (inj_heap di)) = Blocked"
proof -
  obtain server di where run: "apiBootstrap example_libs empty_heap = Some (server, di)" using example_boots by blast
  from background_never_returns [OF this visits_each_id, of "\<lambda>_. False"] show ?thesis using run by blast
qed

end
