(* ===== verification/CacheProperties.thy ===== *)
theory CacheProperties
  imports Informer FactoryRuns
begin

text \<open>The properties of the cache of LdapGroupBindings and of its event handlers.\<close>

definition tombstone_first :: "cluster \<Rightarrow> bool" where
  "tombstone_first c \<longleftrightarrow>
     (case cl_queue c of DeleteFunc (DeletedFinalStateUnknown key obj) # es \<Rightarrow> True | _ \<Rightarrow> False)"

lemma tombstone_first_iff:
  "tombstone_first c \<longleftrightarrow> (\<exists>key obj es. cl_queue c = DeleteFunc (DeletedFinalStateUnknown key obj) # es)"
  by (auto simp: tombstone_first_def split: list.splits event.splits informer_obj.splits)

lemma tombstone_panic_step:
  assumes "tombstone_first c" and "\<not> cl_panicked c"
  shows "informer_step extra c (c\<lparr>cl_panicked := True\<rparr>)"
proof -
  obtain key obj es where "cl_queue c = DeleteFunc (DeletedFinalStateUnknown key obj) # es"
    using assms(1) by (auto simp: tombstone_first_iff)
  then show ?thesis using assms(2) informer_step.panic [of c "DeleteFunc (DeletedFinalStateUnknown key obj)" es] by simp
qed

lemma tombstone_stuck_step:
  assumes "informer_step extra c c'" and "cl_listed c" and "tombstone_first c"
  shows "cl_listed c' \<and> tombstone_first c' \<and> cl_svc c' = cl_svc c"
  using assms by (elim informer_stepE) (auto simp: tombstone_first_iff notify_def)

lemma tombstone_stuck:
  assumes "(informer_step extra)\<^sup>*\<^sup>* c c'" and "cl_listed c" and "tombstone_first c"
  shows "cl_svc c' = cl_svc c"
proof -
  have "cl_listed c' \<and> tombstone_first c' \<and> cl_svc c' = cl_svc c"
    using assms by (induction rule: rtranclp_induct) (auto dest: tombstone_stuck_step)
  then show ?thesis by simp
qed

text \<open>C22. In every reachable state in which the informer has listed the objects and all
  notifications are delivered, the cache holds exactly the LdapGroupBindings of the cluster,
  each once.\<close>

theorem cache_mirrors_cluster:
  assumes "informer_reach extra bs c" and "cl_listed c" and "cl_queue c = []"
  shows "set (cached (cl_svc c)) = ran (cl_objects c) \<and> distinct (map lgb_Name (cached (cl_svc c)))"
  using synced_cache [OF reach_inv [OF assms(1)] assms(2,3)] by simp

definition sample_lgb :: "string \<Rightarrow> string \<Rightarrow> LdapGroupBinding" where
  "sample_lgb name dn =
     \<lparr>lgb_TypeMeta = \<lparr>tm_Kind = ''LdapGroupBinding'', tm_APIVersion = ''rbac.kerbernetes.io/v1''\<rparr>,
      lgb_ObjectMeta = \<lparr>om_Name = name, om_Namespace = '''', om_Labels = []\<rparr>,
      lgb_Spec = \<lparr>spec_LdapGroupDN = dn, spec_Bindings = []\<rparr>\<rparr>"

lemma cache_mirrors_cluster_witness:
  "set (cached (add (\<lambda>_. 0) (sample_lgb ''a'' ''cn=a'') (initial_service 0))) = {sample_lgb ''a'' ''cn=a''} \<and>
   distinct (map lgb_Name (cached (add (\<lambda>_. 0) (sample_lgb ''a'' ''cn=a'') (initial_service 0))))"
proof -
  let ?a = "sample_lgb ''a'' ''cn=a''"
  let ?c = "(fresh_cluster [?a])\<lparr>cl_listed := True, cl_queue := map (\<lambda>b. AddFunc (Obj b)) [?a]\<rparr>"
  have "informer_step (\<lambda>_. 0) (fresh_cluster [?a]) ?c"
  proof (rule informer_step.list)
    show "\<not> cl_listed (fresh_cluster [?a])" by (simp add: fresh_cluster_def)
    show "distinct (map lgb_Name [?a])" by simp
    show "by_name [?a] = cl_objects (fresh_cluster [?a])" by (simp add: fresh_cluster_def)
  qed
  then have "informer_reach (\<lambda>_. 0) [?a] ?c" using informer_reach.start informer_reach.step by blast
  moreover have "informer_step (\<lambda>_. 0) ?c (?c\<lparr>cl_queue := [], cl_svc := add (\<lambda>_. 0) ?a (cl_svc ?c)\<rparr>)"
    by (rule informer_step.deliver [where e = "AddFunc (Obj ?a)"]) (simp_all add: fresh_cluster_def)
  ultimately have "informer_reach (\<lambda>_. 0) [?a] (?c\<lparr>cl_queue := [], cl_svc := add (\<lambda>_. 0) ?a (cl_svc ?c)\<rparr>)"
    by (rule informer_reach.step)
  note mirrored = cache_mirrors_cluster [OF this]
  have "ran (by_name [?a]) = {?a}" by (simp add: by_name_def)
  moreover have "cl_svc ?c = initial_service 0" "cl_objects ?c = by_name [?a]" by (simp_all add: fresh_cluster_def)
  ultimately show ?thesis using mirrored by simp
qed

text \<open>C23. The cache can always catch up: from every reachable state of a listed informer whose handlers
  have not panicked and whose queue has no tombstone, delivering the notifications leads to
  a state with the same objects in the cluster and exactly these in the cache.\<close>

theorem cache_catches_up:
  assumes "informer_reach extra bs c" and "cl_listed c" and "\<not> cl_panicked c"
    and "list_all (\<lambda>e. \<not> tombstone e) (cl_queue c)"
  shows "\<exists>c'. (informer_step extra)\<^sup>*\<^sup>* c c' \<and> cl_objects c' = cl_objects c \<and> cl_queue c' = [] \<and>
    set (cached (cl_svc c')) = ran (cl_objects c)"
proof -
  have inv: "informer_inv c" using reach_inv [OF assms(1)] .
  then obtain m where "leads (cl_queue c) m (cl_objects c)" using assms(2) by (auto simp: informer_inv_def)
  then obtain svc where steps: "(informer_step extra)\<^sup>*\<^sup>* c (c\<lparr>cl_queue := [], cl_svc := svc\<rparr>)"
    using deliver_all assms(3,4) by metis
  have "set (cached svc) = ran (cl_objects c)"
    using synced_cache(1) [OF steps_inv [OF steps inv]] assms(2) by simp
  then show ?thesis using steps by (intro exI [of _ "c\<lparr>cl_queue := [], cl_svc := svc\<rparr>"]) simp
qed

lemma cache_catches_up_witness:
  "\<exists>c'. (informer_step (\<lambda>_. 0))\<^sup>*\<^sup>*
      ((fresh_cluster [sample_lgb ''a'' ''cn=a''])
         \<lparr>cl_listed := True, cl_queue := map (\<lambda>b. AddFunc (Obj b)) [sample_lgb ''a'' ''cn=a'']\<rparr>) c' \<and>
    set (cached (cl_svc c')) = {sample_lgb ''a'' ''cn=a''}"
proof -
  let ?a = "sample_lgb ''a'' ''cn=a''"
  let ?c = "(fresh_cluster [?a])\<lparr>cl_listed := True, cl_queue := map (\<lambda>b. AddFunc (Obj b)) [?a]\<rparr>"
  have "informer_step (\<lambda>_. 0) (fresh_cluster [?a]) ?c"
    by (rule informer_step.list) (simp_all add: fresh_cluster_def)
  then have reach: "informer_reach (\<lambda>_. 0) [?a] ?c" using informer_reach.start informer_reach.step by blast
  have "ran (cl_objects ?c) = {?a}" by (simp add: fresh_cluster_def by_name_def)
  moreover have "\<not> cl_panicked ?c" by (simp add: fresh_cluster_def)
  ultimately show ?thesis using cache_catches_up [OF reach] by auto
qed

text \<open>C24. A deletion the informer missed is notified with a tombstone, and the handler's
  unchecked type assertion panics on it: from the moment it heads the queue of a listed
  informer the cache never changes again, whatever else happens, and the panic is a possible
  next step.\<close>

theorem tombstone_panics:
  assumes "cl_listed c" and "tombstone_first c" and "\<not> cl_panicked c"
    and "(informer_step extra)\<^sup>*\<^sup>* c c'"
  shows "informer_step extra c (c\<lparr>cl_panicked := True\<rparr>) \<and> cl_svc c' = cl_svc c"
  using tombstone_panic_step [OF assms(2,3)] tombstone_stuck [OF assms(4,1,2)] by simp

lemma tombstone_panics_witness:
  "informer_step (\<lambda>_. 0)
     ((fresh_cluster [])\<lparr>cl_listed := True, cl_queue := [DeleteFunc (DeletedFinalStateUnknown ''a'' None)]\<rparr>)
     ((fresh_cluster [])\<lparr>cl_listed := True, cl_queue := [DeleteFunc (DeletedFinalStateUnknown ''a'' None)],
        cl_panicked := True\<rparr>) \<and>
   cl_svc (fresh_cluster []) = cl_svc (fresh_cluster [])"
  using tombstone_panics [of "(fresh_cluster [])\<lparr>cl_listed := True,
      cl_queue := [DeleteFunc (DeletedFinalStateUnknown ''a'' None)]\<rparr>" "\<lambda>_. 0" "(fresh_cluster [])\<lparr>cl_listed := True,
      cl_queue := [DeleteFunc (DeletedFinalStateUnknown ''a'' None)]\<rparr>"]
  by (simp add: fresh_cluster_def tombstone_first_def)

section \<open>The handlers and lists\<close>

text \<open>The reference: the handlers on a plain list of bindings.\<close>

fun list_event :: "event \<Rightarrow> LdapGroupBinding list \<Rightarrow> LdapGroupBinding list option" where
  "list_event (AddFunc (Obj b)) bs = Some (bs @ [b])"
| "list_event (UpdateFunc old (Obj b)) bs = Some (replace_named b bs)"
| "list_event (DeleteFunc (Obj b)) bs = Some (filter (\<lambda>c. lgb_Name c \<noteq> lgb_Name b) bs)"
| "list_event _ bs = None"

fun list_events :: "event list \<Rightarrow> LdapGroupBinding list \<Rightarrow> LdapGroupBinding list option" where
  "list_events [] bs = Some bs"
| "list_events (e # es) bs = Option.bind (list_event e bs) (list_events es)"

lemma initInformer_list:
  assumes "cache_ok svc"
  shows "map_option cached (initInformer extra e svc) = list_event e (cached svc)"
    and "initInformer extra e svc = Some svc' \<Longrightarrow> cache_ok svc'"
proof -
  have "map_option cached (initInformer extra e svc) = list_event e (cached svc) \<and>
      (initInformer extra e svc = Some svc' \<longrightarrow> cache_ok svc')"
  proof (cases e)
    case (AddFunc obj)
    then show ?thesis using assms by (cases obj) (auto simp: add_cached)
  next
    case (UpdateFunc old obj)
    then show ?thesis using assms by (cases obj) (auto simp: update_cached)
  next
    case (DeleteFunc obj)
    then show ?thesis using assms by (cases obj) (auto simp: delete_cached)
  qed
  then show "map_option cached (initInformer extra e svc) = list_event e (cached svc)"
    and "initInformer extra e svc = Some svc' \<Longrightarrow> cache_ok svc'" by simp_all
qed

lemma handle_events_list:
  "cache_ok svc \<Longrightarrow> map_option cached (handle_events extra es svc) = list_events es (cached svc)"
proof (induction es arbitrary: svc)
  case Nil
  then show ?case by simp
next
  case (Cons e es)
  note step = initInformer_list [OF Cons.prems]
  show ?case
  proof (cases "initInformer extra e svc")
    case None
    then have "list_event e (cached svc) = None" using step(1) by (metis map_option_is_None)
    then show ?thesis using None by simp
  next
    case (Some svc')
    then have "list_event e (cached svc) = Some (cached svc')" using step(1) by (metis option.map(2))
    then show ?thesis using Some Cons.IH [OF step(2) [OF Some]] by simp
  qed
qed

text \<open>C25. The slice handling of the cache, with its in-place updates and shared arrays, is the same
  as the plain list operations: for every sequence of notifications a fresh service holds what
  the list operations give, and panics exactly when they do.\<close>

theorem cache_equals_list:
  "map_option cached (handle_events extra es (initial_service cs)) = list_events es []"
  using handle_events_list [OF initial_cached(1), of extra es] by (simp add: initial_cached)

section \<open>What a reader holds\<close>

text \<open>\<open>reader st cache t\<close>: the slice \<open>t\<close> was read from a cache that is now \<open>cache\<close>.\<close>

definition reader :: "'a store \<Rightarrow> slice \<Rightarrow> slice \<Rightarrow> bool" where
  "reader st cache t \<longleftrightarrow>
     slice_ok st cache \<and> slice_ok st t \<and> (sl_arr t = sl_arr cache \<longrightarrow> sl_len t \<le> sl_len cache)"

lemma append_reader:
  assumes "reader st c t" and "slice_append extra st c x = (st', c')"
  shows "reader st' c' t" and "slice_elems st' t = slice_elems st t"
proof -
  have r: "slice_ok st c" "slice_ok st t" "sl_arr t = sl_arr c \<longrightarrow> sl_len t \<le> sl_len c"
    using assms(1) by (simp_all add: reader_def)
  show "slice_elems st' t = slice_elems st t"
    using slice_append_other(1) [OF r(2), of c extra x] r(3) assms(2) by simp
  have "slice_ok st' t" using slice_append_other(2) [OF r(2) _ r(1), of extra x] r(3) assms(2) by simp
  moreover have "slice_ok st' c'" using slice_append_ok [OF r(1), of extra x] assms(2) by simp
  moreover have "sl_arr t = sl_arr c' \<longrightarrow> sl_len t \<le> sl_len c'"
    using assms(2) r by (auto simp: slice_append_def slice_ok_def split: if_splits)
  ultimately show "reader st' c' t" by (simp add: reader_def)
qed

lemma delete_loop_reader:
  assumes "reader st out t" and "delete_loop extra n bs (st, out) = (st', out')"
  shows "reader st' out' t \<and> slice_elems st' t = slice_elems st t"
  using assms
proof (induction bs arbitrary: st out)
  case Nil
  then show ?case by simp
next
  case (Cons b bs)
  obtain st1 out1 where a: "slice_append extra st out b = (st1, out1)" by fastforce
  show ?case
    using Cons.IH [of st1 out1] Cons.IH [of st out] Cons.prems append_reader [OF Cons.prems(1) a] a
    by (auto split: if_splits)
qed

lemma handler_reader:
  assumes r: "reader (lgs_store svc) (lgs_cache svc) t" and e: "\<forall>old obj. e \<noteq> UpdateFunc old obj"
    and run: "initInformer extra e svc = Some svc'"
  shows "reader (lgs_store svc') (lgs_cache svc') t \<and>
    slice_elems (lgs_store svc') t = slice_elems (lgs_store svc) t"
proof (cases e)
  case (AddFunc obj)
  then obtain b where "svc' = add extra b svc" using run by (cases obj) auto
  moreover obtain st c where a: "slice_append extra (lgs_store svc) (lgs_cache svc) b = (st, c)" by fastforce
  ultimately show ?thesis using append_reader [OF r a] by (simp add: add_def)
next
  case (UpdateFunc old obj)
  then show ?thesis using e by blast
next
  case (DeleteFunc obj)
  then obtain b where b: "svc' = delete_binding extra b svc" using run by (cases obj) auto
  obtain st0 s0 where s0: "empty_slice (lgs_store svc) = (st0, s0)" by fastforce
  obtain st1 s1 where s1: "delete_loop extra (lgb_Name b)
      (slice_elems (lgs_store svc) (lgs_cache svc)) (st0, s0) = (st1, s1)" by fastforce
  have t: "slice_ok (lgs_store svc) t" using r by (simp add: reader_def)
  have "reader st0 s0 t" "slice_elems st0 t = slice_elems (lgs_store svc) t"
    using empty_slice_other [OF t] empty_slice_ok(1) [of "lgs_store svc"] s0 by (auto simp: reader_def)
  then show ?thesis using delete_loop_reader [of st0 s0 t extra] s0 s1 b by (simp add: delete_binding_def)
qed

text \<open>C26. A login works on a stable snapshot as long as no binding is modified: whatever is added to
  the cluster or deleted from it meanwhile, the slice it got from the cache shows the same
  bindings.\<close>

theorem snapshot_survives:
  assumes "cache_ok svc" and "\<forall>e\<in>set es. \<forall>old obj. e \<noteq> UpdateFunc old obj"
    and "handle_events extra es svc = Some svc'"
  shows "bindings_seen svc' (GetBindings svc) = bindings_seen svc (GetBindings svc)"
proof -
  have "slice_elems (lgs_store svc') t = slice_elems (lgs_store v) t"
    if "reader (lgs_store v) (lgs_cache v) t" "\<forall>e\<in>set es. \<forall>old obj. e \<noteq> UpdateFunc old obj"
      "handle_events extra es v = Some svc'" for v t
    using that
  proof (induction es arbitrary: v)
    case Nil
    then show ?case by simp
  next
    case (Cons e es)
    then obtain v1 where v1: "initInformer extra e v = Some v1" "handle_events extra es v1 = Some svc'"
      by (auto split: option.splits)
    show ?case
      using handler_reader [OF Cons.prems(1) _ v1(1)] Cons.IH [OF _ _ v1(2)] Cons.prems(2) by auto
  qed
  then show ?thesis
    using assms by (simp add: bindings_seen_def GetBindings_def reader_def cache_ok_def)
qed

lemma snapshot_survives_witness:
  "bindings_seen (the (handle_events (\<lambda>_. 4) [AddFunc (Obj (sample_lgb ''b'' ''cn=b'')), DeleteFunc (Obj (sample_lgb ''a'' ''cn=a''))]
      (add (\<lambda>_. 4) (sample_lgb ''a'' ''cn=a'') (initial_service 0))))
    (GetBindings (add (\<lambda>_. 4) (sample_lgb ''a'' ''cn=a'') (initial_service 0))) = [sample_lgb ''a'' ''cn=a'']"
proof -
  let ?v = "add (\<lambda>_. 4) (sample_lgb ''a'' ''cn=a'') (initial_service 0)"
  let ?es = "[AddFunc (Obj (sample_lgb ''b'' ''cn=b'')), DeleteFunc (Obj (sample_lgb ''a'' ''cn=a''))]"
  have "handle_events (\<lambda>_. 4) ?es ?v = Some (the (handle_events (\<lambda>_. 4) ?es ?v))" by simp
  moreover have "cache_ok ?v" "cached ?v = [sample_lgb ''a'' ''cn=a'']"
    using initial_cached [of 0] by (simp_all add: add_cached)
  ultimately show ?thesis
    using snapshot_survives [of ?v ?es "\<lambda>_. 4"] by (simp add: bindings_seen_def GetBindings_def cached_def)
qed

text \<open>C27. A modification is seen through a slice that was handed out before it: the cache returns its
  own array, and an update writes into it. A login that is iterating over it gets the new
  binding in place of the old one.\<close>

theorem update_seen_through_snapshot:
  assumes "lgb_Name b \<in> lgb_Name ` set (bindings_seen svc (GetBindings svc))"
  shows "bindings_seen (update extra b svc) (GetBindings svc) = replace_named b (bindings_seen svc (GetBindings svc))"
proof -
  obtain i where i: "find_cached (lgb_Name b) 0 (slice_elems (lgs_store svc) (lgs_cache svc)) = Some i"
    using assms find_cached_None [of "lgb_Name b" 0 "slice_elems (lgs_store svc) (lgs_cache svc)"]
    by (fastforce simp: bindings_seen_def GetBindings_def)
  then show ?thesis
    using find_cached_Some [OF i, of b]
    by (simp add: update_def bindings_seen_def GetBindings_def slice_set_elems)
qed

lemma update_seen_through_snapshot_witness:
  "bindings_seen (update (\<lambda>_. 0) (sample_lgb ''a'' ''cn=new'') (add (\<lambda>_. 0) (sample_lgb ''a'' ''cn=a'') (initial_service 0)))
    (GetBindings (add (\<lambda>_. 0) (sample_lgb ''a'' ''cn=a'') (initial_service 0))) = [sample_lgb ''a'' ''cn=new'']"
proof -
  let ?v = "add (\<lambda>_. 0) (sample_lgb ''a'' ''cn=a'') (initial_service 0)"
  have "cached ?v = [sample_lgb ''a'' ''cn=a'']" using initial_cached [of 0] by (simp add: add_cached)
  then have "bindings_seen ?v (GetBindings ?v) = [sample_lgb ''a'' ''cn=a'']"
    by (simp add: bindings_seen_def GetBindings_def cached_def)
  then show ?thesis
    using update_seen_through_snapshot [of "sample_lgb ''a'' ''cn=new''" ?v "\<lambda>_. 0"] by (simp add: sample_lgb_def)
qed

end
