(* ===== verification/EndToEnd.thy ===== *)
theory EndToEnd
  imports StartupProperties CacheProperties
begin

text \<open>
  The program as a whole: from the injector (\<open>cmd/api/main.go\<close>) over the informer that
  \<open>Start\<close> runs and the cache its handlers fill, to the roles in the cluster after a request that
  was answered with credentials. The parts meet in the world: the authentication service
  reads the cache that the informer has led to at the moment of the request.
\<close>

section \<open>What the LdapGroupBindings in the cluster ask for\<close>

definition cluster_roles_for :: "LdapGroupBinding set \<Rightarrow> string list \<Rightarrow> string set" where
  "cluster_roles_for objs groups =
     {item_Name i | l i. l \<in> objs \<and> spec_LdapGroupDN (lgb_Spec l) \<in> set groups \<and>
        i \<in> set (lgb_items l) \<and> item_Kind i = ''ClusterRole''}"

definition roles_for :: "LdapGroupBinding set \<Rightarrow> string list \<Rightarrow> (string \<times> string \<times> string) set" where
  "roles_for objs groups =
     {(item_Namespace i, ''Role'', item_Name i) | l i. l \<in> objs \<and> spec_LdapGroupDN (lgb_Spec l) \<in> set groups \<and>
        i \<in> set (lgb_items l) \<and> item_Kind i = ''Role'' \<and> item_Namespace i \<noteq> ''''}"

definition group_bindings :: "string list \<Rightarrow> LdapGroupBinding list \<Rightarrow> LdapGroupBinding list" where
  "group_bindings groups ls = filter (\<lambda>l. spec_LdapGroupDN (lgb_Spec l) \<in> set groups) ls"

lemma due_for:
  "due_cluster_roles (group_bindings groups ls) = cluster_roles_for (set ls) groups"
  "due_roles (group_bindings groups ls) = roles_for (set ls) groups"
  unfolding due_cluster_roles_def cluster_roles_for_def due_roles_def roles_for_def group_bindings_def by fastforce+

section \<open>The parts\<close>

lemma answered_login:
  assumes "Register L ctrl = Some operation" and "op_Handler operation ctx r w = (Handled (Inr out), w')"
  obtains kt u w0 where "kr_Load L (env_KeytabPath (ac_env ctrl)) = Inr kt"
    and "kr_Authenticate L kt r w = (Some u, w0)" and "u \<noteq> ''''"
    and "AuthAccount (ac_authSvc ctrl) u w0 = (Inr (out_Body out), w')"
  using assms
  by (elim Register_handler)
    (auto simp: getKerberosAuth_def GetPrincipal_extended split: prod.splits sum.splits option.splits if_splits)

text \<open>The authentication service of a process, from the configuration and the cluster it found.\<close>

lemma served_operation:
  fixes L :: "('c, 'k, 'r, 'w) libs" and k :: "('c, 'w) k8sService"
  assumes "apiBootstrap L h = Some (server, di)" and "New_Env (lib_env L) = Inr e" and "New_K8s (lib_k8s L) e = Inr k"
    and "operation \<in> set (api_Operations (rt_API (sv_Router server)))"
  shows "Register (lib_krb L) \<lparr>ac_authSvc = New_Auth e k (New_ServiceAccounts e k) (lib_cache L (sv_Background server))
      (New_Ldap e (lib_ldap L) (lib_Sprintf_other L)) (lib_crbOrder L) (lib_rbOrder L), ac_env = e\<rparr> = Some operation"
    and "New_LdapGroupBindings (lib_NewForConfig L) (lib_AddEventHandler L) (GetRestConfig k) h =
      (Inr (sv_Background server), inj_heap di)"
proof -
  obtain s e' g operation' where made: "made L h di" "inj_auth di = Some s" "inj_env di = Some e'"
      "inj_ldapgroupbindings di = Some g" "sv_Background server = g"
    and reg: "Register (lib_krb L) \<lparr>ac_authSvc = s, ac_env = e'\<rparr> = Some operation'"
    and server: "sv_Router server = \<lparr>rt_API = \<lparr>api_Config =
        WithServers (WithOverviewDoc (lib_DefaultConfig L ''Kerbernetes API'' ''dev'')) e',
        api_Operations = [operation']\<rparr>, rt_Get = [(''/docs'', notFoundHandler)]\<rparr>"
    using assms(1) by (rule apiBootstrap_run)
  have e: "e' = e" using made(1,3) assms(2) by (auto simp: made_def)
  have "s = New_Auth e k (New_ServiceAccounts e k) (lib_cache L (sv_Background server))
      (New_Ldap e (lib_ldap L) (lib_Sprintf_other L)) (lib_crbOrder L) (lib_rbOrder L)"
    using made(1-5) e assms(3) by (auto simp: made_def)
  moreover have "operation = operation'" using assms(4) server by simp
  ultimately show "Register (lib_krb L) \<lparr>ac_authSvc = New_Auth e k (New_ServiceAccounts e k) (lib_cache L (sv_Background server))
      (New_Ldap e (lib_ldap L) (lib_Sprintf_other L)) (lib_crbOrder L) (lib_rbOrder L), ac_env = e\<rparr> = Some operation"
    using reg e by simp
  show "New_LdapGroupBindings (lib_NewForConfig L) (lib_AddEventHandler L) (GetRestConfig k) h =
      (Inr (sv_Background server), inj_heap di)"
    using made(1,3-5) e assms(3) by (auto simp: made_def)
qed

lemma New_Auth_parts:
  "as_serviceAccountsSvc (New_Auth e k a cache l co ro) = a" "as_ldapSvc (New_Auth e k a cache l co ro) = l"
  "as_env (New_Auth e k a cache l co ro) = e" "as_ldapGroupBindingsSvc (New_Auth e k a cache l co ro) = cache"
  "as_crbOrder (New_Auth e k a cache l co ro) = co" "as_rbOrder (New_Auth e k a cache l co ro) = ro"
  "svc_clientset (New_ServiceAccounts e k) = ks_clientset k" "wired (New_Auth e k (New_ServiceAccounts e k) cache l co ro)"
  "ls_lib (New_Ldap e ll so) = ll"
  by (simp_all add: New_Auth_def New_ServiceAccounts_def New_Ldap_def wired_def GetClientset_def GetNamespace_def)

text \<open>
  \<open>in_sync svc cache objs\<close>: the informer of the service \<open>svc\<close> can have led to \<open>cache\<close>, with the
  objects listed and all notifications delivered, when the LdapGroupBindings in the cluster
  are \<open>objs\<close>.
\<close>

definition in_sync :: "ldapGroupBindingService \<Rightarrow> ldapGroupBindingService \<Rightarrow> LdapGroupBinding set \<Rightarrow> bool" where
  "in_sync svc cache objs \<longleftrightarrow>
     (\<exists>extra bs c. (informer_step extra)\<^sup>*\<^sup>* (started_cluster svc bs) c \<and> cl_listed c \<and> cl_queue c = [] \<and>
        cache = cl_svc c \<and> objs = ran (cl_objects c))"

lemma in_sync_cached:
  assumes "New_LdapGroupBindings NewForConfig AddEventHandler rc h = (Inr svc0, h')"
    and "Start ord synced ctxDone svc0 h' = (outcome, svc, h'', run)" and "in_sync svc cache objs"
  shows "objs = set (cached cache)"
  using synced_cache(1) [OF steps_inv [OF _ started_inv [OF assms(1,2)]]] assms(3) by (auto simp: in_sync_def)

section \<open>The whole\<close>

text \<open>C4. End to end, for a process whose configuration enables LDAP: it has come up, its background
  service has been started, and a request is answered with credentials. Then a ticket was
  accepted for a user, the directory returned the user's groups, and if the cache read at
  that moment is one that the informer of this very process has led to, with the objects
  listed and all notifications delivered, the user's cluster roles are exactly those which
  the LdapGroupBindings stored in the cluster at that moment give these groups. So are the
  roles in namespaces, provided that no name of the user's RoleBindings is in use in two
  namespaces or wanted in another one than where it is.\<close>

theorem answered_request_grants_stored_roles:
  fixes L :: "('c, 'k, 'r, 'w) libs" and k :: "('c, 'w) k8sService"
  assumes "apiBootstrap L h = Some (server, di)" and "New_Env (lib_env L) = Inr e" and "New_K8s (lib_k8s L) e = Inr k"
    and "kube_api (ks_clientset k) V" and "env_LDAPEnabled e" and "ldap_keeps (v_RB V) (lib_ldap L)"
    and "visits_each (lib_crbOrder L)" and "visits_each (lib_rbOrder L)"
    and "Start ord synced ctxDone (sv_Background server) (inj_heap di) = (outcome, svc, h', run)"
    and "operation \<in> set (api_Operations (rt_API (sv_Router server)))"
    and "op_Handler operation ctx r w = (Handled (Inr out), w')"
  shows "\<exists>kt u w0 sa w1 user w2 groups w3.
    kr_Load (lib_krb L) (env_KeytabPath e) = Inr kt \<and> kr_Authenticate (lib_krb L) kt r w = (Some u, w0) \<and> u \<noteq> '''' \<and>
    UpsertServiceAccount (New_ServiceAccounts e k) u w0 = (Inr sa, w1) \<and>
    GetUser (New_Ldap e (lib_ldap L) (lib_Sprintf_other L)) u w1 = (Inr user, w2) \<and>
    GetUserGroups (New_Ldap e (lib_ldap L) (lib_Sprintf_other L)) (entry_DN user) w2 = (Inr groups, w3) \<and>
    (\<forall>objs. in_sync svc (lib_cache L (sv_Background server) w3) objs \<longrightarrow>
       cluster_roles V (New_ServiceAccounts e k) u w' = cluster_roles_for objs groups \<and>
       (namespaces_settled V (New_ServiceAccounts e k) u (group_bindings groups (cached (lib_cache L (sv_Background server) w3))) w0 \<longrightarrow>
          roles V (New_ServiceAccounts e k) u w' = roles_for objs groups))"
proof -
  let ?svc = "New_ServiceAccounts e k" and ?ldap = "New_Ldap e (lib_ldap L) (lib_Sprintf_other L)"
  let ?s = "New_Auth e k ?svc (lib_cache L (sv_Background server)) ?ldap (lib_crbOrder L) (lib_rbOrder L)"
  note parts = served_operation [OF assms(1-3,10)]
  obtain kt u w0 where kt: "kr_Load (lib_krb L) (env_KeytabPath e) = Inr kt"
    and u: "kr_Authenticate (lib_krb L) kt r w = (Some u, w0)" "u \<noteq> ''''"
    and login: "AuthAccount ?s u w0 = (Inr (out_Body out), w')"
    using answered_login [OF parts(1) assms(11)] by auto
  have login_hyps: "kube_api (svc_clientset (as_serviceAccountsSvc ?s)) V" "wired ?s" "visits_each (as_crbOrder ?s)"
    "visits_each (as_rbOrder ?s)" "ldap_keeps (v_RB V) (ls_lib (as_ldapSvc ?s))" "env_LDAPEnabled (as_env ?s)"
    using assms(4-8) by (simp_all add: New_Auth_parts)
  obtain sa w1 user w2 groups w3 where up: "UpsertServiceAccount ?svc u w0 = (Inr sa, w1)"
    and gu: "GetUser ?ldap u w1 = (Inr user, w2)" and gg: "GetUserGroups ?ldap (entry_DN user) w2 = (Inr groups, w3)"
    and held: "cluster_roles V ?svc u w' = due_cluster_roles (group_bindings groups (cached (lib_cache L (sv_Background server) w3)))"
      "namespaces_settled V ?svc u (group_bindings groups (cached (lib_cache L (sv_Background server) w3))) w0 \<longrightarrow>
         roles V ?svc u w' = due_roles (group_bindings groups (cached (lib_cache L (sv_Background server) w3)))"
    by (rule login_roles [OF login_hyps login, unfolded New_Auth_parts, folded group_bindings_def])
  have "objs = set (cached (lib_cache L (sv_Background server) w3))" if "in_sync svc (lib_cache L (sv_Background server) w3) objs" for objs
    by (rule in_sync_cached [OF parts(2) assms(9) that])
  then have stored: "in_sync svc (lib_cache L (sv_Background server) w3) objs \<Longrightarrow> set (cached (lib_cache L (sv_Background server) w3)) = objs" for objs by simp
  show ?thesis
    by (intro exI conjI allI impI, rule kt, rule u, rule u, rule up, rule gu, rule gg)
       (simp_all add: held due_for stored)
qed

text \<open>An example: the process of theory StartupProperties with LDAP enabled, in sync with \<open>devs\<close>.\<close>

definition ready_env_libs :: env_libs where
  "ready_env_libs = example_env_libs\<lparr>el_Unmarshal := (\<lambda>keys z. Inr example_env)\<rparr>"

definition ready_env :: Env where
  "ready_env = SetDefaults ready_env_libs example_env"

definition ready_k8s :: "(unit, mem) k8sService" where
  "ready_k8s = \<lparr>ks_env = ready_env, ks_clientset = mem_K, ks_namespace = ''kerbernetes'', ks_restConfig = ()\<rparr>"

definition background :: "ldapGroupBindingService \<times> informer_heap" where
  "background = (case New_LdapGroupBindings (\<lambda>_. Inr 7) count_handler () empty_heap of
     (Inr svc, h) \<Rightarrow> (svc, h) | (Inl err, h) \<Rightarrow> (initial_service 0, h))"

definition running_service :: ldapGroupBindingService where
  "running_service = fst (snd (Start (\<lambda>ks. ks) (\<lambda>_. True) False (fst background) (snd background)))"

definition ready_libs :: "(unit, unit, unit, mem) libs" where
  "ready_libs = example_libs\<lparr>lib_env := ready_env_libs, lib_cache := (\<lambda>g w. add (\<lambda>_. 0) devs running_service)\<rparr>"

definition ready_auth :: "(unit, mem) authService" where
  "ready_auth = New_Auth ready_env ready_k8s (New_ServiceAccounts ready_env ready_k8s) (\<lambda>w. add (\<lambda>_. 0) devs running_service)
     (New_Ldap ready_env (lib_ldap ready_libs) (lib_Sprintf_other ready_libs)) (\<lambda>ks. ks) (\<lambda>ks. ks)"

lemma ready_libs_ok:
  "New_Env (lib_env ready_libs) = Inr ready_env" "New_K8s (lib_k8s ready_libs) ready_env = Inr ready_k8s"
  "kr_Load (lib_krb ready_libs) path = Inr ()" "kr_Authenticate (lib_krb ready_libs) kt r w = (Some ''ann'', w)"
  "lib_crbOrder ready_libs = (\<lambda>ks. ks)" "lib_rbOrder ready_libs = (\<lambda>ks. ks)"
  "lib_cache ready_libs g = (\<lambda>w. add (\<lambda>_. 0) devs running_service)"
proof -
  have "env_libs_ok ready_env_libs"
    using example_env_libs_ok by (simp add: env_libs_ok_def ready_env_libs_def)
  from validate_SetDefaults [OF this] show "New_Env (lib_env ready_libs) = Inr ready_env"
    by (simp add: New_Env_def ready_libs_def ready_env_def ready_env_libs_def Let_def)
  have "env_Namespace ready_env = ''kerbernetes''"
    by (simp add: ready_env_def SetDefaults_def ready_env_libs_def example_env_libs_def example_env_def)
  then show "New_K8s (lib_k8s ready_libs) ready_env = Inr ready_k8s"
    by (simp add: ready_libs_def example_libs_def New_K8s_def getNamespace_def ready_k8s_def Let_def)
qed (simp_all add: ready_libs_def example_libs_def example_krb_def)

lemma ready_boots: "\<exists>server di. apiBootstrap ready_libs empty_heap = Some (server, di)"
  using ready_libs_ok(1,2)
  by (simp add: apiBootstrap_def and_then_def MustInvoke_def invoke_env_def invoke_k8s_def
      invoke_serviceaccounts_def invoke_ldapgroupbindings_def invoke_ldap_def invoke_auth_def InitServices_def
      New_LdapGroupBindings_def count_handler_def apiMux_def ControllersInit_def ready_libs_def example_libs_def
      controllersList_def Init_def Register_def SPNEGO_def example_krb_def Let_def case_prod_beta)

lemma ready_login:
  "fst (AuthAccount ready_auth ''ann'' empty_world) =
     Inr \<lparr>cr_Kind = ''ExecCredential'', cr_ApiVersion = ''client.authentication.k8s.io/v1beta1'',
       cr_Status = Some \<lparr>st_Token = ''token-ann'', st_ExpirationTimestamp = 600\<rparr>\<rparr>"
  by code_simp

lemma ready_in_sync: "in_sync running_service (add (\<lambda>_. 0) devs running_service) {devs}"
proof -
  let ?c = "started_cluster running_service [devs]"
  let ?c1 = "?c\<lparr>cl_listed := True, cl_queue := map (\<lambda>b. AddFunc (Obj b)) [devs]\<rparr>"
  let ?c2 = "?c1\<lparr>cl_queue := [], cl_svc := add (\<lambda>_. 0) devs running_service\<rparr>"
  have "informer_step (\<lambda>_. 0) ?c ?c1"
    by (rule informer_step.list) (simp_all add: started_cluster_def fresh_cluster_def)
  moreover have "informer_step (\<lambda>_. 0) ?c1 ?c2"
    by (rule informer_step.deliver [where e = "AddFunc (Obj devs)"])
       (simp_all add: started_cluster_def fresh_cluster_def)
  ultimately have "(informer_step (\<lambda>_. 0))\<^sup>*\<^sup>* ?c ?c2" by (rule converse_rtranclp_into_rtranclp [OF _ r_into_rtranclp])
  moreover have "ran (by_name [devs]) = {devs}" by (simp add: by_name_def)
  ultimately show ?thesis
    unfolding in_sync_def
    by (intro exI [of _ "\<lambda>_. 0"] exI [of _ "[devs]"] exI [of _ ?c2]) (simp add: started_cluster_def fresh_cluster_def)
qed

lemma ready_directory:
  "fst (GetUser (as_ldapSvc ready_auth) ''ann'' w) = Inr \<lparr>entry_DN = ''uid=ann''\<rparr>"
  "fst (GetUserGroups (as_ldapSvc ready_auth) ''uid=ann'' w) = Inr [''cn=devs'']"
  by (simp_all add: GetUser_def GetUserGroups_def withConnection_def ready_auth_def New_Auth_parts ready_libs_def
      example_libs_def New_Ldap_def mem_ldap_def searchRequest_def Sprintf1_def ready_env_def SetDefaults_def
      ready_env_libs_def example_env_libs_def example_env_def example_directory_def)

lemma ready_hyps:
  "kube_api (ks_clientset ready_k8s) mem_V" "env_LDAPEnabled ready_env" "ldap_keeps (v_RB mem_V) (lib_ldap ready_libs)"
  "ldap_keeps (v_SA mem_V) (lib_ldap ready_libs)" "visits_each (lib_crbOrder ready_libs)" "visits_each (lib_rbOrder ready_libs)"
  using mem_kube_api
  by (simp_all add: ready_k8s_def ready_libs_ok visits_each_id ready_env_def SetDefaults_def
      ready_env_libs_def example_env_libs_def example_env_def ready_libs_def example_libs_def)
     (simp_all add: ldap_keeps_def keeps_def mem_ldap_def mem_V_def)

lemma devs_cluster_roles: "cluster_roles_for {devs} [''cn=devs''] = {''view''}"
proof -
  have "lgb_items devs = [view_item, edit_item ''dev'']" "spec_LdapGroupDN (lgb_Spec devs) = ''cn=devs''"
    by (simp_all add: devs_def new_lgb_def)
  moreover have "item_Kind view_item = ''ClusterRole''" "item_Name view_item = ''view''"
    by (simp_all add: view_item_def)
  ultimately show ?thesis by (auto simp: cluster_roles_for_def intro!: exI [of _ view_item])
qed

lemma answered_request_grants_stored_roles_witness:
  "\<exists>server di operation cred w'. apiBootstrap ready_libs empty_heap = Some (server, di) \<and>
    api_Operations (rt_API (sv_Router server)) = [operation] \<and>
    op_Handler operation Map.empty () empty_world = (Handled (Inr cred), w') \<and>
    cluster_roles mem_V (as_serviceAccountsSvc ready_auth) ''ann'' w' = {''view''}"
proof -
  obtain server di where boot: "apiBootstrap ready_libs empty_heap = Some (server, di)" using ready_boots by blast
  then obtain operation where ops: "api_Operations (rt_API (sv_Router server)) = [operation]"
    by (rule apiBootstrap_run) simp
  then have op: "operation \<in> set (api_Operations (rt_API (sv_Router server)))" by simp
  note served = served_operation [OF boot ready_libs_ok(1,2) op]
  obtain cred w' where login: "AuthAccount ready_auth ''ann'' empty_world = (Inr cred, w')"
    using ready_login by (metis prod.collapse)
  have answer: "op_Handler operation Map.empty () empty_world = (Handled (Inr \<lparr>out_Body = cred\<rparr>), w')"
    using handled_login [OF served(1) _ ready_libs_ok(4)] login ready_libs_ok(3,5,6,7) by (simp add: ready_auth_def)
  have "fst (snd (Start (\<lambda>ks. ks) (\<lambda>_. True) False (sv_Background server) (inj_heap di))) = running_service"
    using served(2) by (simp add: running_service_def background_def ready_libs_def example_libs_def ready_k8s_def
        GetRestConfig_def)
  then obtain outcome h1 run where start: "Start (\<lambda>ks. ks) (\<lambda>_. True) False (sv_Background server) (inj_heap di) =
      (outcome, running_service, h1, run)" by (metis prod.collapse)
  obtain w1 user w2 groups w3 where
    "GetUser (as_ldapSvc ready_auth) ''ann'' w1 = (Inr user, w2)"
    "GetUserGroups (as_ldapSvc ready_auth) (entry_DN user) w2 = (Inr groups, w3)" and
    roles: "cluster_roles mem_V (as_serviceAccountsSvc ready_auth) ''ann'' w' = cluster_roles_for {devs} groups"
    using answered_request_grants_stored_roles [OF boot ready_libs_ok(1,2) ready_hyps(1-3,5,6) start op answer]
      ready_in_sync
    by (auto simp: ready_libs_ok(4) ready_auth_def New_Auth_parts) (simp add: ready_libs_def)
  then have "groups = [''cn=devs'']"
    using ready_directory by (metis Inr_inject Entry.select_convs(1) fst_conv)
  then have "cluster_roles mem_V (as_serviceAccountsSvc ready_auth) ''ann'' w' = {''view''}"
    using roles devs_cluster_roles by simp
  then show ?thesis using boot ops answer by blast
qed

section \<open>Before the cache is filled\<close>

text \<open>C21. The server comes up with an empty cache and answers logins before the informer has filled
  it, as nothing waits for it. With LDAP enabled, a login in that time of a user that the
  directory knows succeeds and takes all cluster roles and all roles in namespaces from the
  user, on an API server that answers valid requests and issues tokens for existing
  accounts, when no name of the user's RoleBindings is in use in two namespaces.\<close>

theorem login_with_empty_cache_revokes:
  fixes L :: "('c, 'k, 'r, 'w) libs" and k :: "('c, 'w) k8sService"
  assumes "apiBootstrap L h = Some (server, di)" and "New_Env (lib_env L) = Inr e" and "New_K8s (lib_k8s L) e = Inr k"
    and "kube_api (ks_clientset k) V" and "crb_live ca (ks_clientset k) V" and "rb_live ra (ks_clientset k) V"
    and "env_LDAPEnabled e" and "ldap_keeps (v_RB V) (lib_ldap L)" and "ldap_keeps (v_SA V) (lib_ldap L)"
    and "visits_each (lib_crbOrder L)" and "visits_each (lib_rbOrder L)"
    and "operation \<in> set (api_Operations (rt_API (sv_Router server)))"
    and "kr_Load (lib_krb L) (env_KeytabPath e) = Inr kt" and "kr_Authenticate (lib_krb L) kt r w = (Some u, w0)" and "u \<noteq> ''''"
    and "UpsertServiceAccount (New_ServiceAccounts e k) u w0 = (Inr sa, w1)"
    and "GetUser (New_Ldap e (lib_ldap L) (lib_Sprintf_other L)) u w1 = (Inr user, w2)"
    and "GetUserGroups (New_Ldap e (lib_ldap L) (lib_Sprintf_other L)) (entry_DN user) w2 = (Inr groups, w3)"
    and "cached (lib_cache L (sv_Background server) w3) = []"
    and "namespaces_settled V (New_ServiceAccounts e k) u [] w0"
    and "\<And>v a. v_SA V v (svc_namespace (New_ServiceAccounts e k), u) = Some a \<Longrightarrow>
      \<exists>t. fst (IssueToken (New_ServiceAccounts e k) u v) = Inr t"
  shows "cached (sv_Background server) = [] \<and>
    (\<exists>out w'. op_Handler operation ctx r w = (Handled (Inr out), w') \<and>
       cluster_roles V (New_ServiceAccounts e k) u w' = {} \<and> roles V (New_ServiceAccounts e k) u w' = {})"
proof -
  let ?svc = "New_ServiceAccounts e k" and ?ldap = "New_Ldap e (lib_ldap L) (lib_Sprintf_other L)"
  let ?s = "New_Auth e k ?svc (lib_cache L (sv_Background server)) ?ldap (lib_crbOrder L) (lib_rbOrder L)"
  note parts = served_operation [OF assms(1-3,12)]
  have "\<exists>cred w'. AuthAccount ?s u w0 = (Inr cred, w') \<and>
      cluster_roles V (as_serviceAccountsSvc ?s) u w' = {} \<and> roles V (as_serviceAccountsSvc ?s) u w' = {}"
    by (rule empty_cache_login [where V = V and ca = ca and ra = ra and ?w1.0 = w1 and ?w2.0 = w2 and ?w3.0 = w3
          and groups = groups])
       (unfold New_Auth_parts, (fact assms New_Auth_parts)+)
  then obtain cred w' where login: "AuthAccount ?s u w0 = (Inr cred, w')"
    and none: "cluster_roles V ?svc u w' = {}" "roles V ?svc u w' = {}" by (auto simp: New_Auth_parts)
  have "op_Handler operation ctx r w = (Handled (Inr \<lparr>out_Body = cred\<rparr>), w')"
    using handled_login [OF parts(1) _ assms(14,15)] assms(13) login by simp
  then show ?thesis using none New_LdapGroupBindings_cache(1) [OF parts(2)] by blast
qed

text \<open>The example with the cache as the process has made it.\<close>

definition starting_libs :: "(unit, unit, unit, mem) libs" where
  "starting_libs = ready_libs\<lparr>lib_cache := (\<lambda>g w. g)\<rparr>"

lemma starting_libs_sel:
  "lib_env starting_libs = lib_env ready_libs" "lib_k8s starting_libs = lib_k8s ready_libs"
  "lib_krb starting_libs = lib_krb ready_libs" "lib_ldap starting_libs = lib_ldap ready_libs"
  "lib_crbOrder starting_libs = lib_crbOrder ready_libs" "lib_rbOrder starting_libs = lib_rbOrder ready_libs"
  "lib_Sprintf_other starting_libs = lib_Sprintf_other ready_libs" "lib_cache starting_libs g w = g"
  by (simp_all add: starting_libs_def)

lemma starting_boots: "\<exists>server di. apiBootstrap starting_libs empty_heap = Some (server, di)"
  using ready_libs_ok(1,2) unfolding starting_libs_def
  by (simp add: apiBootstrap_def and_then_def MustInvoke_def invoke_env_def invoke_k8s_def
      invoke_serviceaccounts_def invoke_ldapgroupbindings_def invoke_ldap_def invoke_auth_def InitServices_def
      New_LdapGroupBindings_def count_handler_def apiMux_def ControllersInit_def ready_libs_def example_libs_def
      controllersList_def Init_def Register_def SPNEGO_def example_krb_def Let_def case_prod_beta)

abbreviation ready_svc :: "mem serviceAccountsService" where
  "ready_svc \<equiv> New_ServiceAccounts ready_env ready_k8s"

lemma ready_svc_parts: "svc_clientset ready_svc = mem_K" "svc_namespace ready_svc = ''kerbernetes''"
  by (simp_all add: New_ServiceAccounts_def ready_k8s_def GetClientset_def GetNamespace_def)

lemma ready_granted:
  "cluster_roles mem_V ready_svc ''ann'' (granted_world [''dev'']) \<noteq> {}"
  "namespaces_settled mem_V ready_svc ''ann'' [] (granted_world [''dev''])"
proof -
  let ?b = "stamp (\<lambda>_. '''') ((), ''kerbernetes:ann:devs:view'') (crb_object example_svc ''ann'' (''devs'', ''view''))"
  have "managed_for ready_svc ''ann'' ?b = managed_for example_svc ''ann'' ?b"
    by (simp add: managed_for_def ready_svc_parts)
  then have "managed_for ready_svc ''ann'' ?b" by (simp only: managed_stamp managed_rb_object)
  then have "rr_Name (rb_RoleRef ?b) \<in> cluster_roles mem_V ready_svc ''ann'' (granted_world [''dev''])"
    using granted_CRB [of "[''dev'']"] unfolding cluster_roles_def by blast
  then show "cluster_roles mem_V ready_svc ''ann'' (granted_world [''dev'']) \<noteq> {}" by blast
  show "namespaces_settled mem_V ready_svc ''ann'' [] (granted_world [''dev''])"
    by (auto simp: namespaces_settled_def granted_RB all_items_def prod_eq_iff split: if_splits)
qed

lemma ready_account:
  "\<exists>a. fst (UpsertServiceAccount ready_svc ''ann'' (granted_world nss)) = Inr a"
  "v_SA mem_V w (svc_namespace ready_svc, ''ann'') = Some a \<Longrightarrow> \<exists>t. fst (IssueToken ready_svc ''ann'' w) = Inr t"
  by (simp_all add: UpsertServiceAccount_def single_call_eqs ready_svc_parts mem_K_def mem_sa_client_def mem_look_sa_def
      granted_world_def empty_world_def mem_V_def split: option.splits) auto

lemma login_with_empty_cache_revokes_witness:
  "\<exists>server di operation out w'. apiBootstrap starting_libs empty_heap = Some (server, di) \<and>
    api_Operations (rt_API (sv_Router server)) = [operation] \<and> cached (sv_Background server) = [] \<and>
    op_Handler operation Map.empty () (granted_world [''dev'']) = (Handled (Inr out), w') \<and>
    cluster_roles mem_V ready_svc ''ann'' (granted_world [''dev'']) \<noteq> {} \<and> cluster_roles mem_V ready_svc ''ann'' w' = {}"
proof -
  let ?L = starting_libs and ?w = "granted_world [''dev'']"
  obtain server di where boot: "apiBootstrap ?L empty_heap = Some (server, di)" using starting_boots by blast
  then obtain operation where ops: "api_Operations (rt_API (sv_Router server)) = [operation]"
    by (rule apiBootstrap_run) simp
  then have op: "operation \<in> set (api_Operations (rt_API (sv_Router server)))" by simp
  note found = ready_libs_ok(1,2) [folded starting_libs_sel(1,2)]
  have "cached (lib_cache ?L (sv_Background server) v) = []" for v
    using New_LdapGroupBindings_cache(1) [OF served_operation(2) [OF boot found op]] by (simp add: starting_libs_sel)
  moreover obtain sa w1 where up: "UpsertServiceAccount ready_svc ''ann'' ?w = (Inr sa, w1)"
    using ready_account(1) by (metis prod.collapse)
  moreover obtain user w2 where gu: "GetUser (New_Ldap ready_env (lib_ldap ?L) (lib_Sprintf_other ?L)) ''ann'' w1 = (Inr user, w2)"
      "entry_DN user = ''uid=ann''"
    using ready_directory(1) [of w1] by (metis Entry.select_convs(1) New_Auth_parts(2) prod.collapse ready_auth_def starting_libs_sel(4,7))
  moreover obtain w3 where "GetUserGroups (New_Ldap ready_env (lib_ldap ?L) (lib_Sprintf_other ?L)) (entry_DN user) w2 = (Inr [''cn=devs''], w3)"
    using ready_directory(2) [of w2] gu(2) by (metis New_Auth_parts(2) prod.collapse ready_auth_def starting_libs_sel(4,7))
  moreover have "kube_api (ks_clientset ready_k8s) mem_V" "env_LDAPEnabled ready_env" "ldap_keeps (v_RB mem_V) (lib_ldap ?L)"
    "ldap_keeps (v_SA mem_V) (lib_ldap ?L)" "visits_each (lib_crbOrder ?L)" "visits_each (lib_rbOrder ?L)"
    using ready_hyps by (simp_all add: starting_libs_sel)
  ultimately have "cached (sv_Background server) = [] \<and>
    (\<exists>out w'. op_Handler operation Map.empty () ?w = (Handled (Inr out), w') \<and>
       cluster_roles mem_V ready_svc ''ann'' w' = {} \<and> roles mem_V ready_svc ''ann'' w' = {})"
    using login_with_empty_cache_revokes [OF boot found, where V = mem_V and operation = operation and u = "''ann''"
        and r = "()" and w = ?w and ctx = Map.empty and ca = "\<lambda>_ b. rr_APIGroup (rb_RoleRef b) \<noteq> ''''"
        and ra = "\<lambda>_ b. rr_APIGroup (rb_RoleRef b) \<noteq> ''''"] op ready_granted(2) ready_account(2)
    by (simp add: starting_libs_sel ready_libs_ok mem_live ready_svc_parts ready_k8s_def)
  then show ?thesis using boot ops ready_granted(1) by blast
qed

end
