(* ===== verification/GeneratedClient.thy ===== *)
theory GeneratedClient
  imports Complex_Main Scheme
begin

text \<open>
  The generated client set, \<open>k8s/generated/clientset/versioned\<close>: \<open>clientset.go\<close> and
  \<open>typed/rbac.kerbernetes.io/v1/rbac.kerbernetes.io_client.go\<close>. The constructors work on copies
  of the REST configuration; what they put into the copies decides which server path, group
  and rate limiter the clients use. The REST library is a parameter.
\<close>

section \<open>The REST library\<close>

text \<open>The fields of a configuration that the code reads or writes; a rate is a finite number.\<close>

record ('l, 'z) rest_config =
  rcf_Host :: string
  rcf_UserAgent :: string
  rcf_RateLimiter :: "'l option"
  rcf_QPS :: rat
  rcf_Burst :: int
  rcf_GroupVersion :: "GroupVersion option"
  rcf_APIPath :: string
  rcf_NegotiatedSerializer :: "'z option"

record ('l, 'z, 'h, 'r, 'd) rest_lib =
  rl_DefaultUserAgent :: string
  rl_CodecFactory :: 'z
  rl_HTTPClientFor :: "('l, 'z) rest_config \<Rightarrow> string + 'h"
  rl_NewTokenBucketRateLimiter :: "rat \<Rightarrow> int \<Rightarrow> 'l"
  rl_RESTClientFor :: "('l, 'z) rest_config \<Rightarrow> 'h \<Rightarrow> string + 'r"
  rl_NewDiscoveryClientFor :: "('l, 'z) rest_config \<Rightarrow> 'h \<Rightarrow> string + 'd"
  rl_NewDiscoveryClient :: "'r \<Rightarrow> 'd"

section \<open>The client of the group\<close>

record 'r RbacKerbernetesV1Client =
  rkc_restClient :: 'r

definition setConfigDefaults ::
  "('l, 'z, 'h, 'r, 'd) rest_lib \<Rightarrow> ('l, 'z) rest_config \<Rightarrow> ('l, 'z) rest_config" where
  "setConfigDefaults R config =
     (let gv = SchemeGroupVersion;
          config1 = config\<lparr>rcf_GroupVersion := Some gv, rcf_APIPath := ''/apis'',
            rcf_NegotiatedSerializer := Some (rl_CodecFactory R)\<rparr>
      in if rcf_UserAgent config1 = '''' then config1\<lparr>rcf_UserAgent := rl_DefaultUserAgent R\<rparr>
         else config1)"

definition V1_NewForConfigAndClient ::
  "('l, 'z, 'h, 'r, 'd) rest_lib \<Rightarrow> ('l, 'z) rest_config \<Rightarrow> 'h \<Rightarrow> string + 'r RbacKerbernetesV1Client" where
  "V1_NewForConfigAndClient R c h =
     (let config = setConfigDefaults R c in
      case rl_RESTClientFor R config h of
        Inl err \<Rightarrow> Inl err
      | Inr client \<Rightarrow> Inr \<lparr>rkc_restClient = client\<rparr>)"

definition V1_NewForConfig ::
  "('l, 'z, 'h, 'r, 'd) rest_lib \<Rightarrow> ('l, 'z) rest_config \<Rightarrow> string + 'r RbacKerbernetesV1Client" where
  "V1_NewForConfig R c =
     (let config = setConfigDefaults R c in
      case rl_HTTPClientFor R config of
        Inl err \<Rightarrow> Inl err
      | Inr httpClient \<Rightarrow> V1_NewForConfigAndClient R config httpClient)"

text \<open>\<open>None\<close> is the panic.\<close>

definition V1_NewForConfigOrDie ::
  "('l, 'z, 'h, 'r, 'd) rest_lib \<Rightarrow> ('l, 'z) rest_config \<Rightarrow> 'r RbacKerbernetesV1Client option" where
  "V1_NewForConfigOrDie R c =
     (case V1_NewForConfig R c of Inl err \<Rightarrow> None | Inr client \<Rightarrow> Some client)"

definition V1_New :: "'r \<Rightarrow> 'r RbacKerbernetesV1Client" where
  "V1_New c = \<lparr>rkc_restClient = c\<rparr>"

text \<open>The receiver is a pointer, which may be nil.\<close>

definition RESTClient :: "'r RbacKerbernetesV1Client option \<Rightarrow> 'r option" where
  "RESTClient c = (case c of None \<Rightarrow> None | Some c' \<Rightarrow> Some (rkc_restClient c'))"

section \<open>The client set\<close>

record ('r, 'd) lgb_Clientset =
  lcs_DiscoveryClient :: 'd
  lcs_rbacKerbernetesV1 :: "'r RbacKerbernetesV1Client"

definition RbacKerbernetesV1 :: "('r, 'd) lgb_Clientset \<Rightarrow> 'r RbacKerbernetesV1Client" where
  "RbacKerbernetesV1 c = lcs_rbacKerbernetesV1 c"

definition Discovery :: "('r, 'd) lgb_Clientset option \<Rightarrow> 'd option" where
  "Discovery c = (case c of None \<Rightarrow> None | Some c' \<Rightarrow> Some (lcs_DiscoveryClient c'))"

definition NewForConfigAndClient ::
  "('l, 'z, 'h, 'r, 'd) rest_lib \<Rightarrow> ('l, 'z) rest_config \<Rightarrow> 'h \<Rightarrow> string + ('r, 'd) lgb_Clientset" where
  "NewForConfigAndClient R c httpClient =
     (let limited =
        (if rcf_RateLimiter c = None \<and> rcf_QPS c > 0 then
           (if rcf_Burst c \<le> 0 then Inl ''burst is required to be greater than 0''
            else Inr (c\<lparr>rcf_RateLimiter := Some (rl_NewTokenBucketRateLimiter R (rcf_QPS c) (rcf_Burst c))\<rparr>))
         else Inr c)
      in case limited of
           Inl err \<Rightarrow> Inl err
         | Inr configShallowCopy \<Rightarrow>
             (case V1_NewForConfigAndClient R configShallowCopy httpClient of
                Inl err \<Rightarrow> Inl err
              | Inr rbac \<Rightarrow>
                  (case rl_NewDiscoveryClientFor R configShallowCopy httpClient of
                     Inl err \<Rightarrow> Inl err
                   | Inr discovery \<Rightarrow>
                       Inr \<lparr>lcs_DiscoveryClient = discovery, lcs_rbacKerbernetesV1 = rbac\<rparr>)))"

definition NewForConfig ::
  "('l, 'z, 'h, 'r, 'd) rest_lib \<Rightarrow> ('l, 'z) rest_config \<Rightarrow> string + ('r, 'd) lgb_Clientset" where
  "NewForConfig R c =
     (let configShallowCopy =
        (if rcf_UserAgent c = '''' then c\<lparr>rcf_UserAgent := rl_DefaultUserAgent R\<rparr> else c)
      in case rl_HTTPClientFor R configShallowCopy of
           Inl err \<Rightarrow> Inl err
         | Inr httpClient \<Rightarrow> NewForConfigAndClient R configShallowCopy httpClient)"

definition NewForConfigOrDie ::
  "('l, 'z, 'h, 'r, 'd) rest_lib \<Rightarrow> ('l, 'z) rest_config \<Rightarrow> ('r, 'd) lgb_Clientset option" where
  "NewForConfigOrDie R c = (case NewForConfig R c of Inl err \<Rightarrow> None | Inr cs \<Rightarrow> Some cs)"

definition New_Clientset :: "('l, 'z, 'h, 'r, 'd) rest_lib \<Rightarrow> 'r \<Rightarrow> ('r, 'd) lgb_Clientset" where
  "New_Clientset R c =
     \<lparr>lcs_DiscoveryClient = rl_NewDiscoveryClient R c, lcs_rbacKerbernetesV1 = V1_New c\<rparr>"

section \<open>What the clients are made with\<close>

text \<open>The configuration both clients share.\<close>

definition shared_config ::
  "('l, 'z, 'h, 'r, 'd) rest_lib \<Rightarrow> ('l, 'z) rest_config \<Rightarrow> ('l, 'z) rest_config" where
  "shared_config R c =
     (let c1 = (if rcf_UserAgent c = '''' then c\<lparr>rcf_UserAgent := rl_DefaultUserAgent R\<rparr> else c)
      in if rcf_RateLimiter c1 = None \<and> rcf_QPS c1 > 0
         then c1\<lparr>rcf_RateLimiter := Some (rl_NewTokenBucketRateLimiter R (rcf_QPS c1) (rcf_Burst c1))\<rparr>
         else c1)"

lemma setConfigDefaults_fields:
  "rcf_GroupVersion (setConfigDefaults R c) = Some SchemeGroupVersion"
  "rcf_APIPath (setConfigDefaults R c) = ''/apis''" "rcf_Host (setConfigDefaults R c) = rcf_Host c"
  "rcf_RateLimiter (setConfigDefaults R c) = rcf_RateLimiter c"
  "rcf_UserAgent (setConfigDefaults R c) =
     (if rcf_UserAgent c = '''' then rl_DefaultUserAgent R else rcf_UserAgent c)"
  by (simp_all add: setConfigDefaults_def Let_def)

lemma shared_config_fields:
  "rcf_Host (shared_config R c) = rcf_Host c"
  "rcf_RateLimiter (shared_config R c) =
     (if rcf_RateLimiter c = None \<and> rcf_QPS c > 0 then Some (rl_NewTokenBucketRateLimiter R (rcf_QPS c) (rcf_Burst c))
      else rcf_RateLimiter c)"
  "rcf_UserAgent (shared_config R c) =
     (if rcf_UserAgent c = '''' then rl_DefaultUserAgent R else rcf_UserAgent c)"
  by (simp_all add: shared_config_def Let_def)

lemma NewForConfig_parts:
  assumes "NewForConfig R c = Inr cs"
  obtains h where "rl_HTTPClientFor R (if rcf_UserAgent c = '''' then c\<lparr>rcf_UserAgent := rl_DefaultUserAgent R\<rparr> else c) = Inr h"
    and "rl_RESTClientFor R (setConfigDefaults R (shared_config R c)) h = Inr (rkc_restClient (lcs_rbacKerbernetesV1 cs))"
    and "rl_NewDiscoveryClientFor R (shared_config R c) h = Inr (lcs_DiscoveryClient cs)"
    and "rcf_RateLimiter c \<noteq> None \<or> rcf_QPS c \<le> 0 \<or> rcf_Burst c > 0"
  using assms
  by (auto simp: NewForConfig_def NewForConfigAndClient_def V1_NewForConfigAndClient_def shared_config_def Let_def
      split: sum.splits if_splits)

end
