(* ===== verification/DeepCopy.thy ===== *)
theory DeepCopy
  imports KubeTypes Slices
begin

text \<open>
  \<open>k8s/api/rbac.kerbernetes.io/v1/zz_generated.deepcopy.go\<close>. In memory a slice field refers to
  an array that other values may share, so the objects here hold slices over a store instead
  of lists; \<open>None\<close> is the nil slice. A pointer argument is \<open>None\<close> when it is nil, and the
  result of \<open>DeepCopy\<close> is the value of the new object. \<open>DeepCopyInto\<close> of the metadata types of
  the client library is a parameter.
\<close>

section \<open>Objects in memory\<close>

record spec_mem =
  smem_LdapGroupDN :: string
  smem_Bindings :: "slice option"

record binding_mem =
  bmem_TypeMeta :: TypeMeta
  bmem_ObjectMeta :: ObjectMeta
  bmem_Spec :: spec_mem

record ListMeta =
  lm_ResourceVersion :: string
  lm_Continue :: string

record list_mem =
  lmem_TypeMeta :: TypeMeta
  lmem_ListMeta :: ListMeta
  lmem_Items :: "slice option"

record object_heap =
  oh_items :: "LdapGroupBindingItem store"
  oh_bindings :: "binding_mem store"

text \<open>\<open>make([]T, n)\<close>: a fresh array of zero values.\<close>

definition make_slice :: "'a \<Rightarrow> nat \<Rightarrow> 'a store \<Rightarrow> 'a store \<times> slice" where
  "make_slice zero n st =
     (st\<lparr>st_next := Suc (st_next st), st_arrays := (st_arrays st)(st_next st := replicate n zero)\<rparr>,
      \<lparr>sl_arr = st_next st, sl_len = n, sl_cap = n\<rparr>)"

text \<open>\<open>copy(dst, src)\<close>: the first elements of \<open>dst\<close> are overwritten, as many as both have.\<close>

definition copy_slice :: "slice \<Rightarrow> slice \<Rightarrow> 'a store \<Rightarrow> 'a store" where
  "copy_slice dst src st =
     (let n = min (sl_len dst) (sl_len src) in
      st\<lparr>st_arrays := (st_arrays st)(sl_arr dst :=
           take n (slice_elems st src) @ drop n (st_arrays st (sl_arr dst)))\<rparr>)"

definition zero_item :: LdapGroupBindingItem where
  "zero_item = \<lparr>item_Kind = '''', item_Name = '''', item_Namespace = '''', item_ApiGroup = ''''\<rparr>"

definition zero_binding :: binding_mem where
  "zero_binding =
     \<lparr>bmem_TypeMeta = \<lparr>tm_Kind = '''', tm_APIVersion = ''''\<rparr>,
      bmem_ObjectMeta = \<lparr>om_Name = '''', om_Namespace = '''', om_Labels = []\<rparr>,
      bmem_Spec = \<lparr>smem_LdapGroupDN = '''', smem_Bindings = None\<rparr>\<rparr>"

section \<open>The copy functions\<close>

definition LdapGroupBindingItem_DeepCopyInto :: "LdapGroupBindingItem \<Rightarrow> LdapGroupBindingItem" where
  "LdapGroupBindingItem_DeepCopyInto i = i"

definition LdapGroupBindingItem_DeepCopy :: "LdapGroupBindingItem option \<Rightarrow> LdapGroupBindingItem option" where
  "LdapGroupBindingItem_DeepCopy i =
     (case i of None \<Rightarrow> None | Some i' \<Rightarrow> Some (LdapGroupBindingItem_DeepCopyInto i'))"

definition LdapGroupBindingSpec_DeepCopyInto :: "spec_mem \<Rightarrow> object_heap \<Rightarrow> spec_mem \<times> object_heap" where
  "LdapGroupBindingSpec_DeepCopyInto src h =
     (let out = src in
      case smem_Bindings src of
        None \<Rightarrow> (out, h)
      | Some s \<Rightarrow>
          (let (st1, d) = make_slice zero_item (sl_len s) (oh_items h);
               st2 = copy_slice d s st1
           in (out\<lparr>smem_Bindings := Some d\<rparr>, h\<lparr>oh_items := st2\<rparr>)))"

definition LdapGroupBindingSpec_DeepCopy ::
  "spec_mem option \<Rightarrow> object_heap \<Rightarrow> spec_mem option \<times> object_heap" where
  "LdapGroupBindingSpec_DeepCopy src h =
     (case src of
        None \<Rightarrow> (None, h)
      | Some s \<Rightarrow> (let (out, h') = LdapGroupBindingSpec_DeepCopyInto s h in (Some out, h')))"

definition LdapGroupBinding_DeepCopyInto ::
  "(ObjectMeta \<Rightarrow> ObjectMeta) \<Rightarrow> binding_mem \<Rightarrow> object_heap \<Rightarrow> binding_mem \<times> object_heap" where
  "LdapGroupBinding_DeepCopyInto meta_copy src h =
     (let out = src;
          out1 = out\<lparr>bmem_TypeMeta := bmem_TypeMeta src\<rparr>;
          out2 = out1\<lparr>bmem_ObjectMeta := meta_copy (bmem_ObjectMeta src)\<rparr>;
          (spec, h') = LdapGroupBindingSpec_DeepCopyInto (bmem_Spec src) h
      in (out2\<lparr>bmem_Spec := spec\<rparr>, h'))"

definition LdapGroupBinding_DeepCopy ::
  "(ObjectMeta \<Rightarrow> ObjectMeta) \<Rightarrow> binding_mem option \<Rightarrow> object_heap \<Rightarrow> binding_mem option \<times> object_heap" where
  "LdapGroupBinding_DeepCopy meta_copy src h =
     (case src of
        None \<Rightarrow> (None, h)
      | Some b \<Rightarrow> (let (out, h') = LdapGroupBinding_DeepCopyInto meta_copy b h in (Some out, h')))"

text \<open>
  The loop over the indices of a list: element \<open>i\<close> is read from the source slice and written
  to the same index of the new one.
\<close>

fun copy_loop ::
  "(ObjectMeta \<Rightarrow> ObjectMeta) \<Rightarrow> slice \<Rightarrow> slice \<Rightarrow> nat list \<Rightarrow> object_heap \<Rightarrow> object_heap" where
  "copy_loop meta_copy src dst [] h = h"
| "copy_loop meta_copy src dst (i # is) h =
     (let (b, h1) = LdapGroupBinding_DeepCopyInto meta_copy (slice_elems (oh_bindings h) src ! i) h
      in copy_loop meta_copy src dst is (h1\<lparr>oh_bindings := slice_set (oh_bindings h1) dst i b\<rparr>))"

definition LdapGroupBindingList_DeepCopyInto ::
  "(ObjectMeta \<Rightarrow> ObjectMeta) \<Rightarrow> (ListMeta \<Rightarrow> ListMeta) \<Rightarrow> list_mem \<Rightarrow> object_heap \<Rightarrow> list_mem \<times> object_heap" where
  "LdapGroupBindingList_DeepCopyInto meta_copy list_copy src h =
     (let out = src;
          out1 = out\<lparr>lmem_TypeMeta := lmem_TypeMeta src\<rparr>;
          out2 = out1\<lparr>lmem_ListMeta := list_copy (lmem_ListMeta src)\<rparr>
      in case lmem_Items src of
           None \<Rightarrow> (out2, h)
         | Some s \<Rightarrow>
             (let (st1, d) = make_slice zero_binding (sl_len s) (oh_bindings h);
                  h1 = copy_loop meta_copy s d [0..< sl_len s] (h\<lparr>oh_bindings := st1\<rparr>)
              in (out2\<lparr>lmem_Items := Some d\<rparr>, h1)))"

definition LdapGroupBindingList_DeepCopy ::
  "(ObjectMeta \<Rightarrow> ObjectMeta) \<Rightarrow> (ListMeta \<Rightarrow> ListMeta) \<Rightarrow> list_mem option \<Rightarrow> object_heap \<Rightarrow>
     list_mem option \<times> object_heap" where
  "LdapGroupBindingList_DeepCopy meta_copy list_copy src h =
     (case src of
        None \<Rightarrow> (None, h)
      | Some l \<Rightarrow> (let (out, h') = LdapGroupBindingList_DeepCopyInto meta_copy list_copy l h in (Some out, h')))"

text \<open>\<open>DeepCopyObject\<close> returns the copy in an interface, nil for a nil receiver.\<close>

datatype runtime_Object = BindingObject binding_mem | ListObject list_mem

definition LdapGroupBinding_DeepCopyObject ::
  "(ObjectMeta \<Rightarrow> ObjectMeta) \<Rightarrow> binding_mem option \<Rightarrow> object_heap \<Rightarrow> runtime_Object option \<times> object_heap" where
  "LdapGroupBinding_DeepCopyObject meta_copy src h =
     (case LdapGroupBinding_DeepCopy meta_copy src h of
        (Some c, h') \<Rightarrow> (Some (BindingObject c), h')
      | (None, h') \<Rightarrow> (None, h'))"

definition LdapGroupBindingList_DeepCopyObject ::
  "(ObjectMeta \<Rightarrow> ObjectMeta) \<Rightarrow> (ListMeta \<Rightarrow> ListMeta) \<Rightarrow> list_mem option \<Rightarrow> object_heap \<Rightarrow>
     runtime_Object option \<times> object_heap" where
  "LdapGroupBindingList_DeepCopyObject meta_copy list_copy src h =
     (case LdapGroupBindingList_DeepCopy meta_copy list_copy src h of
        (Some c, h') \<Rightarrow> (Some (ListObject c), h')
      | (None, h') \<Rightarrow> (None, h'))"

section \<open>What an object stands for\<close>

definition spec_ok :: "object_heap \<Rightarrow> spec_mem \<Rightarrow> bool" where
  "spec_ok h s \<longleftrightarrow> (case smem_Bindings s of None \<Rightarrow> True | Some sl \<Rightarrow> slice_ok (oh_items h) sl)"

definition spec_value :: "object_heap \<Rightarrow> spec_mem \<Rightarrow> string \<times> LdapGroupBindingItem list option" where
  "spec_value h s = (smem_LdapGroupDN s, map_option (slice_elems (oh_items h)) (smem_Bindings s))"

definition binding_value ::
  "object_heap \<Rightarrow> binding_mem \<Rightarrow> TypeMeta \<times> ObjectMeta \<times> string \<times> LdapGroupBindingItem list option" where
  "binding_value h b = (bmem_TypeMeta b, bmem_ObjectMeta b, spec_value h (bmem_Spec b))"

lemma bindings_irrelevant [simp]:
  "spec_ok (h\<lparr>oh_bindings := st\<rparr>) s = spec_ok h s"
  "spec_value (h\<lparr>oh_bindings := st\<rparr>) s = spec_value h s"
  "binding_value (h\<lparr>oh_bindings := st\<rparr>) b = binding_value h b"
  by (simp_all add: spec_ok_def spec_value_def binding_value_def split: option.split)

abbreviation binding_ok :: "object_heap \<Rightarrow> binding_mem \<Rightarrow> bool" where
  "binding_ok h b \<equiv> spec_ok h (bmem_Spec b)"

text \<open>\<open>item_array s a\<close>: the items of the object are in the array at \<open>a\<close>.\<close>

definition item_array :: "spec_mem \<Rightarrow> nat option" where
  "item_array s = map_option sl_arr (smem_Bindings s)"

section \<open>Arrays before and after\<close>

text \<open>
  \<open>extends st st'\<close>: every array of \<open>st\<close> is still what it was in \<open>st'\<close>, which may have more.
\<close>

definition extends :: "'a store \<Rightarrow> 'a store \<Rightarrow> bool" where
  "extends st st' \<longleftrightarrow> st_next st \<le> st_next st' \<and> (\<forall>a < st_next st. st_arrays st' a = st_arrays st a)"

lemma extends_refl: "extends st st"
  by (simp add: extends_def)

lemma extends_trans: "extends st st' \<Longrightarrow> extends st' st'' \<Longrightarrow> extends st st''"
  by (simp add: extends_def)

lemma extends_elems:
  assumes "extends st st'" and "slice_ok st s"
  shows "slice_elems st' s = slice_elems st s" and "slice_ok st' s"
  using assms by (auto simp: extends_def slice_ok_def slice_elems_def)

lemma make_copy:
  assumes "slice_ok st s" and "make_slice zero (sl_len s) st = (st1, d)"
  shows "extends st (copy_slice d s st1)" and "slice_elems (copy_slice d s st1) d = slice_elems st s"
    and "slice_ok (copy_slice d s st1) d" and "sl_arr d = st_next st"
    and "st_next (copy_slice d s st1) = Suc (st_next st)"
  using assms by (auto simp: make_slice_def copy_slice_def extends_def slice_ok_def slice_elems_def)

lemma spec_value_extends:
  assumes "extends (oh_items h) (oh_items h')" and "spec_ok h s"
  shows "spec_value h' s = spec_value h s" and "spec_ok h' s"
  using assms extends_elems [OF assms(1)]
  by (auto simp: spec_value_def spec_ok_def split: option.splits)

section \<open>A copied specification\<close>

lemma spec_copy:
  assumes "spec_ok h s" and "LdapGroupBindingSpec_DeepCopyInto s h = (out, h')"
  shows "spec_value h' out = spec_value h s" and "spec_ok h' out"
    and "extends (oh_items h) (oh_items h')" and "oh_bindings h' = oh_bindings h"
    and "\<And>a. item_array out = Some a \<Longrightarrow> st_next (oh_items h) \<le> a"
proof -
  have "spec_value h' out = spec_value h s \<and> spec_ok h' out \<and> extends (oh_items h) (oh_items h') \<and>
      oh_bindings h' = oh_bindings h \<and> (\<forall>a. item_array out = Some a \<longrightarrow> st_next (oh_items h) \<le> a)"
  proof (cases "smem_Bindings s")
    case None
    then show ?thesis
      using assms by (simp add: LdapGroupBindingSpec_DeepCopyInto_def spec_value_def spec_ok_def
          extends_refl item_array_def)
  next
    case (Some sl)
    obtain st1 d where m: "make_slice zero_item (sl_len sl) (oh_items h) = (st1, d)" by fastforce
    have "slice_ok (oh_items h) sl" using assms(1) Some by (simp add: spec_ok_def)
    from make_copy [OF this m] show ?thesis
      using assms(2) Some m
      by (auto simp: LdapGroupBindingSpec_DeepCopyInto_def spec_value_def spec_ok_def item_array_def)
  qed
  then show "spec_value h' out = spec_value h s" and "spec_ok h' out"
    and "extends (oh_items h) (oh_items h')" and "oh_bindings h' = oh_bindings h"
    and "\<And>a. item_array out = Some a \<Longrightarrow> st_next (oh_items h) \<le> a" by simp_all
qed

lemma binding_copy:
  assumes "binding_ok h b" and "LdapGroupBinding_DeepCopyInto meta_copy b h = (out, h')"
    and "\<And>m. meta_copy m = m"
  shows "binding_value h' out = binding_value h b" and "binding_ok h' out"
    and "extends (oh_items h) (oh_items h')" and "oh_bindings h' = oh_bindings h"
    and "\<And>a. item_array (bmem_Spec out) = Some a \<Longrightarrow> st_next (oh_items h) \<le> a"
proof -
  obtain spec where s: "LdapGroupBindingSpec_DeepCopyInto (bmem_Spec b) h = (spec, h')"
    and out: "out = b\<lparr>bmem_Spec := spec\<rparr>"
    using assms(2,3) by (auto simp: LdapGroupBinding_DeepCopyInto_def split: prod.splits)
  note copy = spec_copy [OF assms(1) s]
  show "binding_value h' out = binding_value h b" "binding_ok h' out"
    using copy(1,2) out by (simp_all add: binding_value_def)
  show "extends (oh_items h) (oh_items h')" "oh_bindings h' = oh_bindings h" using copy(3,4) .
  show "\<And>a. item_array (bmem_Spec out) = Some a \<Longrightarrow> st_next (oh_items h) \<le> a"
    using copy(5) out by simp
qed

section \<open>A copied list\<close>

lemma binding_value_extends:
  assumes "extends (oh_items h) (oh_items h')" and "binding_ok h b"
  shows "binding_value h' b = binding_value h b" and "binding_ok h' b"
  using spec_value_extends [OF assms] by (simp_all add: binding_value_def)

text \<open>
  What the loop does to the new array: the indices visited hold copies with fresh items, the
  others are as before, and nothing else changes.
\<close>

definition copied :: "object_heap \<Rightarrow> object_heap \<Rightarrow> binding_mem \<Rightarrow> binding_mem \<Rightarrow> bool" where
  "copied h h' b c \<longleftrightarrow> binding_value h' c = binding_value h b \<and> binding_ok h' c \<and>
     (\<forall>a. item_array (bmem_Spec c) = Some a \<longrightarrow> st_next (oh_items h) \<le> a)"

lemma copied_later:
  assumes "copied h h1 b c" and "extends (oh_items h1) (oh_items h2)"
  shows "copied h h2 b c"
  using assms binding_value_extends [OF assms(2)] by (simp add: copied_def)

lemma copied_earlier:
  assumes "copied h1 h2 b c" and "extends (oh_items h) (oh_items h1)" and "binding_ok h b"
  shows "copied h h2 b c"
  using assms binding_value_extends [OF assms(2,3)] by (auto simp: copied_def extends_def)

definition loop_copied :: "object_heap \<Rightarrow> slice \<Rightarrow> slice \<Rightarrow> nat list \<Rightarrow> object_heap \<Rightarrow> bool" where
  "loop_copied h src dst xs h' \<longleftrightarrow>
     extends (oh_items h) (oh_items h') \<and> slice_ok (oh_bindings h') dst \<and>
     (\<forall>a. a \<noteq> sl_arr dst \<longrightarrow> st_arrays (oh_bindings h') a = st_arrays (oh_bindings h) a) \<and>
     st_next (oh_bindings h') = st_next (oh_bindings h) \<and>
     (\<forall>j < sl_len dst. if j \<in> set xs
        then copied h h' (slice_elems (oh_bindings h) src ! j) (slice_elems (oh_bindings h') dst ! j)
        else slice_elems (oh_bindings h') dst ! j = slice_elems (oh_bindings h) dst ! j)"

text \<open>
  What the loop works on: a source whose bindings are valid, a new array of the same length,
  and indices inside it that are visited once.
\<close>

definition loop_ready :: "object_heap \<Rightarrow> slice \<Rightarrow> slice \<Rightarrow> nat list \<Rightarrow> bool" where
  "loop_ready h src dst xs \<longleftrightarrow>
     slice_ok (oh_bindings h) src \<and> slice_ok (oh_bindings h) dst \<and> sl_arr dst \<noteq> sl_arr src \<and>
     sl_len dst = sl_len src \<and> (\<forall>b\<in>set (slice_elems (oh_bindings h) src). binding_ok h b) \<and>
     distinct xs \<and> (\<forall>i\<in>set xs. i < sl_len src)"

text \<open>One round: the copy of the binding at \<open>i\<close> is stored at \<open>i\<close> of the new array.\<close>

lemma copy_round:
  assumes ready: "loop_ready h src dst (i # xs)"
    and c: "LdapGroupBinding_DeepCopyInto meta_copy (slice_elems (oh_bindings h) src ! i) h = (c, h1)"
    and meta: "\<And>m. meta_copy m = m"
    and h2: "h2 = h1\<lparr>oh_bindings := slice_set (oh_bindings h1) dst i c\<rparr>"
  shows "slice_elems (oh_bindings h2) src = slice_elems (oh_bindings h) src"
    and "slice_elems (oh_bindings h2) dst = (slice_elems (oh_bindings h) dst)[i := c]"
    and "extends (oh_items h) (oh_items h2)"
    and "copied h h2 (slice_elems (oh_bindings h) src ! i) c"
    and "st_next (oh_bindings h2) = st_next (oh_bindings h)"
    and "a \<noteq> sl_arr dst \<Longrightarrow> st_arrays (oh_bindings h2) a = st_arrays (oh_bindings h) a"
    and "loop_ready h2 src dst xs"
proof -
  have r: "slice_ok (oh_bindings h) src" "slice_ok (oh_bindings h) dst" "sl_arr dst \<noteq> sl_arr src"
    "\<forall>b\<in>set (slice_elems (oh_bindings h) src). binding_ok h b" "i < sl_len src"
    using ready by (simp_all add: loop_ready_def)
  have "binding_ok h (slice_elems (oh_bindings h) src ! i)"
    using r(4,5) length_slice_elems [OF r(1)] by simp
  note copy = binding_copy [OF this c meta]
  show src: "slice_elems (oh_bindings h2) src = slice_elems (oh_bindings h) src"
    using copy(4) r(3) h2 by (simp add: slice_set_other)
  show "slice_elems (oh_bindings h2) dst = (slice_elems (oh_bindings h) dst)[i := c]"
    using copy(4) h2 by (simp add: slice_set_elems)
  show ext: "extends (oh_items h) (oh_items h2)" using copy(3) h2 by simp
  show "copied h h2 (slice_elems (oh_bindings h) src ! i) c"
    using copy(1,2,5) h2 by (simp add: copied_def)
  show "st_next (oh_bindings h2) = st_next (oh_bindings h)" using copy(4) h2 by (simp add: slice_set_def)
  show "a \<noteq> sl_arr dst \<Longrightarrow> st_arrays (oh_bindings h2) a = st_arrays (oh_bindings h) a"
    using copy(4) h2 by (simp add: slice_set_def)
  have "\<forall>x\<in>set (slice_elems (oh_bindings h2) src). binding_ok h2 x"
    using r(4) src binding_value_extends(2) [OF ext] by simp
  then show "loop_ready h2 src dst xs"
    using ready copy(4) h2 by (simp add: loop_ready_def slice_set_ok)
qed

lemma copy_loop_spec:
  assumes "loop_ready h src dst xs" and meta: "\<And>m. meta_copy m = m"
    and "copy_loop meta_copy src dst xs h = h'"
  shows "loop_copied h src dst xs h'"
  using assms(1,3)
proof (induction xs arbitrary: h)
  case Nil
  then show ?case by (simp add: loop_copied_def loop_ready_def extends_refl)
next
  case (Cons i xs)
  let ?src = "slice_elems (oh_bindings h) src" and ?dst = "slice_elems (oh_bindings h') dst"
  obtain c h1 where c: "LdapGroupBinding_DeepCopyInto meta_copy (?src ! i) h = (c, h1)" by fastforce
  define h2 where "h2 = h1\<lparr>oh_bindings := slice_set (oh_bindings h1) dst i c\<rparr>"
  note round = copy_round [OF Cons.prems(1) c meta h2_def]
  have "copy_loop meta_copy src dst xs h2 = h'" using Cons.prems(2) c by (simp add: h2_def)
  from Cons.IH [OF round(7) this]
  have ext: "extends (oh_items h2) (oh_items h')"
    and ok: "slice_ok (oh_bindings h') dst"
    and others: "\<And>a. a \<noteq> sl_arr dst \<Longrightarrow> st_arrays (oh_bindings h') a = st_arrays (oh_bindings h2) a"
    and next': "st_next (oh_bindings h') = st_next (oh_bindings h2)"
    and visited: "\<And>j. j < sl_len dst \<Longrightarrow> j \<in> set xs \<Longrightarrow> copied h2 h' (?src ! j) (?dst ! j)"
    and left: "\<And>j. j < sl_len dst \<Longrightarrow> j \<notin> set xs \<Longrightarrow>
      ?dst ! j = (slice_elems (oh_bindings h) dst)[i := c] ! j"
    unfolding loop_copied_def round(1,2) by simp_all
  have r: "sl_len dst = sl_len src" "i < sl_len src" "i \<notin> set xs" "\<forall>b\<in>set ?src. binding_ok h b"
    "length ?src = sl_len src" "length (slice_elems (oh_bindings h) dst) = sl_len dst"
    using Cons.prems(1) by (simp_all add: loop_ready_def length_slice_elems)
  have "copied h h' (?src ! i) (?dst ! i)"
    using copied_later [OF round(4) ext] left [of i] r by simp
  moreover have "copied h h' (?src ! j) (?dst ! j)" if "j < sl_len dst" "j \<in> set xs" for j
    using copied_earlier [OF visited [OF that] round(3)] that r by simp
  ultimately show ?case
    using extends_trans [OF round(3) ext] ok others round(5,6) next' left
    by (simp add: loop_copied_def)
qed

definition items_of :: "object_heap \<Rightarrow> list_mem \<Rightarrow> binding_mem list option" where
  "items_of h l = map_option (slice_elems (oh_bindings h)) (lmem_Items l)"

definition list_ok :: "object_heap \<Rightarrow> list_mem \<Rightarrow> bool" where
  "list_ok h l \<longleftrightarrow> (case lmem_Items l of None \<Rightarrow> True
     | Some s \<Rightarrow> slice_ok (oh_bindings h) s \<and> (\<forall>b\<in>set (slice_elems (oh_bindings h) s). binding_ok h b))"

text \<open>The array the loop fills is new, and holds what the source held.\<close>

lemma copy_into_new_array:
  assumes s: "slice_ok (oh_bindings h) s" "\<forall>b\<in>set (slice_elems (oh_bindings h) s). binding_ok h b"
    and m: "make_slice zero_binding (sl_len s) (oh_bindings h) = (st1, d)"
    and run: "copy_loop meta_copy s d [0..< sl_len s] (h\<lparr>oh_bindings := st1\<rparr>) = h'"
    and meta: "\<And>m. meta_copy m = m"
  shows "extends (oh_items h) (oh_items h')" and "extends (oh_bindings h) (oh_bindings h')"
    and "list_all2 (copied h h') (slice_elems (oh_bindings h) s) (slice_elems (oh_bindings h') d)"
proof -
  let ?h1 = "h\<lparr>oh_bindings := st1\<rparr>"
  have d: "sl_arr d = st_next (oh_bindings h)" "sl_len d = sl_len s" "slice_ok st1 d"
    and ext: "extends (oh_bindings h) st1" and next': "st_next st1 = Suc (st_next (oh_bindings h))"
    using m by (auto simp: make_slice_def slice_ok_def extends_def)
  have elems: "slice_elems st1 s = slice_elems (oh_bindings h) s" "slice_ok st1 s"
    using extends_elems [OF ext s(1)] by simp_all
  have "loop_ready ?h1 s d [0..< sl_len s]"
    using s d elems by (auto simp: loop_ready_def slice_ok_def)
  from copy_loop_spec [OF this meta run]
  have loop: "loop_copied ?h1 s d [0..< sl_len s] h'" .
  then show "extends (oh_items h) (oh_items h')" by (simp add: loop_copied_def)
  show "extends (oh_bindings h) (oh_bindings h')"
    using ext loop d(1) by (simp add: extends_def loop_copied_def)
  show "list_all2 (copied h h') (slice_elems (oh_bindings h) s) (slice_elems (oh_bindings h') d)"
  proof (rule list_all2_all_nthI)
    show "length (slice_elems (oh_bindings h) s) = length (slice_elems (oh_bindings h') d)"
      using length_slice_elems [OF s(1)] length_slice_elems [of "oh_bindings h'" d] loop d(2)
      by (simp add: loop_copied_def)
  next
    fix j
    assume "j < length (slice_elems (oh_bindings h) s)"
    then have "j < sl_len s" using length_slice_elems [OF s(1)] by simp
    then have "copied ?h1 h' (slice_elems st1 s ! j) (slice_elems (oh_bindings h') d ! j)"
      using loop d(2) by (simp add: loop_copied_def)
    then show "copied h h' (slice_elems (oh_bindings h) s ! j) (slice_elems (oh_bindings h') d ! j)"
      using elems by (simp add: copied_def)
  qed
qed

lemma list_copy_spec:
  assumes ok: "list_ok h l" and run: "LdapGroupBindingList_DeepCopyInto meta_copy list_copy l h = (out, h')"
    and meta: "\<And>m. meta_copy m = m"
  shows "extends (oh_items h) (oh_items h')" and "extends (oh_bindings h) (oh_bindings h')"
    and "rel_option (list_all2 (copied h h')) (items_of h l) (items_of h' out)"
    and "\<And>s. lmem_Items out = Some s \<Longrightarrow> st_next (oh_bindings h) \<le> sl_arr s"
proof -
  have "extends (oh_items h) (oh_items h') \<and> extends (oh_bindings h) (oh_bindings h') \<and>
      rel_option (list_all2 (copied h h')) (items_of h l) (items_of h' out) \<and>
      (\<forall>s. lmem_Items out = Some s \<longrightarrow> st_next (oh_bindings h) \<le> sl_arr s)"
  proof (cases "lmem_Items l")
    case None
    then show ?thesis
      using run by (auto simp: LdapGroupBindingList_DeepCopyInto_def items_of_def extends_refl)
  next
    case (Some s)
    obtain st1 d where m: "make_slice zero_binding (sl_len s) (oh_bindings h) = (st1, d)" by fastforce
    have s: "slice_ok (oh_bindings h) s" "\<forall>b\<in>set (slice_elems (oh_bindings h) s). binding_ok h b"
      using ok Some by (simp_all add: list_ok_def)
    have "copy_loop meta_copy s d [0..< sl_len s] (h\<lparr>oh_bindings := st1\<rparr>) = h'"
      and "lmem_Items out = Some d" and "sl_arr d = st_next (oh_bindings h)"
      using run Some m by (auto simp: LdapGroupBindingList_DeepCopyInto_def Let_def make_slice_def)
    then show ?thesis using copy_into_new_array [OF s m _ meta] Some by (simp add: items_of_def)
  qed
  then show "extends (oh_items h) (oh_items h')" and "extends (oh_bindings h) (oh_bindings h')"
    and "rel_option (list_all2 (copied h h')) (items_of h l) (items_of h' out)"
    and "\<And>s. lmem_Items out = Some s \<Longrightarrow> st_next (oh_bindings h) \<le> sl_arr s" by simp_all
qed

lemma DeepCopy_Some:
  "\<exists>c h'. LdapGroupBinding_DeepCopy meta_copy (Some b) h = (Some c, h')"
  "\<exists>c h'. LdapGroupBindingList_DeepCopy meta_copy list_copy (Some l) h = (Some c, h')"
  by (simp_all add: LdapGroupBinding_DeepCopy_def LdapGroupBindingList_DeepCopy_def case_prod_beta)

end
