(* ===== verification/TypedClient.thy ===== *)
theory TypedClient
  imports GeneratedClient DeepCopy InformerFactory
begin

text \<open>
  What the generated client set hands out: its scheme (\<open>scheme/register.go\<close> under
  \<open>k8s/generated/clientset/versioned\<close>), the typed client of the custom resource
  (\<open>typed/rbac.kerbernetes.io/v1/ldapgroupbinding.go\<close>), the lister (\<open>k8s/generated/listers\<close>),
  and the schema parser behind the apply configurations (\<open>applyconfiguration/internal\<close> and
  \<open>applyconfiguration/utils.go\<close>). The generic types of the client library that they
  instantiate are parameters.
\<close>

section \<open>The scheme of the client set\<close>

text \<open>
  A scheme builder is a list of functions that register types with a scheme, each of which may
  fail; \<open>AddToScheme\<close> applies them in order up to the first error.
\<close>

type_synonym SchemeBuilder = "(scheme, string, unit) action list"

definition AddToScheme :: "SchemeBuilder \<Rightarrow> (scheme, string, unit) action" where
  "AddToScheme builder = for_each (\<lambda>f. f) builder"

text \<open>\<open>SchemeBuilder\<close> of \<open>k8s/api\<close>: the one function \<open>addKnownTypes\<close>, which returns nil.\<close>

definition api_SchemeBuilder :: "(GroupVersion \<Rightarrow> scheme \<Rightarrow> scheme) \<Rightarrow> SchemeBuilder" where
  "api_SchemeBuilder AddToGroupVersion = [\<lambda>s. (Inr (), addKnownTypes AddToGroupVersion s)]"

definition localSchemeBuilder :: "(GroupVersion \<Rightarrow> scheme \<Rightarrow> scheme) \<Rightarrow> SchemeBuilder" where
  "localSchemeBuilder AddToGroupVersion = [AddToScheme (api_SchemeBuilder AddToGroupVersion)]"

text \<open>The package's variable \<open>Scheme\<close> after \<open>init\<close>; \<open>None\<close> is the panic of \<open>utilruntime.Must\<close>.\<close>

definition init_Scheme :: "(GroupVersion \<Rightarrow> scheme \<Rightarrow> scheme) \<Rightarrow> scheme option" where
  "init_Scheme AddToGroupVersion =
     (let s = AddToGroupVersion \<lparr>gv_Group = '''', gv_Version = ''v1''\<rparr> [] in
      case AddToScheme (localSchemeBuilder AddToGroupVersion) s of
        (Inl err, s1) \<Rightarrow> None
      | (Inr _, s1) \<Rightarrow> Some s1)"

section \<open>The typed client\<close>

definition zero_list :: list_mem where
  "zero_list = \<lparr>lmem_TypeMeta = \<lparr>tm_Kind = '''', tm_APIVersion = ''''\<rparr>,
     lmem_ListMeta = \<lparr>lm_ResourceVersion = '''', lm_Continue = ''''\<rparr>, lmem_Items = None\<rparr>"

text \<open>
  \<open>NewClient\<close> is \<open>gentype.NewClientWithListAndApply\<close>: the resource, the REST client, the codec of
  the parameters, the namespace, and the functions that make a new object and a new list.
\<close>

type_synonym ('r, 'p, 'c) new_client =
  "string \<Rightarrow> 'r option \<Rightarrow> 'p \<Rightarrow> string \<Rightarrow> (unit \<Rightarrow> binding_mem) \<Rightarrow> (unit \<Rightarrow> list_mem) \<Rightarrow> 'c"

text \<open>The typed client embeds the generic one.\<close>

record 'c ldapGroupBindings =
  lgc_Client :: 'c

definition newLdapGroupBindings ::
  "('r, 'p, 'c) new_client \<Rightarrow> 'p \<Rightarrow> 'r RbacKerbernetesV1Client option \<Rightarrow> 'c ldapGroupBindings" where
  "newLdapGroupBindings NewClient ParameterCodec c =
     \<lparr>lgc_Client = NewClient ''ldapgroupbindings'' (RESTClient c) ParameterCodec ''''
        (\<lambda>_. zero_binding) (\<lambda>_. zero_list)\<rparr>"

definition Client_LdapGroupBindings ::
  "('r, 'p, 'c) new_client \<Rightarrow> 'p \<Rightarrow> 'r RbacKerbernetesV1Client option \<Rightarrow> 'c ldapGroupBindings" where
  "Client_LdapGroupBindings NewClient ParameterCodec c = newLdapGroupBindings NewClient ParameterCodec c"

section \<open>The lister\<close>

text \<open>\<open>NewResourceIndexer\<close> is \<open>listers.New\<close>, \<open>GetIndexer\<close> the store of an informer.\<close>

record 'x ldapGroupBindingLister =
  lgl_ResourceIndexer :: 'x

definition NewLdapGroupBindingLister ::
  "('i \<Rightarrow> GroupResource \<Rightarrow> 'x) \<Rightarrow> 'i \<Rightarrow> 'x ldapGroupBindingLister" where
  "NewLdapGroupBindingLister NewResourceIndexer indexer =
     \<lparr>lgl_ResourceIndexer = NewResourceIndexer indexer (Resource ''ldapgroupbinding'')\<rparr>"

definition Lister ::
  "('i \<Rightarrow> GroupResource \<Rightarrow> 'x) \<Rightarrow> (addr \<Rightarrow> 'i) \<Rightarrow> ldapGroupBindingInformer \<Rightarrow> sharedInformerFactory \<Rightarrow>
     informer_heap \<Rightarrow> 'x ldapGroupBindingLister \<times> sharedInformerFactory \<times> informer_heap" where
  "Lister NewResourceIndexer GetIndexer i f h =
     (case Informer i f h of
        (informer, f', h') \<Rightarrow> (NewLdapGroupBindingLister NewResourceIndexer (GetIndexer informer), f', h'))"

definition generic_Lister :: "('i \<Rightarrow> GroupResource \<Rightarrow> 'g) \<Rightarrow> (addr \<Rightarrow> 'i) \<Rightarrow> genericInformer \<Rightarrow> 'g" where
  "generic_Lister NewGenericLister GetIndexer g = NewGenericLister (GetIndexer (gi_informer g)) (gi_resource g)"

section \<open>The parser of the schema\<close>

definition lines_of :: "string list \<Rightarrow> string" where
  "lines_of ls = concat (map (\<lambda>l. l @ [CHR 0x0A]) ls)"

definition schemaYAML :: string where
  "schemaYAML = lines_of
     [''types:'',
      ''- name: __untyped_atomic_'',
      ''  scalar: untyped'',
      ''  list:'',
      ''    elementType:'',
      ''      namedType: __untyped_atomic_'',
      ''    elementRelationship: atomic'',
      ''  map:'',
      ''    elementType:'',
      ''      namedType: __untyped_atomic_'',
      ''    elementRelationship: atomic'',
      ''- name: __untyped_deduced_'',
      ''  scalar: untyped'',
      ''  list:'',
      ''    elementType:'',
      ''      namedType: __untyped_atomic_'',
      ''    elementRelationship: atomic'',
      ''  map:'',
      ''    elementType:'',
      ''      namedType: __untyped_deduced_'',
      ''    elementRelationship: separable'']"

text \<open>
  The two variables of the package. \<open>sync.Once\<close> counts its function as run when that panics too;
  \<open>None\<close> is the nil pointer. \<open>NewParser\<close> is \<open>typed.NewParser\<close>, on a world so that its calls can be
  told apart; it returns a pointer and an error.
\<close>

record 'p parser_state =
  parserOnce :: bool
  parser :: "'p option"

definition initial_parser :: "'p parser_state" where
  "initial_parser = \<lparr>parserOnce = False, parser = None\<rparr>"

type_synonym ('p, 'w) new_parser = "string \<Rightarrow> 'w \<Rightarrow> ('p option \<times> string option) \<times> 'w"

text \<open>\<open>Inl\<close> is the panic with its message.\<close>

definition Parser :: "('p, 'w) new_parser \<Rightarrow> ('p parser_state \<times> 'w, string, 'p option) action" where
  "Parser NewParser st =
     (let (ps, w) = st in
      if parserOnce ps then (Inr (parser ps), st)
      else
        (case NewParser schemaYAML w of
           ((p, err), w') \<Rightarrow>
             (let st' = (ps\<lparr>parserOnce := True, parser := p\<rparr>, w') in
              case err of
                Some e \<Rightarrow> (Inl (''Failed to parse schema: '' @ e), st')
              | None \<Rightarrow> (Inr p, st'))))"

text \<open>\<open>NewSchemeTypeConverter\<close> is the library's; it takes the parser's pointer.\<close>

definition NewTypeConverter ::
  "(scheme \<Rightarrow> 'p option \<Rightarrow> 't) \<Rightarrow> ('p, 'w) new_parser \<Rightarrow> scheme \<Rightarrow>
     ('p parser_state \<times> 'w, string, 't) action" where
  "NewTypeConverter NewSchemeTypeConverter NewParser s st =
     (case Parser NewParser st of
        (Inl msg, st') \<Rightarrow> (Inl msg, st')
      | (Inr p, st') \<Rightarrow> (Inr (NewSchemeTypeConverter s p), st'))"

section \<open>Facts\<close>

text \<open>
  What the code relies on of \<open>AddToGroupVersion\<close>: it registers the library's own kinds and leaves
  the two kinds of the custom resource as they are.
\<close>

definition adds_meta_kinds :: "(GroupVersion \<Rightarrow> scheme \<Rightarrow> scheme) \<Rightarrow> bool" where
  "adds_meta_kinds A \<longleftrightarrow>
     (\<forall>gv s n. n \<in> {''LdapGroupBinding'', ''LdapGroupBindingList''} \<longrightarrow>
        map_of (A gv s) (WithKind SchemeGroupVersion n) = map_of s (WithKind SchemeGroupVersion n))"

lemma init_Scheme_run:
  "init_Scheme A = Some (addKnownTypes A (A \<lparr>gv_Group = '''', gv_Version = ''v1''\<rparr> []))"
  by (simp add: init_Scheme_def localSchemeBuilder_def api_SchemeBuilder_def AddToScheme_def Let_def)

lemma addKnownTypes_kinds:
  assumes "adds_meta_kinds A" and "n \<in> {''LdapGroupBinding'', ''LdapGroupBindingList''}"
  shows "map_of (addKnownTypes A s) (WithKind SchemeGroupVersion n) = Some n"
proof -
  have "map_of (addKnownTypes A s) (WithKind SchemeGroupVersion n) =
      map_of (AddKnownTypes SchemeGroupVersion [''LdapGroupBinding'', ''LdapGroupBindingList''] s)
        (WithKind SchemeGroupVersion n)"
    using assms unfolding adds_meta_kinds_def addKnownTypes_def by blast
  also have "\<dots> = Some n"
    using assms(2) by (auto simp: AddKnownTypes_def update_conv' WithKind_def)
  finally show ?thesis .
qed

text \<open>The calls of \<open>Parser\<close> one after the other, with what each gives.\<close>

fun call_Parser ::
  "('p, 'w) new_parser \<Rightarrow> nat \<Rightarrow> 'p parser_state \<times> 'w \<Rightarrow>
     (string + 'p option) list \<times> 'p parser_state \<times> 'w" where
  "call_Parser NewParser 0 st = ([], st)"
| "call_Parser NewParser (Suc n) st =
     (let (r, st1) = Parser NewParser st; (rs, st2) = call_Parser NewParser n st1 in (r # rs, st2))"

lemma Parser_done:
  "parserOnce ps \<Longrightarrow> call_Parser NewParser n (ps, w) = (replicate n (Inr (parser ps)), (ps, w))"
  by (induction n) (simp_all add: Parser_def)

lemma Parser_first:
  assumes "NewParser schemaYAML w = ((p, err), w')"
  shows "Parser NewParser (initial_parser, w) =
    (case err of Some e \<Rightarrow> Inl (''Failed to parse schema: '' @ e) | None \<Rightarrow> Inr p,
     \<lparr>parserOnce = True, parser = p\<rparr>, w')"
  using assms by (simp add: Parser_def initial_parser_def split: option.split)

end
