(* ===== verification/FakeClient.thy ===== *)
theory FakeClient
  imports TypedClient
begin

text \<open>
  The fake client set for tests: \<open>fake/clientset_generated.go\<close> and \<open>fake/register.go\<close> under
  \<open>k8s/generated/clientset/versioned\<close>, and the typed fakes under
  \<open>typed/rbac.kerbernetes.io/v1/fake\<close>. The object tracker and the generic fakes of the client
  library are parameters. A fake client set embeds the record of reactions, and the clients
  it hands out hold a pointer to it, so these records live in a heap.
\<close>

section \<open>State\<close>

text \<open>An action on the fake, by its dynamic type: only \<open>WatchActionImpl\<close> carries list options.\<close>

datatype fake_action =
    WatchActionImpl GroupVersionResource string ListOptions
  | OtherAction GroupVersionResource string

fun GetResource :: "fake_action \<Rightarrow> GroupVersionResource" where
  "GetResource (WatchActionImpl gvr ns opts) = gvr"
| "GetResource (OtherAction gvr ns) = gvr"

fun GetNamespace_of :: "fake_action \<Rightarrow> string" where
  "GetNamespace_of (WatchActionImpl gvr ns opts) = ns"
| "GetNamespace_of (OtherAction gvr ns) = ns"

text \<open>The results of a watch reaction: handled, the watch, the error.\<close>

type_synonym ('v, 'w) watch_reaction = "fake_action \<Rightarrow> 'w \<Rightarrow> (bool \<times> 'v option \<times> string option) \<times> 'w"

text \<open>The chains of \<open>testing.Fake\<close>: verb, resource and reaction; resource and watch reaction.\<close>

record ('e, 'v, 'w) Fake =
  fk_ReactionChain :: "(string \<times> string \<times> 'e) list"
  fk_WatchReactionChain :: "(string \<times> ('v, 'w) watch_reaction) list"

record ('e, 'v, 'w) fake_heap =
  fh_next :: addr
  fh_fakes :: "addr \<Rightarrow> ('e, 'v, 'w) Fake option"

text \<open>The state of a test process: the schema parser, the reactions, the rest of the world.\<close>

type_synonym ('p, 'e, 'v, 'w) fake_state = "('p parser_state \<times> 'w) \<times> ('e, 'v, 'w) fake_heap"

record ('o, 'd, 't, 'b, 'e, 'p, 'v, 'w) testing_lib =
  tl_UniversalDecoder :: "scheme \<Rightarrow> 'd"
  tl_NewObjectTracker :: "scheme \<Rightarrow> 'd \<Rightarrow> 'w \<Rightarrow> 'o \<times> 'w"
  tl_NewFieldManagedObjectTracker :: "scheme \<Rightarrow> 'd \<Rightarrow> 't \<Rightarrow> 'w \<Rightarrow> 'o \<times> 'w"
  tl_NewSchemeTypeConverter :: "scheme \<Rightarrow> 'p option \<Rightarrow> 't"
  tl_NewParser :: "('p, 'w) new_parser"
  tl_Add :: "'o \<Rightarrow> 'b \<Rightarrow> ('w, string, unit) action"
  tl_Watch :: "'o \<Rightarrow> GroupVersionResource \<Rightarrow> string \<Rightarrow> ListOptions \<Rightarrow> ('w, string, 'v) action"
  tl_ObjectReaction :: "'o \<Rightarrow> 'e"

definition AddReactor ::
  "addr \<Rightarrow> string \<Rightarrow> string \<Rightarrow> 'e \<Rightarrow> ('e, 'v, 'w) fake_heap \<Rightarrow> ('e, 'v, 'w) fake_heap" where
  "AddReactor a verb resource reaction h =
     h\<lparr>fh_fakes := (fh_fakes h)(a := map_option
         (fk_ReactionChain_update (\<lambda>rs. rs @ [(verb, resource, reaction)])) (fh_fakes h a))\<rparr>"

definition AddWatchReactor ::
  "addr \<Rightarrow> string \<Rightarrow> ('v, 'w) watch_reaction \<Rightarrow> ('e, 'v, 'w) fake_heap \<Rightarrow> ('e, 'v, 'w) fake_heap" where
  "AddWatchReactor a resource reaction h =
     h\<lparr>fh_fakes := (fh_fakes h)(a := map_option
         (fk_WatchReactionChain_update (\<lambda>rs. rs @ [(resource, reaction)])) (fh_fakes h a))\<rparr>"

text \<open>\<open>&Clientset{tracker: o}\<close> embeds an empty \<open>Fake\<close>.\<close>

definition new_fake :: "('e, 'v, 'w) fake_heap \<Rightarrow> addr \<times> ('e, 'v, 'w) fake_heap" where
  "new_fake h = (fh_next h, h\<lparr>fh_next := Suc (fh_next h), fh_fakes := (fh_fakes h)(fh_next h \<mapsto>
     \<lparr>fk_ReactionChain = [], fk_WatchReactionChain = []\<rparr>)\<rparr>)"

section \<open>The scheme\<close>

definition fake_localSchemeBuilder :: "(GroupVersion \<Rightarrow> scheme \<Rightarrow> scheme) \<Rightarrow> SchemeBuilder" where
  "fake_localSchemeBuilder AddToGroupVersion = [AddToScheme (api_SchemeBuilder AddToGroupVersion)]"

definition fake_init :: "(GroupVersion \<Rightarrow> scheme \<Rightarrow> scheme) \<Rightarrow> scheme option" where
  "fake_init AddToGroupVersion =
     (let s = AddToGroupVersion \<lparr>gv_Group = '''', gv_Version = ''v1''\<rparr> [] in
      case AddToScheme (fake_localSchemeBuilder AddToGroupVersion) s of
        (Inl err, s1) \<Rightarrow> None
      | (Inr _, s1) \<Rightarrow> Some s1)"

section \<open>The fake client set\<close>

text \<open>The addresses stand for the embedded \<open>Fake\<close> and for the one the discovery client points to.\<close>

record 'o fake_Clientset =
  fcs_Fake :: addr
  fcs_discovery :: addr
  fcs_tracker :: 'o

definition zero_ListOptions :: ListOptions where
  "zero_ListOptions = \<lparr>lo_LabelSelector = '''', lo_FieldSelector = ''''\<rparr>"

text \<open>The function both constructors register for watches.\<close>

definition watch_reactor ::
  "('o, 'd, 't, 'b, 'e, 'p, 'v, 'w) testing_lib \<Rightarrow> 'o \<Rightarrow> ('v, 'w) watch_reaction" where
  "watch_reactor L o' action w =
     (let opts = (case action of
            WatchActionImpl gvr ns listOptions \<Rightarrow> listOptions
          | OtherAction gvr ns \<Rightarrow> zero_ListOptions);
          gvr = GetResource action;
          ns = GetNamespace_of action
      in case tl_Watch L o' gvr ns opts w of
           (Inl err, w') \<Rightarrow> ((False, None, Some err), w')
         | (Inr watch, w') \<Rightarrow> ((True, Some watch, None), w'))"

text \<open>\<open>Inl\<close> is a panic.\<close>

definition NewSimpleClientset ::
  "('o, 'd, 't, 'b, 'e, 'p, 'v, 'w) testing_lib \<Rightarrow> scheme \<Rightarrow> 'b list \<Rightarrow>
     (('p, 'e, 'v, 'w) fake_state, string, 'o fake_Clientset) action" where
  "NewSimpleClientset L scheme objects st =
     (let ((ps, w), h) = st;
          (o', w1) = tl_NewObjectTracker L scheme (tl_UniversalDecoder L scheme) w
      in case for_each (tl_Add L o') objects w1 of
           (Inl err, w2) \<Rightarrow> (Inl err, ((ps, w2), h))
         | (Inr _, w2) \<Rightarrow>
             (let (a, h1) = new_fake h;
                  cs = \<lparr>fcs_Fake = a, fcs_discovery = a, fcs_tracker = o'\<rparr>;
                  h2 = AddReactor a ''*'' ''*'' (tl_ObjectReaction L o') h1;
                  h3 = AddWatchReactor a ''*'' (watch_reactor L o') h2
              in (Inr cs, ((ps, w2), h3))))"

definition fake_NewClientset ::
  "('o, 'd, 't, 'b, 'e, 'p, 'v, 'w) testing_lib \<Rightarrow> scheme \<Rightarrow> 'b list \<Rightarrow>
     (('p, 'e, 'v, 'w) fake_state, string, 'o fake_Clientset) action" where
  "fake_NewClientset L scheme objects st =
     (let (pw, h) = st in
      case NewTypeConverter (tl_NewSchemeTypeConverter L) (tl_NewParser L) scheme pw of
        (Inl msg, pw1) \<Rightarrow> (Inl msg, (pw1, h))
      | (Inr converter, (ps, w)) \<Rightarrow>
          (let (o', w1) = tl_NewFieldManagedObjectTracker L scheme (tl_UniversalDecoder L scheme) converter w
           in case for_each (tl_Add L o') objects w1 of
                (Inl err, w2) \<Rightarrow> (Inl err, ((ps, w2), h))
              | (Inr _, w2) \<Rightarrow>
                  (let (a, h1) = new_fake h;
                       cs = \<lparr>fcs_Fake = a, fcs_discovery = a, fcs_tracker = o'\<rparr>;
                       h2 = AddReactor a ''*'' ''*'' (tl_ObjectReaction L o') h1;
                       h3 = AddWatchReactor a ''*'' (watch_reactor L o') h2
                   in (Inr cs, ((ps, w2), h3)))))"

definition fake_Discovery :: "'o fake_Clientset \<Rightarrow> addr" where
  "fake_Discovery c = fcs_discovery c"

definition Tracker :: "'o fake_Clientset \<Rightarrow> 'o" where
  "Tracker c = fcs_tracker c"

section \<open>The typed fakes\<close>

record FakeRbacKerbernetesV1 =
  fr_Fake :: addr

definition fake_RbacKerbernetesV1 :: "'o fake_Clientset \<Rightarrow> FakeRbacKerbernetesV1" where
  "fake_RbacKerbernetesV1 c = \<lparr>fr_Fake = fcs_Fake c\<rparr>"

text \<open>
  \<open>NewFakeClient\<close> is \<open>gentype.NewFakeClientWithListAndApply\<close>; a slice of pointers has an arbitrary
  type \<open>'s\<close>, as \<open>ToPointerSlice\<close> and \<open>FromPointerSlice\<close> convert it.
\<close>

record ('s, 'c) gentype_fakes =
  gf_ToPointerSlice :: "slice option \<Rightarrow> 's"
  gf_FromPointerSlice :: "'s \<Rightarrow> slice option"
  gf_NewFakeClient :: "addr \<Rightarrow> string \<Rightarrow> GroupVersionResource \<Rightarrow> GroupVersionKind \<Rightarrow> (unit \<Rightarrow> binding_mem) \<Rightarrow>
    (unit \<Rightarrow> list_mem) \<Rightarrow> (list_mem \<Rightarrow> list_mem \<Rightarrow> list_mem) \<Rightarrow> (list_mem \<Rightarrow> 's) \<Rightarrow> (list_mem \<Rightarrow> 's \<Rightarrow> list_mem) \<Rightarrow> 'c"

record 'c fakeLdapGroupBindings =
  flg_Client :: 'c
  flg_Fake :: FakeRbacKerbernetesV1

text \<open>The functions on lists that the generic fake is given; an assignment returns the list changed.\<close>

definition copy_ListMeta :: "list_mem \<Rightarrow> list_mem \<Rightarrow> list_mem" where
  "copy_ListMeta dst src = dst\<lparr>lmem_ListMeta := lmem_ListMeta src\<rparr>"

definition get_Items :: "('s, 'c) gentype_fakes \<Rightarrow> list_mem \<Rightarrow> 's" where
  "get_Items G list = gf_ToPointerSlice G (lmem_Items list)"

definition set_Items :: "('s, 'c) gentype_fakes \<Rightarrow> list_mem \<Rightarrow> 's \<Rightarrow> list_mem" where
  "set_Items G list items = list\<lparr>lmem_Items := gf_FromPointerSlice G items\<rparr>"

definition newFakeLdapGroupBindings ::
  "('s, 'c) gentype_fakes \<Rightarrow> FakeRbacKerbernetesV1 \<Rightarrow> 'c fakeLdapGroupBindings" where
  "newFakeLdapGroupBindings G fake =
     \<lparr>flg_Client = gf_NewFakeClient G (fr_Fake fake) ''''
        (WithResource SchemeGroupVersion ''ldapgroupbindings'') (WithKind SchemeGroupVersion ''LdapGroupBinding'')
        (\<lambda>_. zero_binding) (\<lambda>_. zero_list) copy_ListMeta (get_Items G) (set_Items G),
      flg_Fake = fake\<rparr>"

definition fake_LdapGroupBindings ::
  "('s, 'c) gentype_fakes \<Rightarrow> FakeRbacKerbernetesV1 \<Rightarrow> 'c fakeLdapGroupBindings" where
  "fake_LdapGroupBindings G c = newFakeLdapGroupBindings G c"

text \<open>
  An interface value that holds a pointer is not the nil interface, also when the pointer is
  nil. The fake's \<open>RESTClient\<close> returns an unset pointer as an interface.
\<close>

datatype 'r iface = NilInterface | Holding "'r option"

definition fake_RESTClient :: "FakeRbacKerbernetesV1 \<Rightarrow> 'r iface" where
  "fake_RESTClient c = (let ret = None in Holding ret)"

end
