(* ===== verification/ClientProperties.thy ===== *)
theory ClientProperties
  imports StartupProperties FakeClient
begin

text \<open>
  Properties of what the generated client code hands out: schemes, typed clients, listers, the
  schema parser and the fake client set.
\<close>

section \<open>Schemes and typed clients\<close>

text \<open>
  Loading the packages never panics; the schemes of the client set and of the fake are the same
  and know the custom resource and its list under their own names.
\<close>

theorem schemes_know_the_resource:
  assumes "adds_meta_kinds A"
  shows "\<exists>s. init_Scheme A = Some s \<and> fake_init A = Some s \<and>
    map_of s (WithKind SchemeGroupVersion ''LdapGroupBinding'') = Some ''LdapGroupBinding'' \<and>
    map_of s (WithKind SchemeGroupVersion ''LdapGroupBindingList'') = Some ''LdapGroupBindingList''"
  using assms by (simp add: init_Scheme_run [unfolded init_Scheme_def localSchemeBuilder_def] init_Scheme_run
      fake_init_def fake_localSchemeBuilder_def addKnownTypes_kinds)

lemma schemes_know_the_resource_witness:
  "map_of (the (init_Scheme (\<lambda>gv s. s))) (WithKind SchemeGroupVersion ''LdapGroupBinding'') = Some ''LdapGroupBinding''"
proof -
  have "adds_meta_kinds (\<lambda>gv s. s)" by (simp add: adds_meta_kinds_def)
  from schemes_know_the_resource [OF this] show ?thesis by auto
qed

text \<open>
  The typed client of a client set asks for all namespaces of \<open>ldapgroupbindings\<close> in the group's
  version under \<open>/apis\<close>, on the host of the configuration.
\<close>

theorem typed_client_of_group:
  assumes "NewForConfig R c = Inr cs"
  shows "\<exists>h config client. rl_RESTClientFor R config h = Inr client \<and> rcf_Host config = rcf_Host c \<and>
    rcf_APIPath config = ''/apis'' \<and> rcf_GroupVersion config = Some SchemeGroupVersion \<and>
    lgc_Client (Client_LdapGroupBindings NewClient codec (Some (RbacKerbernetesV1 cs))) =
      NewClient ''ldapgroupbindings'' (Some client) codec '''' (\<lambda>_. zero_binding) (\<lambda>_. zero_list)"
proof -
  obtain h where "rl_RESTClientFor R (setConfigDefaults R (shared_config R c)) h =
      Inr (rkc_restClient (lcs_rbacKerbernetesV1 cs))"
    using assms by (rule NewForConfig_parts)
  then show ?thesis
    by (intro exI [of _ h] exI [of _ "setConfigDefaults R (shared_config R c)"]
          exI [of _ "rkc_restClient (lcs_rbacKerbernetesV1 cs)"])
       (simp add: setConfigDefaults_fields shared_config_fields Client_LdapGroupBindings_def
          newLdapGroupBindings_def RESTClient_def RbacKerbernetesV1_def)
qed

section \<open>Informers and listers\<close>

text \<open>The informer of LdapGroupBindings is shared: every later request for it, by accessor, by
  resource or through a lister, before or after \<open>Start\<close>, gives the one made first and makes
  none, so all listers read the store that this informer fills.\<close>

theorem informer_is_shared:
  assumes "Informer i f h = (a, f1, h1)"
  shows "Informer j f1 h2 = (a, f1, h2) \<and>
    Informer j (fst (factory_Start ord f1)) h2 = (a, fst (factory_Start ord f1), h2) \<and>
    ForResource (WithResource SchemeGroupVersion ''ldapgroupbindings'') f1 h2 =
      (Inr \<lparr>gi_informer = a, gi_resource = Resource ''ldapgroupbindings''\<rparr>, f1, h2) \<and>
    Lister NewResourceIndexer GetIndexer j f1 h2 =
      (\<lparr>lgl_ResourceIndexer = NewResourceIndexer (GetIndexer a) (Resource ''ldapgroupbinding'')\<rparr>, f1, h2)"
proof -
  have "Informer k f1 h2 = (a, f1, h2)" for k
    using assms unfolding Informer_def by (rule fct.for_again)
  moreover have "Informer j (fst (factory_Start ord f1)) h2 = (a, fst (factory_Start ord f1), h2)"
    using assms unfolding Informer_def by (rule fct.for_after_start)
  ultimately show ?thesis
    by (simp add: ForResource_def Resource_def Lister_def NewLdapGroupBindingLister_def)
qed

lemma informer_is_shared_witness:
  "fst (Lister (\<lambda>i r. i) (\<lambda>a. a) (LdapGroupBindings (V1 (RbacKerbernetes (NewSharedInformerFactory 7 0))))
     (fst (snd (Informer (LdapGroupBindings (V1 (RbacKerbernetes (NewSharedInformerFactory 7 0))))
        (NewSharedInformerFactory 7 0) empty_heap))) empty_heap) = \<lparr>lgl_ResourceIndexer = 0\<rparr>"
proof -
  let ?i = "LdapGroupBindings (V1 (RbacKerbernetes (NewSharedInformerFactory 7 0)))"
  obtain a f h where run: "Informer ?i (NewSharedInformerFactory 7 0) empty_heap = (a, f, h)"
    by (metis prod_cases3)
  have "a = 0"
    using run by (auto simp: Informer_def InformerFor_def defaultInformer_def NewFilteredLdapGroupBindingInformer_def
        new_informer_def empty_heap_def NewSharedInformerFactory_def NewSharedInformerFactoryWithOptions_def Let_def)
  then show ?thesis using informer_is_shared [OF run, of ?i empty_heap _ "\<lambda>i r. i" "\<lambda>a. a"] run by simp
qed

section \<open>The parser\<close>

text \<open>
  However often the parser is asked for, the schema is parsed once, by the first call; the
  later calls change nothing and return the same pointer, also when the first one panicked.
\<close>

theorem schema_parsed_once:
  assumes "NewParser schemaYAML w = ((p, err), w')"
  shows "call_Parser NewParser (Suc n) (initial_parser, w) =
    ((case err of Some e \<Rightarrow> Inl (''Failed to parse schema: '' @ e) | None \<Rightarrow> Inr p) # replicate n (Inr p),
     \<lparr>parserOnce = True, parser = p\<rparr>, w')"
  using Parser_first [of NewParser w p err w', OF assms] Parser_done [of "\<lparr>parserOnce = True, parser = p\<rparr>" NewParser n w']
  by (simp add: Let_def)

lemma schema_parsed_once_witness:
  "fst (call_Parser (\<lambda>y w. ((Some y, None), Suc w)) 2 (initial_parser, 0 :: nat)) =
     [Inr (Some schemaYAML), Inr (Some schemaYAML)] \<and>
   snd (snd (call_Parser (\<lambda>y w. ((Some y, None), Suc w)) 2 (initial_parser, 0))) = 1"
proof -
  have "(\<lambda>y w. ((Some y, None), Suc w)) schemaYAML 0 = ((Some schemaYAML, None), 1)" by simp
  from schema_parsed_once [where NewParser = "\<lambda>y w. ((Some y, None), Suc w)" and n = 1, OF this] show ?thesis
    by (simp add: numeral_2_eq_2)
qed

text \<open>Every type the schema refers to is one it declares.\<close>

fun split_lines :: "string \<Rightarrow> string \<Rightarrow> string list" where
  "split_lines acc [] = [rev acc]"
| "split_lines acc (c # cs) = (if c = CHR 0x0A then rev acc # split_lines [] cs else split_lines (c # acc) cs)"

definition values_after :: "string \<Rightarrow> string \<Rightarrow> string list" where
  "values_after key text =
     map (drop (length key)) (filter (\<lambda>l. take (length key) l = key)
       (map (dropWhile (\<lambda>c. c = CHR '' '')) (split_lines [] text)))"

theorem schema_is_closed:
  "set (values_after ''namedType: '' schemaYAML) \<subseteq> set (values_after ''- name: '' schemaYAML)"
proof -
  have "list_all (List.member (values_after ''- name: '' schemaYAML)) (values_after ''namedType: '' schemaYAML)"
    by code_simp
  then show ?thesis by (auto simp: list_all_iff)
qed

section \<open>The fake client set\<close>

text \<open>
  What tests rely on of a tracker. Adding \<open>b\<close> stores the objects \<open>entries b\<close>: the object itself
  under its key, or the members of a list, each under its own. It is refused when the tracker
  cannot store such an object at all, as one of an unknown kind (\<open>refuses\<close>), and when one of
  the keys is taken already. \<open>tr o' w\<close> is what the tracker holds.
\<close>

definition follows ::
  "('o, 'd, 't, 'b, 'e, 'p, 'v, 'w) testing_lib \<Rightarrow> ('b \<Rightarrow> ('k \<times> 'b) list) \<Rightarrow> ('b \<Rightarrow> bool) \<Rightarrow>
     ('o \<Rightarrow> 'w \<Rightarrow> 'k \<Rightarrow> 'b option) \<Rightarrow> 'o \<Rightarrow> bool" where
  "follows L entries refuses tr o' \<longleftrightarrow>
     (\<forall>b w. let fits = (\<not> refuses b \<and> distinct (map fst (entries b)) \<and> fst ` set (entries b) \<inter> dom (tr o' w) = {}) in
        case tl_Add L o' b w of
          (Inl err, w') \<Rightarrow> \<not> fits
        | (Inr _, w') \<Rightarrow> fits \<and> tr o' w' = tr o' w ++ map_of (entries b))"

definition trackers_ok ::
  "('o, 'd, 't, 'b, 'e, 'p, 'v, 'w) testing_lib \<Rightarrow> ('b \<Rightarrow> ('k \<times> 'b) list) \<Rightarrow> ('b \<Rightarrow> bool) \<Rightarrow>
     ('o \<Rightarrow> 'w \<Rightarrow> 'k \<Rightarrow> 'b option) \<Rightarrow> bool" where
  "trackers_ok L entries refuses tr \<longleftrightarrow>
     (\<forall>s d w. case tl_NewObjectTracker L s d w of (o', w') \<Rightarrow> tr o' w' = Map.empty \<and> follows L entries refuses tr o') \<and>
     (\<forall>s d t w. case tl_NewFieldManagedObjectTracker L s d t w of
        (o', w') \<Rightarrow> tr o' w' = Map.empty \<and> follows L entries refuses tr o')"

lemma add_object:
  assumes "follows L entries refuses tr o'" and "tl_Add L o' b w = (r, w1)"
  shows "r = Inr x \<Longrightarrow> \<not> refuses b \<and> distinct (map fst (entries b)) \<and> fst ` set (entries b) \<inter> dom (tr o' w) = {} \<and>
      tr o' w1 = tr o' w ++ map_of (entries b)"
    and "r = Inl err \<Longrightarrow> refuses b \<or> \<not> distinct (map fst (entries b)) \<or> fst ` set (entries b) \<inter> dom (tr o' w) \<noteq> {}"
  using assms spec [OF spec [OF assms(1) [unfolded follows_def], of b], of w] by (auto simp: Let_def)

lemma add_objects:
  assumes "follows L entries refuses tr o'"
  shows "case for_each (tl_Add L o') objects w of
      (Inl err, w') \<Rightarrow> list_ex refuses objects \<or> \<not> distinct (map fst (concat (map entries objects))) \<or>
        fst ` set (concat (map entries objects)) \<inter> dom (tr o' w) \<noteq> {}
    | (Inr _, w') \<Rightarrow> \<not> list_ex refuses objects \<and> distinct (map fst (concat (map entries objects))) \<and>
        fst ` set (concat (map entries objects)) \<inter> dom (tr o' w) = {} \<and>
        tr o' w' = tr o' w ++ map_of (concat (map entries objects))"
proof (induction objects arbitrary: w)
  case Nil
  then show ?case by simp
next
  case (Cons b bs)
  let ?rest = "concat (map entries bs)"
  have all: "concat (map entries (b # bs)) = entries b @ ?rest" by simp
  obtain r w1 where run: "tl_Add L o' b w = (r, w1)" by fastforce
  show ?case
  proof (cases r)
    case (Inl err)
    from add_object(2) [OF assms run this] have "list_ex refuses (b # bs) \<or> \<not> distinct (map fst (entries b @ ?rest)) \<or>
        fst ` set (entries b @ ?rest) \<inter> dom (tr o' w) \<noteq> {}" by auto
    then show ?thesis using run Inl unfolding all by simp
  next
    case (Inr x)
    note one = add_object(1) [OF assms run Inr]
    then have dom: "dom (tr o' w1) = dom (tr o' w) \<union> fst ` set (entries b)" by (auto simp: dom_map_of_conv_image_fst)
    obtain r2 w2 where rest: "for_each (tl_Add L o') bs w1 = (r2, w2)" by fastforce
    have each: "for_each (tl_Add L o') (b # bs) w = (r2, w2)" using run Inr rest by simp
    show ?thesis
    proof (cases r2)
      case (Inl err)
      then have "list_ex refuses bs \<or> \<not> distinct (map fst ?rest) \<or> fst ` set ?rest \<inter> dom (tr o' w1) \<noteq> {}"
        using Cons [of w1] rest by simp
      then have "list_ex refuses (b # bs) \<or> \<not> distinct (map fst (entries b @ ?rest)) \<or>
          fst ` set (entries b @ ?rest) \<inter> dom (tr o' w) \<noteq> {}"
        unfolding dom map_append distinct_append set_map set_append image_Un list_ex_iff list.set by blast
      then show ?thesis using Inl unfolding each all by simp
    next
      case (Inr y)
      then have held: "\<not> list_ex refuses bs" "distinct (map fst ?rest)" "fst ` set ?rest \<inter> dom (tr o' w1) = {}"
        "tr o' w2 = tr o' w1 ++ map_of ?rest"
        using Cons [of w1] rest by simp_all
      have apart: "fst ` set ?rest \<inter> dom (tr o' w) = {}" "fst ` set ?rest \<inter> fst ` set (entries b) = {}"
        using held(3) unfolding dom by blast+
      have "map_of (entries b) ++ map_of ?rest = map_of ?rest ++ map_of (entries b)"
        by (rule map_add_comm) (use apart(2) in \<open>auto simp: dom_map_of_conv_image_fst\<close>)
      then have "tr o' w2 = tr o' w ++ map_of (entries b @ ?rest)"
        using one held(4) by (simp add: map_add_assoc [symmetric] del: map_add_assoc)
      moreover have "\<not> list_ex refuses (b # bs)" using one held(1) by simp
      moreover have "distinct (map fst (entries b @ ?rest))"
        unfolding map_append distinct_append set_map using one held(2) apart(2) by blast
      moreover have "fst ` set (entries b @ ?rest) \<inter> dom (tr o' w) = {}"
        using one apart(1) unfolding set_append image_Un Int_Un_distrib2 by blast
      ultimately show ?thesis using Inr unfolding each all by simp
    qed
  qed
qed

text \<open>What both constructors do with their tracker.\<close>

definition fake_on ::
  "('o, 'd, 't, 'b, 'e, 'p, 'v, 'w) testing_lib \<Rightarrow> 'b list \<Rightarrow> 'p parser_state \<Rightarrow> ('e, 'v, 'w) fake_heap \<Rightarrow> 'o \<times> 'w \<Rightarrow>
     (string + 'o fake_Clientset) \<times> ('p, 'e, 'v, 'w) fake_state" where
  "fake_on L objects ps h ow =
     (case for_each (tl_Add L (fst ow)) objects (snd ow) of
        (Inl err, w') \<Rightarrow> (Inl err, ((ps, w'), h))
      | (Inr _, w') \<Rightarrow>
          (Inr \<lparr>fcs_Fake = fh_next h, fcs_discovery = fh_next h, fcs_tracker = fst ow\<rparr>,
           ((ps, w'), h\<lparr>fh_next := Suc (fh_next h), fh_fakes := (fh_fakes h)(fh_next h \<mapsto>
              \<lparr>fk_ReactionChain = [(''*'', ''*'', tl_ObjectReaction L (fst ow))],
               fk_WatchReactionChain = [(''*'', watch_reactor L (fst ow))]\<rparr>)\<rparr>)))"

lemma NewSimpleClientset_on:
  "NewSimpleClientset L s objects ((ps, w), h) =
     fake_on L objects ps h (tl_NewObjectTracker L s (tl_UniversalDecoder L s) w)"
  by (simp add: NewSimpleClientset_def fake_on_def new_fake_def AddReactor_def AddWatchReactor_def Let_def
      split: prod.split sum.split)

lemma fake_NewClientset_on:
  "fake_NewClientset L s objects ((ps, w), h) =
     (case Parser (tl_NewParser L) (ps, w) of
        (Inl msg, pw) \<Rightarrow> (Inl msg, (pw, h))
      | (Inr p, (ps', w')) \<Rightarrow> fake_on L objects ps' h
          (tl_NewFieldManagedObjectTracker L s (tl_UniversalDecoder L s) (tl_NewSchemeTypeConverter L s p) w'))"
  by (simp add: fake_NewClientset_def NewTypeConverter_def fake_on_def new_fake_def AddReactor_def AddWatchReactor_def
      Let_def split: prod.split sum.split)

lemma fake_on_spec:
  assumes "follows L entries refuses tr o'" and "tr o' w = Map.empty" and "fake_on L objects ps h (o', w) = (r, ((ps', w'), h'))"
  shows "case r of
      Inl msg \<Rightarrow> list_ex refuses objects \<or> \<not> distinct (map fst (concat (map entries objects)))
    | Inr cs \<Rightarrow> \<not> list_ex refuses objects \<and> distinct (map fst (concat (map entries objects))) \<and>
        tr (Tracker cs) w' = map_of (concat (map entries objects)) \<and>
        fr_Fake (flg_Fake (fake_LdapGroupBindings G (fake_RbacKerbernetesV1 cs))) = fake_Discovery cs \<and>
        fh_fakes h' = (fh_fakes h)(fake_Discovery cs \<mapsto>
          \<lparr>fk_ReactionChain = [(''*'', ''*'', tl_ObjectReaction L (Tracker cs))],
           fk_WatchReactionChain = [(''*'', watch_reactor L (Tracker cs))]\<rparr>)"
  using add_objects [OF assms(1), of objects w] assms(2,3)
  by (auto simp: fake_on_def Tracker_def fake_RbacKerbernetesV1_def fake_Discovery_def
      fake_LdapGroupBindings_def newFakeLdapGroupBindings_def
      split: prod.splits sum.splits)

text \<open>C38. A new fake client set, of either constructor, holds exactly the objects it was given, each
  under its key; making it panics exactly when the tracker cannot store one of them or two of
  them have the same key. Its clients for discovery and for the group work on one chain of
  reactions, which answers everything from that tracker.\<close>

theorem fake_clientset_holds_objects:
  assumes "trackers_ok L entries refuses tr" and "snd (fst (tl_NewParser L schemaYAML w)) = None"
    and "built = NewSimpleClientset L s objects ((ps, w), h) \<or> built = fake_NewClientset L s objects ((ps, w), h)"
    and "built = (r, ((ps', w'), h'))"
  shows "case r of
      Inl msg \<Rightarrow> list_ex refuses objects \<or> \<not> distinct (map fst (concat (map entries objects)))
    | Inr cs \<Rightarrow> \<not> list_ex refuses objects \<and> distinct (map fst (concat (map entries objects))) \<and>
        tr (Tracker cs) w' = map_of (concat (map entries objects)) \<and>
        fr_Fake (flg_Fake (fake_LdapGroupBindings G (fake_RbacKerbernetesV1 cs))) = fake_Discovery cs \<and>
        fh_fakes h' = (fh_fakes h)(fake_Discovery cs \<mapsto>
          \<lparr>fk_ReactionChain = [(''*'', ''*'', tl_ObjectReaction L (Tracker cs))],
           fk_WatchReactionChain = [(''*'', watch_reactor L (Tracker cs))]\<rparr>)"
proof -
  obtain q v where "tl_NewParser L schemaYAML w = ((q, None), v)" using assms(2) by (metis prod.collapse)
  then obtain p1 ps1 w1 where p: "Parser (tl_NewParser L) (ps, w) = (Inr p1, (ps1, w1))"
    by (cases "parserOnce ps") (auto simp: Parser_def)
  have "\<exists>ps0 o' w0. built = fake_on L objects ps0 h (o', w0) \<and> tr o' w0 = Map.empty \<and> follows L entries refuses tr o'"
    using assms(3)
  proof
    assume "built = NewSimpleClientset L s objects ((ps, w), h)"
    moreover obtain o' w0 where "tl_NewObjectTracker L s (tl_UniversalDecoder L s) w = (o', w0)" by fastforce
    moreover from this have "tr o' w0 = Map.empty \<and> follows L entries refuses tr o'"
      using assms(1) unfolding trackers_ok_def by (metis (mono_tags, lifting) case_prod_conv)
    ultimately show ?thesis by (auto simp: NewSimpleClientset_on)
  next
    assume "built = fake_NewClientset L s objects ((ps, w), h)"
    moreover obtain o' w0 where "tl_NewFieldManagedObjectTracker L s (tl_UniversalDecoder L s)
        (tl_NewSchemeTypeConverter L s p1) w1 = (o', w0)" by fastforce
    moreover from this have "tr o' w0 = Map.empty \<and> follows L entries refuses tr o'"
      using assms(1) unfolding trackers_ok_def by (metis (mono_tags, lifting) case_prod_conv)
    ultimately show ?thesis using p by (auto simp: fake_NewClientset_on)
  qed
  then obtain ps0 o' w0 where on: "built = fake_on L objects ps0 h (o', w0)" and
    empty: "tr o' w0 = Map.empty" and tracks: "follows L entries refuses tr o'" by blast
  have "fake_on L objects ps0 h (o', w0) = (r, ((ps', w'), h'))" using on assms(4) by simp
  then show ?thesis by (rule fake_on_spec [OF tracks empty])
qed

text \<open>A tracker in memory that refuses bindings without a name, and names that it has already.\<close>

definition example_testing ::
  "(unit, unit, unit, LdapGroupBinding, string, unit, unit, string \<Rightarrow> LdapGroupBinding option) testing_lib" where
  "example_testing = \<lparr>tl_UniversalDecoder = (\<lambda>s. ()), tl_NewObjectTracker = (\<lambda>s d w. ((), Map.empty)),
     tl_NewFieldManagedObjectTracker = (\<lambda>s d t w. ((), Map.empty)), tl_NewSchemeTypeConverter = (\<lambda>s p. ()),
     tl_NewParser = (\<lambda>y w. ((Some (), None), w)),
     tl_Add = (\<lambda>o' b w. if lgb_Name b = '''' then (Inl ''name is required'', w)
       else if w (lgb_Name b) \<noteq> None then (Inl ''already exists'', w) else (Inr (), w(lgb_Name b \<mapsto> b))),
     tl_Watch = (\<lambda>o' gvr ns opts w. (Inr (), w)), tl_ObjectReaction = (\<lambda>o'. ''react'')\<rparr>"

lemma fake_clientset_holds_objects_witness:
  "\<exists>cs ps w h. fake_NewClientset example_testing [] [devs, new_lgb ''ops'' ''cn=ops'' []]
      ((initial_parser, Map.empty), \<lparr>fh_next = 0, fh_fakes = Map.empty\<rparr>) = (Inr cs, ((ps, w), h)) \<and>
    w ''devs'' = Some devs \<and> w ''ops'' = Some (new_lgb ''ops'' ''cn=ops'' [])"
proof -
  let ?objects = "[devs, new_lgb ''ops'' ''cn=ops'' []]"
  let ?made = "fake_NewClientset example_testing [] ?objects
      ((initial_parser, Map.empty), \<lparr>fh_next = 0, fh_fakes = Map.empty\<rparr>)"
  let ?G = "\<lparr>gf_ToPointerSlice = (\<lambda>_. ()), gf_FromPointerSlice = (\<lambda>_. None),
      gf_NewFakeClient = (\<lambda>a ns gvr gvk nb nl copy get put. ())\<rparr>"
  have names: "lgb_Name devs = ''devs''" "lgb_Name (new_lgb ''ops'' dn ks) = ''ops''" for dn ks
    by (simp_all add: devs_def new_lgb_def)
  obtain r ps w h where run: "?made = (r, ((ps, w), h))" by (metis prod.exhaust)
  have ok: "trackers_ok example_testing (\<lambda>b. [(lgb_Name b, b)]) (\<lambda>b. lgb_Name b = '''') (\<lambda>o' w. w)"
    by (auto simp: trackers_ok_def follows_def example_testing_def)
  have parses: "snd (fst (tl_NewParser example_testing schemaYAML Map.empty)) = None"
    by (simp add: example_testing_def)
  show ?thesis
    using fake_clientset_holds_objects [where G = ?G, OF ok parses disjI2 [OF refl] run] run names
    by (cases r) auto
qed

end
