(* ===== verification/ApplyConfig.thy ===== *)
theory ApplyConfig
  imports KubeTypes
begin

text \<open>
  The generated builders of apply configurations,
  \<open>k8s/generated/applyconfiguration/rbac.kerbernetes.io/v1\<close>. A field of pointer type is an
  option, and each \<open>With\<close> function returns the changed receiver. The specification of a binding
  is a pointer to a builder that the caller may keep and change, so these builders live in a
  heap; the items of a specification are copied into it. A \<open>With\<close> function that gets a nil
  pointer in its arguments panics after it has taken the arguments before.
\<close>

section \<open>The configurations\<close>

record OwnerReferenceApplyConfiguration =
  ora_APIVersion :: "string option"
  ora_Kind :: "string option"
  ora_Name :: "string option"
  ora_UID :: "string option"
  ora_Controller :: "bool option"
  ora_BlockOwnerDeletion :: "bool option"

record ObjectMetaApplyConfiguration =
  oma_Name :: "string option"
  oma_GenerateName :: "string option"
  oma_Namespace :: "string option"
  oma_UID :: "string option"
  oma_ResourceVersion :: "string option"
  oma_Generation :: "goint option"
  oma_CreationTimestamp :: "int option"
  oma_DeletionTimestamp :: "int option"
  oma_DeletionGracePeriodSeconds :: "goint option"
  oma_Labels :: "(string, string) gomap option"
  oma_Annotations :: "(string, string) gomap option"
  oma_OwnerReferences :: "OwnerReferenceApplyConfiguration list"
  oma_Finalizers :: "string list"

record LdapGroupBindingItemApplyConfiguration =
  ita_Kind :: "string option"
  ita_Name :: "string option"
  ita_Namespace :: "string option"
  ita_ApiGroup :: "string option"

record LdapGroupBindingSpecApplyConfiguration =
  spa_LdapGroupDN :: "string option"
  spa_Bindings :: "LdapGroupBindingItemApplyConfiguration list"

record LdapGroupBindingApplyConfiguration =
  lba_Kind :: "string option"
  lba_APIVersion :: "string option"
  lba_ObjectMeta :: "ObjectMetaApplyConfiguration option"
  lba_Spec :: "nat option"

text \<open>The specifications under construction, by address.\<close>

type_synonym spec_builders = "nat \<Rightarrow> LdapGroupBindingSpecApplyConfiguration"

text \<open>How a variadic \<open>With\<close> function ends, and the receiver then.\<close>

datatype 'a with_result = Completed 'a | Panicked 'a

definition zero_ObjectMeta :: ObjectMetaApplyConfiguration where
  "zero_ObjectMeta = \<lparr>oma_Name = None, oma_GenerateName = None, oma_Namespace = None, oma_UID = None, oma_ResourceVersion = None,
     oma_Generation = None, oma_CreationTimestamp = None, oma_DeletionTimestamp = None, oma_DeletionGracePeriodSeconds = None,
     oma_Labels = None, oma_Annotations = None, oma_OwnerReferences = [], oma_Finalizers = []\<rparr>"

section \<open>Items and specifications\<close>

definition new_LdapGroupBindingItem :: LdapGroupBindingItemApplyConfiguration where
  "new_LdapGroupBindingItem = \<lparr>ita_Kind = None, ita_Name = None, ita_Namespace = None, ita_ApiGroup = None\<rparr>"

definition Item_WithKind ::
  "string \<Rightarrow> LdapGroupBindingItemApplyConfiguration \<Rightarrow> LdapGroupBindingItemApplyConfiguration" where
  "Item_WithKind value b = b\<lparr>ita_Kind := Some value\<rparr>"

definition Item_WithName ::
  "string \<Rightarrow> LdapGroupBindingItemApplyConfiguration \<Rightarrow> LdapGroupBindingItemApplyConfiguration" where
  "Item_WithName value b = b\<lparr>ita_Name := Some value\<rparr>"

definition Item_WithNamespace ::
  "string \<Rightarrow> LdapGroupBindingItemApplyConfiguration \<Rightarrow> LdapGroupBindingItemApplyConfiguration" where
  "Item_WithNamespace value b = b\<lparr>ita_Namespace := Some value\<rparr>"

definition Item_WithApiGroup ::
  "string \<Rightarrow> LdapGroupBindingItemApplyConfiguration \<Rightarrow> LdapGroupBindingItemApplyConfiguration" where
  "Item_WithApiGroup value b = b\<lparr>ita_ApiGroup := Some value\<rparr>"

definition new_LdapGroupBindingSpec :: LdapGroupBindingSpecApplyConfiguration where
  "new_LdapGroupBindingSpec = \<lparr>spa_LdapGroupDN = None, spa_Bindings = []\<rparr>"

definition WithLdapGroupDN ::
  "string \<Rightarrow> LdapGroupBindingSpecApplyConfiguration \<Rightarrow> LdapGroupBindingSpecApplyConfiguration" where
  "WithLdapGroupDN value b = b\<lparr>spa_LdapGroupDN := Some value\<rparr>"

text \<open>The arguments are pointers: \<open>None\<close> is nil, otherwise what the pointer refers to.\<close>

fun WithBindings ::
  "LdapGroupBindingItemApplyConfiguration option list \<Rightarrow> LdapGroupBindingSpecApplyConfiguration \<Rightarrow>
     LdapGroupBindingSpecApplyConfiguration with_result" where
  "WithBindings [] b = Completed b"
| "WithBindings (None # values) b = Panicked b"
| "WithBindings (Some v # values) b = WithBindings values (b\<lparr>spa_Bindings := spa_Bindings b @ [v]\<rparr>)"

section \<open>Bindings\<close>

definition With_Kind :: "string \<Rightarrow> LdapGroupBindingApplyConfiguration \<Rightarrow> LdapGroupBindingApplyConfiguration" where
  "With_Kind value b = b\<lparr>lba_Kind := Some value\<rparr>"

definition WithAPIVersion :: "string \<Rightarrow> LdapGroupBindingApplyConfiguration \<Rightarrow> LdapGroupBindingApplyConfiguration" where
  "WithAPIVersion value b = b\<lparr>lba_APIVersion := Some value\<rparr>"

definition ensureObjectMetaApplyConfigurationExists ::
  "LdapGroupBindingApplyConfiguration \<Rightarrow> LdapGroupBindingApplyConfiguration" where
  "ensureObjectMetaApplyConfigurationExists b =
     (if lba_ObjectMeta b = None then b\<lparr>lba_ObjectMeta := Some zero_ObjectMeta\<rparr> else b)"

text \<open>An assignment through the metadata pointer.\<close>

definition set_meta ::
  "(ObjectMetaApplyConfiguration \<Rightarrow> ObjectMetaApplyConfiguration) \<Rightarrow>
     LdapGroupBindingApplyConfiguration \<Rightarrow> LdapGroupBindingApplyConfiguration" where
  "set_meta f b = b\<lparr>lba_ObjectMeta := map_option f (lba_ObjectMeta b)\<rparr>"

definition With_Name :: "string \<Rightarrow> LdapGroupBindingApplyConfiguration \<Rightarrow> LdapGroupBindingApplyConfiguration" where
  "With_Name value b = set_meta (oma_Name_update (\<lambda>_. Some value)) (ensureObjectMetaApplyConfigurationExists b)"

definition WithGenerateName :: "string \<Rightarrow> LdapGroupBindingApplyConfiguration \<Rightarrow> LdapGroupBindingApplyConfiguration" where
  "WithGenerateName value b = set_meta (oma_GenerateName_update (\<lambda>_. Some value)) (ensureObjectMetaApplyConfigurationExists b)"

definition With_Namespace :: "string \<Rightarrow> LdapGroupBindingApplyConfiguration \<Rightarrow> LdapGroupBindingApplyConfiguration" where
  "With_Namespace value b = set_meta (oma_Namespace_update (\<lambda>_. Some value)) (ensureObjectMetaApplyConfigurationExists b)"

definition WithUID :: "string \<Rightarrow> LdapGroupBindingApplyConfiguration \<Rightarrow> LdapGroupBindingApplyConfiguration" where
  "WithUID value b = set_meta (oma_UID_update (\<lambda>_. Some value)) (ensureObjectMetaApplyConfigurationExists b)"

definition WithResourceVersion :: "string \<Rightarrow> LdapGroupBindingApplyConfiguration \<Rightarrow> LdapGroupBindingApplyConfiguration" where
  "WithResourceVersion value b = set_meta (oma_ResourceVersion_update (\<lambda>_. Some value)) (ensureObjectMetaApplyConfigurationExists b)"

definition WithGeneration :: "goint \<Rightarrow> LdapGroupBindingApplyConfiguration \<Rightarrow> LdapGroupBindingApplyConfiguration" where
  "WithGeneration value b = set_meta (oma_Generation_update (\<lambda>_. Some value)) (ensureObjectMetaApplyConfigurationExists b)"

definition WithCreationTimestamp :: "int \<Rightarrow> LdapGroupBindingApplyConfiguration \<Rightarrow> LdapGroupBindingApplyConfiguration" where
  "WithCreationTimestamp value b = set_meta (oma_CreationTimestamp_update (\<lambda>_. Some value)) (ensureObjectMetaApplyConfigurationExists b)"

definition WithDeletionTimestamp :: "int \<Rightarrow> LdapGroupBindingApplyConfiguration \<Rightarrow> LdapGroupBindingApplyConfiguration" where
  "WithDeletionTimestamp value b = set_meta (oma_DeletionTimestamp_update (\<lambda>_. Some value)) (ensureObjectMetaApplyConfigurationExists b)"

definition WithDeletionGracePeriodSeconds :: "goint \<Rightarrow> LdapGroupBindingApplyConfiguration \<Rightarrow> LdapGroupBindingApplyConfiguration" where
  "WithDeletionGracePeriodSeconds value b = set_meta (oma_DeletionGracePeriodSeconds_update (\<lambda>_. Some value)) (ensureObjectMetaApplyConfigurationExists b)"

text \<open>
  \<open>put_entries\<close> is the preparation of the map and the loop over the entries, which are listed in
  the order the loop visits them. A write to a nil map would panic: it is not reached, because
  the map is made whenever there is an entry.
\<close>

definition put_entries ::
  "(string \<times> string) list \<Rightarrow> (string, string) gomap option \<Rightarrow> (string, string) gomap option" where
  "put_entries entries m =
     fold (\<lambda>(k, v). map_option (AList.update k v)) entries
       (if m = None \<and> length entries > 0 then Some [] else m)"

definition WithLabels ::
  "(string \<times> string) list \<Rightarrow> LdapGroupBindingApplyConfiguration \<Rightarrow> LdapGroupBindingApplyConfiguration" where
  "WithLabels entries b =
     set_meta (oma_Labels_update (put_entries entries)) (ensureObjectMetaApplyConfigurationExists b)"

definition WithAnnotations ::
  "(string \<times> string) list \<Rightarrow> LdapGroupBindingApplyConfiguration \<Rightarrow> LdapGroupBindingApplyConfiguration" where
  "WithAnnotations entries b =
     set_meta (oma_Annotations_update (put_entries entries)) (ensureObjectMetaApplyConfigurationExists b)"

fun owner_loop ::
  "OwnerReferenceApplyConfiguration option list \<Rightarrow> LdapGroupBindingApplyConfiguration \<Rightarrow>
     LdapGroupBindingApplyConfiguration with_result" where
  "owner_loop [] b = Completed b"
| "owner_loop (None # values) b = Panicked b"
| "owner_loop (Some v # values) b =
     owner_loop values (set_meta (oma_OwnerReferences_update (\<lambda>refs. refs @ [v])) b)"

definition WithOwnerReferences ::
  "OwnerReferenceApplyConfiguration option list \<Rightarrow> LdapGroupBindingApplyConfiguration \<Rightarrow>
     LdapGroupBindingApplyConfiguration with_result" where
  "WithOwnerReferences values b = owner_loop values (ensureObjectMetaApplyConfigurationExists b)"

definition WithFinalizers ::
  "string list \<Rightarrow> LdapGroupBindingApplyConfiguration \<Rightarrow> LdapGroupBindingApplyConfiguration" where
  "WithFinalizers values b =
     fold (\<lambda>v. set_meta (oma_Finalizers_update (\<lambda>fs. fs @ [v]))) values
       (ensureObjectMetaApplyConfigurationExists b)"

definition WithSpec :: "nat option \<Rightarrow> LdapGroupBindingApplyConfiguration \<Rightarrow> LdapGroupBindingApplyConfiguration" where
  "WithSpec value b = b\<lparr>lba_Spec := value\<rparr>"

definition new_LdapGroupBinding :: "string \<Rightarrow> LdapGroupBindingApplyConfiguration" where
  "new_LdapGroupBinding name =
     (let b = \<lparr>lba_Kind = None, lba_APIVersion = None, lba_ObjectMeta = None, lba_Spec = None\<rparr>;
          b1 = With_Name name b;
          b2 = With_Kind ''LdapGroupBinding'' b1
      in WithAPIVersion ''rbac.kerbernetes.io/v1'' b2)"

text \<open>The getters of metadata create it when it is missing.\<close>

definition GetKind :: "LdapGroupBindingApplyConfiguration \<Rightarrow> string option" where
  "GetKind b = lba_Kind b"

definition GetAPIVersion :: "LdapGroupBindingApplyConfiguration \<Rightarrow> string option" where
  "GetAPIVersion b = lba_APIVersion b"

definition GetName ::
  "LdapGroupBindingApplyConfiguration \<Rightarrow> string option \<times> LdapGroupBindingApplyConfiguration" where
  "GetName b =
     (let b' = ensureObjectMetaApplyConfigurationExists b in
      (Option.bind (lba_ObjectMeta b') oma_Name, b'))"

definition Get_Namespace ::
  "LdapGroupBindingApplyConfiguration \<Rightarrow> string option \<times> LdapGroupBindingApplyConfiguration" where
  "Get_Namespace b =
     (let b' = ensureObjectMetaApplyConfigurationExists b in
      (Option.bind (lba_ObjectMeta b') oma_Namespace, b'))"

section \<open>What a builder has collected\<close>

definition meta_of :: "LdapGroupBindingApplyConfiguration \<Rightarrow> ObjectMetaApplyConfiguration" where
  "meta_of b = (case lba_ObjectMeta b of None \<Rightarrow> zero_ObjectMeta | Some m \<Rightarrow> m)"

lemma ensured_meta [simp]:
  "lba_ObjectMeta (ensureObjectMetaApplyConfigurationExists b) = Some (meta_of b)"
  "lba_Kind (ensureObjectMetaApplyConfigurationExists b) = lba_Kind b"
  "lba_APIVersion (ensureObjectMetaApplyConfigurationExists b) = lba_APIVersion b"
  "lba_Spec (ensureObjectMetaApplyConfigurationExists b) = lba_Spec b"
  by (auto simp: ensureObjectMetaApplyConfigurationExists_def meta_of_def split: option.split)

lemma set_meta_ensured [simp]:
  "meta_of (set_meta f (ensureObjectMetaApplyConfigurationExists b)) = f (meta_of b)"
  "lba_Kind (set_meta f b) = lba_Kind b" "lba_APIVersion (set_meta f b) = lba_APIVersion b"
  "lba_Spec (set_meta f b) = lba_Spec b"
  by (simp_all add: set_meta_def) (simp add: meta_of_def)

lemma getters:
  "fst (GetName b) = oma_Name (meta_of b)" "fst (Get_Namespace b) = oma_Namespace (meta_of b)"
  "meta_of (snd (GetName b)) = meta_of b"
  by (simp_all add: GetName_def Get_Namespace_def) (simp add: meta_of_def)

lemma finalizers_loop:
  "lba_ObjectMeta b = Some m \<Longrightarrow>
     fold (\<lambda>v. set_meta (oma_Finalizers_update (\<lambda>fs. fs @ [v]))) values b =
       b\<lparr>lba_ObjectMeta := Some (oma_Finalizers_update (\<lambda>fs. fs @ values) m)\<rparr>"
  by (induction "values" arbitrary: b m) (simp_all add: set_meta_def)

lemma WithFinalizers_meta:
  "meta_of (WithFinalizers vs b) = oma_Finalizers_update (\<lambda>fs. fs @ vs) (meta_of b)"
  "lba_Spec (WithFinalizers vs b) = lba_Spec b"
  by (simp_all add: WithFinalizers_def finalizers_loop [OF ensured_meta(1)]) (simp add: meta_of_def)

definition entry :: "(string, string) gomap option \<Rightarrow> string \<Rightarrow> string option" where
  "entry m k = Option.bind m (\<lambda>m. map_of m k)"

lemma fold_entries:
  "fold (\<lambda>(k, v). map_option (AList.update k v)) es (Some m) = Some (fold (\<lambda>(k, v). AList.update k v) es m)"
  "map_of (fold (\<lambda>(k, v). AList.update k v) es m) = map_of m ++ map_of (rev es)"
  by (induction es arbitrary: m) (auto simp: update_conv')

lemma put_entries_entry: "entry (put_entries es m) = entry m ++ map_of (rev es)"
proof (cases "m = None \<and> es = []")
  case True
  then show ?thesis by (simp add: put_entries_def)
next
  case False
  then obtain m' where "(if m = None \<and> length es > 0 then Some [] else m) = Some m'" and "entry m = map_of m'"
    by (cases m) (auto simp: entry_def fun_eq_iff)
  then show ?thesis
    by (simp only: put_entries_def fold_entries(1)) (simp add: entry_def fun_eq_iff fold_entries(2))
qed

text \<open>
  The arguments up to the first nil pointer are taken, in order; a nil pointer panics.
\<close>

fun until_nil :: "'a option list \<Rightarrow> 'a list" where
  "until_nil [] = []"
| "until_nil (None # xs) = []"
| "until_nil (Some x # xs) = x # until_nil xs"

lemma WithBindings_outcome:
  "WithBindings vs b =
     (if None \<in> set vs then Panicked else Completed) (b\<lparr>spa_Bindings := spa_Bindings b @ until_nil vs\<rparr>)"
  by (induction vs b rule: WithBindings.induct) auto

lemma owner_loop_outcome:
  "lba_ObjectMeta b = Some m \<Longrightarrow> owner_loop vs b =
     (if None \<in> set vs then Panicked else Completed)
       (b\<lparr>lba_ObjectMeta := Some (oma_OwnerReferences_update (\<lambda>refs. refs @ until_nil vs) m)\<rparr>)"
  by (induction vs b arbitrary: m rule: owner_loop.induct) (auto simp: set_meta_def)

section \<open>Chains of calls\<close>

text \<open>A call of any of the \<open>With\<close> functions of a binding, with its arguments.\<close>

datatype with_call =
    CallKind string
  | CallAPIVersion string
  | CallName string
  | CallGenerateName string
  | CallNamespace string
  | CallUID string
  | CallResourceVersion string
  | CallGeneration goint
  | CallCreationTimestamp int
  | CallDeletionTimestamp int
  | CallDeletionGracePeriodSeconds goint
  | CallLabels "(string \<times> string) list"
  | CallAnnotations "(string \<times> string) list"
  | CallOwnerReferences "OwnerReferenceApplyConfiguration option list"
  | CallFinalizers "string list"
  | CallSpec "nat option"

fun apply_call ::
  "with_call \<Rightarrow> LdapGroupBindingApplyConfiguration \<Rightarrow> LdapGroupBindingApplyConfiguration with_result" where
  "apply_call (CallKind v) b = Completed (With_Kind v b)"
| "apply_call (CallAPIVersion v) b = Completed (WithAPIVersion v b)"
| "apply_call (CallName v) b = Completed (With_Name v b)"
| "apply_call (CallGenerateName v) b = Completed (WithGenerateName v b)"
| "apply_call (CallNamespace v) b = Completed (With_Namespace v b)"
| "apply_call (CallUID v) b = Completed (WithUID v b)"
| "apply_call (CallResourceVersion v) b = Completed (WithResourceVersion v b)"
| "apply_call (CallGeneration n) b = Completed (WithGeneration n b)"
| "apply_call (CallCreationTimestamp t) b = Completed (WithCreationTimestamp t b)"
| "apply_call (CallDeletionTimestamp t) b = Completed (WithDeletionTimestamp t b)"
| "apply_call (CallDeletionGracePeriodSeconds n) b = Completed (WithDeletionGracePeriodSeconds n b)"
| "apply_call (CallLabels es) b = Completed (WithLabels es b)"
| "apply_call (CallAnnotations es) b = Completed (WithAnnotations es b)"
| "apply_call (CallOwnerReferences vs) b = WithOwnerReferences vs b"
| "apply_call (CallFinalizers vs) b = Completed (WithFinalizers vs b)"
| "apply_call (CallSpec p) b = Completed (WithSpec p b)"

text \<open>The calls run one after the other on the same receiver, up to a panic.\<close>

fun run_calls ::
  "with_call list \<Rightarrow> LdapGroupBindingApplyConfiguration \<Rightarrow> LdapGroupBindingApplyConfiguration with_result" where
  "run_calls [] b = Completed b"
| "run_calls (c # cs) b =
     (case apply_call c b of Completed b' \<Rightarrow> run_calls cs b' | Panicked b' \<Rightarrow> Panicked b')"

text \<open>
  The reference: what a call sets a field to, and the last value that a list of calls sets it
  to; what a call adds to a field.
\<close>

definition last_value :: "(with_call \<Rightarrow> 'a option) \<Rightarrow> 'a \<Rightarrow> with_call list \<Rightarrow> 'a" where
  "last_value sets d cs = fold (\<lambda>c v. case sets c of None \<Rightarrow> v | Some v' \<Rightarrow> v') cs d"

fun sets_kind :: "with_call \<Rightarrow> string option option" where
  "sets_kind (CallKind v) = Some (Some v)"
| "sets_kind _ = None"

fun sets_version :: "with_call \<Rightarrow> string option option" where
  "sets_version (CallAPIVersion v) = Some (Some v)"
| "sets_version _ = None"

fun sets_name :: "with_call \<Rightarrow> string option option" where
  "sets_name (CallName v) = Some (Some v)"
| "sets_name _ = None"

fun sets_generate_name :: "with_call \<Rightarrow> string option option" where
  "sets_generate_name (CallGenerateName v) = Some (Some v)"
| "sets_generate_name _ = None"

fun sets_namespace :: "with_call \<Rightarrow> string option option" where
  "sets_namespace (CallNamespace v) = Some (Some v)"
| "sets_namespace _ = None"

fun sets_uid :: "with_call \<Rightarrow> string option option" where
  "sets_uid (CallUID v) = Some (Some v)"
| "sets_uid _ = None"

fun sets_resource_version :: "with_call \<Rightarrow> string option option" where
  "sets_resource_version (CallResourceVersion v) = Some (Some v)"
| "sets_resource_version _ = None"

fun sets_generation :: "with_call \<Rightarrow> goint option option" where
  "sets_generation (CallGeneration n) = Some (Some n)"
| "sets_generation _ = None"

fun sets_creation :: "with_call \<Rightarrow> int option option" where
  "sets_creation (CallCreationTimestamp t) = Some (Some t)"
| "sets_creation _ = None"

fun sets_deletion :: "with_call \<Rightarrow> int option option" where
  "sets_deletion (CallDeletionTimestamp t) = Some (Some t)"
| "sets_deletion _ = None"

fun sets_grace_period :: "with_call \<Rightarrow> goint option option" where
  "sets_grace_period (CallDeletionGracePeriodSeconds n) = Some (Some n)"
| "sets_grace_period _ = None"

fun sets_spec :: "with_call \<Rightarrow> nat option option" where
  "sets_spec (CallSpec p) = Some p"
| "sets_spec _ = None"

fun adds_labels :: "with_call \<Rightarrow> (string \<times> string) list" where
  "adds_labels (CallLabels es) = es"
| "adds_labels _ = []"

fun adds_annotations :: "with_call \<Rightarrow> (string \<times> string) list" where
  "adds_annotations (CallAnnotations es) = es"
| "adds_annotations _ = []"

fun adds_owners :: "with_call \<Rightarrow> OwnerReferenceApplyConfiguration list" where
  "adds_owners (CallOwnerReferences vs) = until_nil vs"
| "adds_owners _ = []"

fun adds_finalizers :: "with_call \<Rightarrow> string list" where
  "adds_finalizers (CallFinalizers vs) = vs"
| "adds_finalizers _ = []"

text \<open>A call with a nil owner reference panics; the calls after it are not reached.\<close>

fun has_nil :: "with_call \<Rightarrow> bool" where
  "has_nil (CallOwnerReferences vs) \<longleftrightarrow> None \<in> set vs"
| "has_nil _ \<longleftrightarrow> False"

fun reached :: "with_call list \<Rightarrow> with_call list" where
  "reached [] = []"
| "reached (c # cs) = (if has_nil c then [c] else c # reached cs)"

text \<open>Each field of \<open>b'\<close> is what the calls \<open>cs\<close> make of the same field of \<open>b\<close>.\<close>

definition collects :: "with_call list \<Rightarrow> LdapGroupBindingApplyConfiguration \<Rightarrow> LdapGroupBindingApplyConfiguration \<Rightarrow> bool" where
  "collects cs b b' \<longleftrightarrow>
     lba_Kind b' = last_value sets_kind (lba_Kind b) cs \<and>
     lba_APIVersion b' = last_value sets_version (lba_APIVersion b) cs \<and>
     lba_Spec b' = last_value sets_spec (lba_Spec b) cs \<and>
     (let m = meta_of b; m' = meta_of b' in
      oma_Name m' = last_value sets_name (oma_Name m) cs \<and>
      oma_GenerateName m' = last_value sets_generate_name (oma_GenerateName m) cs \<and>
      oma_Namespace m' = last_value sets_namespace (oma_Namespace m) cs \<and>
      oma_UID m' = last_value sets_uid (oma_UID m) cs \<and>
      oma_ResourceVersion m' = last_value sets_resource_version (oma_ResourceVersion m) cs \<and>
      oma_Generation m' = last_value sets_generation (oma_Generation m) cs \<and>
      oma_CreationTimestamp m' = last_value sets_creation (oma_CreationTimestamp m) cs \<and>
      oma_DeletionTimestamp m' = last_value sets_deletion (oma_DeletionTimestamp m) cs \<and>
      oma_DeletionGracePeriodSeconds m' = last_value sets_grace_period (oma_DeletionGracePeriodSeconds m) cs \<and>
      entry (oma_Labels m') = entry (oma_Labels m) ++ map_of (rev (concat (map adds_labels cs))) \<and>
      entry (oma_Annotations m') = entry (oma_Annotations m) ++ map_of (rev (concat (map adds_annotations cs))) \<and>
      oma_OwnerReferences m' = oma_OwnerReferences m @ concat (map adds_owners cs) \<and>
      oma_Finalizers m' = oma_Finalizers m @ concat (map adds_finalizers cs))"

lemma last_value_simps [simp]:
  "last_value sets d [] = d"
  "last_value sets d (c # cs) = last_value sets (case sets c of None \<Rightarrow> d | Some v \<Rightarrow> v) cs"
  by (simp_all add: last_value_def)

lemma collects_Nil [simp]: "collects [] b b"
  by (simp add: collects_def Let_def)

lemma collects_Cons:
  assumes "collects [c] b b1" and "collects cs b1 b2"
  shows "collects (c # cs) b b2"
  using assms by (simp add: collects_def Let_def)

text \<open>What one call does.\<close>

lemmas with_field_defs = With_Kind_def WithAPIVersion_def With_Name_def WithGenerateName_def With_Namespace_def WithUID_def
  WithResourceVersion_def WithGeneration_def WithCreationTimestamp_def WithDeletionTimestamp_def
  WithDeletionGracePeriodSeconds_def WithLabels_def WithAnnotations_def WithSpec_def

lemma own_fields [simp]:
  "meta_of (b\<lparr>lba_Kind := k\<rparr>) = meta_of b" "meta_of (b\<lparr>lba_APIVersion := k\<rparr>) = meta_of b"
  "meta_of (b\<lparr>lba_Spec := p\<rparr>) = meta_of b"
  by (simp_all add: meta_of_def)

lemma WithFinalizers_kind:
  "lba_Kind (WithFinalizers vs b) = lba_Kind b" "lba_APIVersion (WithFinalizers vs b) = lba_APIVersion b"
  by (simp_all add: WithFinalizers_def finalizers_loop [OF ensured_meta(1)])

lemma WithOwnerReferences_outcome:
  "\<exists>b'. WithOwnerReferences vs b = (if None \<in> set vs then Panicked else Completed) b' \<and>
    meta_of b' = oma_OwnerReferences_update (\<lambda>refs. refs @ until_nil vs) (meta_of b) \<and>
    lba_Kind b' = lba_Kind b \<and> lba_APIVersion b' = lba_APIVersion b \<and> lba_Spec b' = lba_Spec b"
  unfolding WithOwnerReferences_def owner_loop_outcome [OF ensured_meta(1)]
  by (intro exI conjI) (rule refl, simp_all add: meta_of_def [of "_\<lparr>lba_ObjectMeta := _\<rparr>"])

lemma apply_call_collects:
  "\<exists>b'. apply_call c b = (if has_nil c then Panicked else Completed) b' \<and> collects [c] b b'"
proof (cases c)
  case (CallOwnerReferences vs)
  then show ?thesis using WithOwnerReferences_outcome [of vs b] by (auto simp: collects_def Let_def)
next
  case (CallFinalizers vs)
  then show ?thesis by (simp add: collects_def Let_def WithFinalizers_meta WithFinalizers_kind)
qed (simp_all add: collects_def Let_def with_field_defs put_entries_entry)

lemma run_calls_collects:
  "\<exists>b'. run_calls cs b = (if list_ex has_nil cs then Panicked else Completed) b' \<and> collects (reached cs) b b'"
proof (induction cs arbitrary: b)
  case Nil
  then show ?case by simp
next
  case (Cons c cs)
  obtain b1 where one: "apply_call c b = (if has_nil c then Panicked else Completed) b1" "collects [c] b b1"
    using apply_call_collects by blast
  show ?case
  proof (cases "has_nil c")
    case True
    then show ?thesis using one by simp
  next
    case False
    obtain b2 where "run_calls cs b1 = (if list_ex has_nil cs then Panicked else Completed) b2"
      and "collects (reached cs) b1 b2" using Cons.IH by blast
    then show ?thesis using one False collects_Cons [of c b b1 "reached cs" b2] by auto
  qed
qed

lemma new_LdapGroupBinding_meta:
  "meta_of (new_LdapGroupBinding name) = zero_ObjectMeta\<lparr>oma_Name := Some name\<rparr>"
  "entry None = Map.empty"
  "lba_Spec (new_LdapGroupBinding name) = None" "GetKind b = lba_Kind b" "GetAPIVersion b = lba_APIVersion b"
  "lba_Kind (new_LdapGroupBinding name) = Some ''LdapGroupBinding''"
  "lba_APIVersion (new_LdapGroupBinding name) = Some ''rbac.kerbernetes.io/v1''"
  by (simp_all add: new_LdapGroupBinding_def With_Kind_def WithAPIVersion_def With_Name_def GetKind_def GetAPIVersion_def
      zero_ObjectMeta_def meta_of_def set_meta_def entry_def ensureObjectMetaApplyConfigurationExists_def fun_eq_iff)

lemma until_nil_all: "None \<notin> set vs \<Longrightarrow> until_nil vs = map the vs"
  by (induction vs rule: until_nil.induct) auto

end
