(* ===== verification/GeneratedProperties.thy ===== *)
theory GeneratedProperties
  imports DeepCopy ApplyConfig GeneratedClient
begin

text \<open>Properties of the generated code: deep copies, apply configurations and the client set.\<close>

section \<open>Deep copies\<close>

text \<open>C39. A deep copy of a binding has the same contents, with a nil list of items still nil, and
  shares none of them: writing to an item of one is not seen in the other.\<close>

theorem binding_copy_independent:
  assumes "binding_ok h b" and "LdapGroupBinding_DeepCopy meta_copy (Some b) h = (Some c, h')"
    and "\<And>m. meta_copy m = m"
  shows "binding_value h' c = binding_value h b \<and> binding_value h' b = binding_value h b \<and>
    (\<forall>s i x. smem_Bindings (bmem_Spec c) = Some s \<longrightarrow>
       binding_value (h'\<lparr>oh_items := slice_set (oh_items h') s i x\<rparr>) b = binding_value h b) \<and>
    (\<forall>s i x. smem_Bindings (bmem_Spec b) = Some s \<longrightarrow>
       binding_value (h'\<lparr>oh_items := slice_set (oh_items h') s i x\<rparr>) c = binding_value h b)"
proof -
  have run: "LdapGroupBinding_DeepCopyInto meta_copy b h = (c, h')"
    using assms(2) by (simp add: LdapGroupBinding_DeepCopy_def split: prod.splits)
  note copy = binding_copy [OF assms(1) run assms(3)]
  note same = binding_value_extends [OF copy(3) assms(1)]
  have apart: "sl_arr s \<noteq> sl_arr t" if "smem_Bindings (bmem_Spec b) = Some s" "smem_Bindings (bmem_Spec c) = Some t" for s t
    using copy(5) assms(1) that by (fastforce simp: spec_ok_def slice_ok_def item_array_def)
  have untouched: "binding_value (h'\<lparr>oh_items := slice_set (oh_items h') s i x\<rparr>) d = binding_value h' d"
    if "\<And>t. smem_Bindings (bmem_Spec d) = Some t \<Longrightarrow> sl_arr t \<noteq> sl_arr s" for s i x d
    using that
    by (cases "smem_Bindings (bmem_Spec d)") (simp_all add: binding_value_def spec_value_def slice_set_other)
  have "binding_value (h'\<lparr>oh_items := slice_set (oh_items h') s i x\<rparr>) b = binding_value h' b"
    if "smem_Bindings (bmem_Spec c) = Some s" for s i x
    by (rule untouched) (use apart that in blast)
  moreover have "binding_value (h'\<lparr>oh_items := slice_set (oh_items h') s i x\<rparr>) c = binding_value h' c"
    if "smem_Bindings (bmem_Spec b) = Some s" for s i x
    by (rule untouched) (use apart that in metis)
  ultimately show ?thesis using copy(1) same(1) by simp
qed

definition example_heap :: object_heap where
  "example_heap = \<lparr>oh_items = \<lparr>st_next = 1, st_arrays = (\<lambda>_. [zero_item])\<rparr>, oh_bindings = \<lparr>st_next = 0, st_arrays = (\<lambda>_. [])\<rparr>\<rparr>"

definition example_binding :: binding_mem where
  "example_binding = zero_binding\<lparr>bmem_Spec := \<lparr>smem_LdapGroupDN = ''cn=devs'',
     smem_Bindings = Some \<lparr>sl_arr = 0, sl_len = 1, sl_cap = 1\<rparr>\<rparr>\<rparr>"

lemma binding_copy_independent_witness:
  "\<exists>c h'. LdapGroupBinding_DeepCopy (\<lambda>m. m) (Some example_binding) example_heap = (Some c, h') \<and>
    binding_value (h'\<lparr>oh_items := slice_set (oh_items h') \<lparr>sl_arr = 0, sl_len = 1, sl_cap = 1\<rparr> 0
      (zero_item\<lparr>item_Name := ''new''\<rparr>)\<rparr>) c = binding_value example_heap example_binding"
proof -
  have ok: "binding_ok example_heap example_binding"
    by (simp add: spec_ok_def example_binding_def example_heap_def slice_ok_def)
  obtain c h' where run: "LdapGroupBinding_DeepCopy (\<lambda>m. m) (Some example_binding) example_heap = (Some c, h')"
    using DeepCopy_Some(1) by blast
  from binding_copy_independent [OF ok run] run show ?thesis
    by (auto simp: example_binding_def)
qed

text \<open>A deep copy of a list has the same bindings in the same order, nil when the list is nil, and
  its own array: assigning to an element of the copy leaves the list as it was.\<close>

theorem list_copy_independent:
  assumes "list_ok h l" and "LdapGroupBindingList_DeepCopy meta_copy list_copy (Some l) h = (Some out, h')"
    and "\<And>m. meta_copy m = m"
  shows "map_option (map (binding_value h')) (items_of h' out) = map_option (map (binding_value h)) (items_of h l) \<and>
    map_option (map (binding_value h')) (items_of h' l) = map_option (map (binding_value h)) (items_of h l) \<and>
    (\<forall>s i x. lmem_Items out = Some s \<longrightarrow>
       items_of (h'\<lparr>oh_bindings := slice_set (oh_bindings h') s i x\<rparr>) l = items_of h l)"
proof -
  have run: "LdapGroupBindingList_DeepCopyInto meta_copy list_copy l h = (out, h')"
    using assms(2) by (simp add: LdapGroupBindingList_DeepCopy_def split: prod.splits)
  note copy = list_copy_spec [OF assms(1) run assms(3)]
  have same_values: "map (binding_value h') ys = map (binding_value h) xs" if "list_all2 (copied h h') xs ys" for xs ys
    using that by (induction rule: list_all2_induct) (auto simp: copied_def)
  have "map_option (map (binding_value h')) (items_of h' out) = map_option (map (binding_value h)) (items_of h l)"
    using copy(3) same_values by (cases "items_of h l"; cases "items_of h' out") simp_all
  moreover have elems: "slice_elems (oh_bindings h') s = slice_elems (oh_bindings h) s" if "lmem_Items l = Some s" for s
    using extends_elems(1) [OF copy(2)] assms(1) that by (simp add: list_ok_def)
  moreover have "map (binding_value h') (slice_elems (oh_bindings h) s) = map (binding_value h) (slice_elems (oh_bindings h) s)"
    if "lmem_Items l = Some s" for s
    using binding_value_extends(1) [OF copy(1)] assms(1) that by (simp add: list_ok_def)
  moreover have "sl_arr t \<noteq> sl_arr s" if "lmem_Items l = Some t" "lmem_Items out = Some s" for s t
    using copy(4) [OF that(2)] assms(1) that(1) by (auto simp: list_ok_def slice_ok_def)
  ultimately show ?thesis
    by (cases "lmem_Items l") (auto simp: items_of_def slice_set_other)
qed

definition example_list :: list_mem where
  "example_list = \<lparr>lmem_TypeMeta = \<lparr>tm_Kind = '''', tm_APIVersion = ''''\<rparr>,
     lmem_ListMeta = \<lparr>lm_ResourceVersion = '''', lm_Continue = ''''\<rparr>,
     lmem_Items = Some \<lparr>sl_arr = 0, sl_len = 1, sl_cap = 1\<rparr>\<rparr>"

definition example_list_heap :: object_heap where
  "example_list_heap = example_heap\<lparr>oh_bindings := \<lparr>st_next = 1, st_arrays = (\<lambda>_. [example_binding])\<rparr>\<rparr>"

lemma list_copy_independent_witness:
  "\<exists>out h'. LdapGroupBindingList_DeepCopy (\<lambda>m. m) (\<lambda>m. m) (Some example_list) example_list_heap = (Some out, h') \<and>
    map_option (map (binding_value h')) (items_of h' out) = Some [binding_value example_list_heap example_binding]"
proof -
  have ok: "list_ok example_list_heap example_list"
    by (simp add: list_ok_def spec_ok_def example_list_def example_list_heap_def example_binding_def example_heap_def
        slice_ok_def slice_elems_def)
  obtain out h' where run: "LdapGroupBindingList_DeepCopy (\<lambda>m. m) (\<lambda>m. m) (Some example_list) example_list_heap = (Some out, h')"
    using DeepCopy_Some(2) by blast
  from list_copy_independent [OF ok run] run show ?thesis
    by (simp add: items_of_def example_list_def example_list_heap_def slice_elems_def)
qed

section \<open>Apply configurations\<close>

text \<open>C40. A chain of \<open>With\<close> calls on a new configuration gives in each field what the calls for this
  field ask for on their own, however they are mixed with others: the last value set, or else
  that of the constructor; for each key of the labels and of the annotations the last value;
  all finalizers and all owner references in order. It panics exactly when an owner reference
  is nil, with the calls before, and the references before in that call, already done.\<close>

theorem chain_collects_each_kind:
  "\<exists>b. run_calls cs (new_LdapGroupBinding name) = (if list_ex has_nil cs then Panicked b else Completed b) \<and>
    (let m = meta_of b; cs' = reached cs in
     GetKind b = last_value sets_kind (Some ''LdapGroupBinding'') cs' \<and>
     GetAPIVersion b = last_value sets_version (Some ''rbac.kerbernetes.io/v1'') cs' \<and>
     lba_Spec b = last_value sets_spec None cs' \<and>
     fst (GetName b) = last_value sets_name (Some name) cs' \<and>
     fst (Get_Namespace b) = last_value sets_namespace None cs' \<and>
     oma_GenerateName m = last_value sets_generate_name None cs' \<and>
     oma_UID m = last_value sets_uid None cs' \<and>
     oma_ResourceVersion m = last_value sets_resource_version None cs' \<and>
     oma_Generation m = last_value sets_generation None cs' \<and>
     oma_CreationTimestamp m = last_value sets_creation None cs' \<and>
     oma_DeletionTimestamp m = last_value sets_deletion None cs' \<and>
     oma_DeletionGracePeriodSeconds m = last_value sets_grace_period None cs' \<and>
     entry (oma_Labels m) = map_of (rev (concat (map adds_labels cs'))) \<and>
     entry (oma_Annotations m) = map_of (rev (concat (map adds_annotations cs'))) \<and>
     oma_OwnerReferences m = concat (map adds_owners cs') \<and>
     oma_Finalizers m = concat (map adds_finalizers cs'))"
proof -
  obtain b where run: "run_calls cs (new_LdapGroupBinding name) = (if list_ex has_nil cs then Panicked b else Completed b)"
    and "collects (reached cs) (new_LdapGroupBinding name) b"
    using run_calls_collects [of cs "new_LdapGroupBinding name"] by (auto split: if_splits)
  then show ?thesis
    by (intro exI [of _ b])
      (simp add: collects_def Let_def getters new_LdapGroupBinding_meta zero_ObjectMeta_def)
qed

text \<open>The items given to a specification are taken in order up to the first nil pointer, at
  which the call panics with the ones before already appended.\<close>

theorem nil_item_panics:
  "WithBindings vs b =
     (if None \<in> set vs then Panicked (b\<lparr>spa_Bindings := spa_Bindings b @ until_nil vs\<rparr>)
      else Completed (b\<lparr>spa_Bindings := spa_Bindings b @ map the vs\<rparr>))"
  using WithBindings_outcome [of vs b] until_nil_all [of vs] by simp

section \<open>The client set\<close>

text \<open>The two clients of a client set talk to the API server with one HTTP client, one user agent
  and one rate limiter; the client of the group asks for \<open>rbac.kerbernetes.io/v1\<close> under
  \<open>/apis\<close>. A configuration that sets a rate without a limiter must allow a positive burst.\<close>

theorem clients_share_configuration:
  assumes "NewForConfig R c = Inr cs"
  shows "\<exists>h config rbac_config. rl_RESTClientFor R rbac_config h = Inr (rkc_restClient (RbacKerbernetesV1 cs)) \<and>
    rl_NewDiscoveryClientFor R config h = Inr (lcs_DiscoveryClient cs) \<and>
    rcf_GroupVersion rbac_config = Some SchemeGroupVersion \<and> rcf_APIPath rbac_config = ''/apis'' \<and>
    rcf_Host rbac_config = rcf_Host c \<and> rcf_Host config = rcf_Host c \<and>
    rcf_RateLimiter rbac_config = rcf_RateLimiter config \<and>
    (rcf_UserAgent c \<noteq> '''' \<longrightarrow> rcf_UserAgent rbac_config = rcf_UserAgent c) \<and>
    rcf_UserAgent rbac_config = rcf_UserAgent config \<and>
    (rcf_RateLimiter c = None \<and> rcf_QPS c > 0 \<longrightarrow>
       rcf_Burst c > 0 \<and> rcf_RateLimiter config = Some (rl_NewTokenBucketRateLimiter R (rcf_QPS c) (rcf_Burst c)))"
proof -
  obtain h where parts:
    "rl_RESTClientFor R (setConfigDefaults R (shared_config R c)) h = Inr (rkc_restClient (lcs_rbacKerbernetesV1 cs))"
    "rl_NewDiscoveryClientFor R (shared_config R c) h = Inr (lcs_DiscoveryClient cs)"
    "rcf_RateLimiter c \<noteq> None \<or> rcf_QPS c \<le> 0 \<or> rcf_Burst c > 0"
    using assms by (rule NewForConfig_parts)
  then show ?thesis
    by (intro exI [of _ h] exI [of _ "shared_config R c"] exI [of _ "setConfigDefaults R (shared_config R c)"])
       (auto simp: RbacKerbernetesV1_def setConfigDefaults_fields shared_config_fields)
qed

definition example_rest :: "(unit, unit, unit, string, string) rest_lib" where
  "example_rest = \<lparr>rl_DefaultUserAgent = ''agent'', rl_CodecFactory = (), rl_HTTPClientFor = (\<lambda>c. Inr ()),
     rl_NewTokenBucketRateLimiter = (\<lambda>q b. ()), rl_RESTClientFor = (\<lambda>c h. Inr (rcf_UserAgent c)),
     rl_NewDiscoveryClientFor = (\<lambda>c h. Inr (rcf_UserAgent c)), rl_NewDiscoveryClient = (\<lambda>r. r)\<rparr>"

definition example_config :: "(unit, unit) rest_config" where
  "example_config = \<lparr>rcf_Host = ''https://10.0.0.1'', rcf_UserAgent = ''kerbernetes'', rcf_RateLimiter = None,
     rcf_QPS = 5, rcf_Burst = 10, rcf_GroupVersion = None, rcf_APIPath = '''', rcf_NegotiatedSerializer = None\<rparr>"

lemma clients_share_configuration_witness:
  "\<exists>cs. NewForConfig example_rest example_config = Inr cs \<and> rkc_restClient (RbacKerbernetesV1 cs) = lcs_DiscoveryClient cs"
proof -
  have "NewForConfig example_rest example_config =
      Inr \<lparr>lcs_DiscoveryClient = ''kerbernetes'', lcs_rbacKerbernetesV1 = \<lparr>rkc_restClient = ''kerbernetes''\<rparr>\<rparr>"
    by (simp add: NewForConfig_def NewForConfigAndClient_def V1_NewForConfigAndClient_def setConfigDefaults_def
        example_rest_def example_config_def Let_def)
  from clients_share_configuration [OF this] this show ?thesis by (auto simp: example_rest_def)
qed

end
