(* ===== verification/Spec2Isabelle.thy ===== *)
theory Spec2Isabelle
  imports ConcurrencyProperties EndToEnd ServiceProperties ClientProperties GeneratedProperties
begin

text \<open>
  Kerbernetes gives the users of a Kerberos realm access to a Kubernetes cluster. A client calls
  one HTTP endpoint with a Kerberos ticket and gets back credentials with a token of a service
  account named like the user. On the way the service brings the ClusterRoleBindings and
  RoleBindings of that service account in line with the user's LDAP groups, as the custom
  resources LdapGroupBinding map groups to roles. This development models the Go code of the
  repository (paths are under \<open>src/\<close>) and proves what makes it correct, and where it is not.

  \<^bold>\<open>The parts and their theories.\<close>

  \<^item> Prelude: operations on a world with errors as values, loops with early return, Go maps as
    association lists with an arbitrary order of visit, operations that keep a part of the world.
  \<^item> KubeTypes, Scheme: the objects of the API (\<open>k8s/api\<close>), the typed clients, and the
    documented promises of the API server as predicates: \<open>kube_api\<close>, what an answer means;
    \<open>rbac_live\<close>, that valid requests are answered; \<open>rbac_refuses\<close>, that a second object of one
    name and a change of a role reference are refused.
  \<^item> Env, K8s, Ldap: \<open>internal/services/env\<close>, \<open>k8s\<close> and \<open>ldap\<close>.
  \<^item> Slices, InformerFactory, LdapGroupBindings: Go slices over a store of arrays; the generated
    informer factory (\<open>k8s/generated/informers\<close>); the cache of LdapGroupBindings with its event
    handlers (\<open>internal/services/k8s/ldapgroupbindings\<close>). Informer and FactoryRuns are the cache
    and the factory over time, as step relations with invariants.
  \<^item> Reconcile: the interface between a reconciliation and the store of bindings it works on, as
    locales (\<open>binding_provider\<close>, \<open>managed_store\<close>, \<open>live_store\<close>), with the facts proved once;
    ServiceAccounts (\<open>internal/services/k8s/serviceaccounts\<close>) and Liveness interpret them for
    ClusterRoleBindings and RoleBindings.
  \<^item> Auth: \<open>internal/services/auth/auth.service.go\<close>, a login. AuthReconcile, Grants, Liveness,
    Stability, Hazards and Login hold the lemmas about it, in this order.
  \<^item> Requests, Interference, SharedLogin, ConcurrentLogins, Schedules: logins at the same time. The
    same code runs on a client set and a directory that let the others act before each request
    and record it; requests of several users are interleaved by a schedule.
  \<^item> Http: \<open>internal/security\<close>, \<open>internal/middlewares\<close> and \<open>internal/controllers/auth\<close>.
  \<^item> Startup, Wiring: the injector, the controllers, the API description and \<open>cmd/api/main.go\<close>.
  \<^item> DeepCopy, ApplyConfig, GeneratedClient: the generated code of \<open>k8s/api\<close>,
    \<open>k8s/generated/applyconfiguration\<close> and \<open>k8s/generated/clientset\<close>. TypedClient and FakeClient:
    what the client set hands out (\<open>scheme\<close>, \<open>typed\<close>, \<open>k8s/generated/listers\<close>), the schema parser
    (\<open>applyconfiguration/internal\<close>) and the fake client set (\<open>fake\<close>).
  \<^item> MemoryServer, Examples: an API server in memory, proved to keep the promises, and a
    directory; the witnesses are evaluated on them.
  \<^item> The properties are in this theory (logins, the endpoint, defects), in EndToEnd (the process,
    its informer and a request together, before and after the cache is filled) and in ConcurrencyProperties, CacheProperties,
    ServiceProperties, StartupProperties, ClientProperties and GeneratedProperties.

  \<^bold>\<open>How the code is modelled.\<close> A Go function that talks to the cluster or to the directory is a
  function of the world, of an arbitrary type, that returns its result (\<open>Inl\<close> an error) and the
  new world. Every early return is a branch. The Kubernetes API server, the LDAP client, the
  Kerberos library, viper and the REST library are parameters; the theorems state what they
  rely on, and \<open>mem_kube_api\<close> shows that it can hold. A Go map is passed to a function and
  returned changed. Pointers and slices are addresses where sharing matters: the cache, the
  informers, deep copies, and the specifications of apply configurations. A Go \<open>int\<close> is a
  64-bit word. \<open>os.Exit\<close> and panics are the result \<open>None\<close> or an outcome of their own; a wait
  that never ends is the outcome \<open>Blocked\<close>. All loops are over finite slices or maps, so
  every definition is total and no fuel is needed.

  \<^bold>\<open>What the theorems show.\<close> The reconciliation is a refinement: after a successful one the roles
  bound to a user are the roles due, whatever was bound before (\<open>cluster_roles_reconciled\<close>,
  \<open>roles_reconciled\<close>), which a login carries end to end (\<open>login_grants_due_roles\<close>); it touches
  nothing else, loses nothing on the way, succeeds on a server that answers, and repeated only
  reads. Logins of different users do not meet, also when their requests are interleaved in any
  way: a login makes only requests that the others do not notice, relying on the same of
  them, and by induction over the schedule each ends as if it had run alone
  (\<open>simultaneous_logins_grant_due_roles\<close>). Refused logins change no binding, and the endpoint runs a
  login only for an authenticated user. The cache mirrors the cluster once its
  notifications are delivered, and its slice handling is that of plain lists. The factory runs
  each informer once, and the service's \<open>Start\<close> runs the informer its handlers are registered
  with. A process that comes up serves logins at one consistent set of services. All of this
  together is \<open>answered_request_grants_stored_roles\<close>: from the injector over the informer to the
  roles, by the LdapGroupBindings that are stored in the cluster.

  The defects are theorems too: logins that fail for ever on an update of a role reference,
  RoleBindings found by name without their namespace, simultaneous logins of one user, logins
  before the cache is filled, a background start that waits for ever and never reports, the
  panic on a missed deletion, updates seen through a slice handed out before, and the default
  group filter.

  \<^bold>\<open>Assumptions of the cluster.\<close> The promises of the API server hold for each request. The
  theorems about a login alone leave other clients out; those of ConcurrencyProperties let
  logins of other users make any of their requests between any two of this login. There a
  write that fails is assumed to have been done or not (\<open>kube_settles\<close>), and the cluster to
  start out \<open>tidy\<close>: bindings managed for a user have the user's prefix in their names, and no
  other subject. The requests to the directory are part of the schedules too; all that is
  assumed of them is that they change no object of the API server (\<open>directory_apart\<close>). The
  informer's own view of the cluster is in theory Informer.

  \<^bold>\<open>Not modelled.\<close> Logging; the HTTP router and the encoding of responses; the verification of
  Kerberos tickets; Go interfaces, which only list methods; what the generic types of the
  client library do (typed clients, listers, object trackers); the shell client, the charts
  and the manifests.
\<close>

section \<open>Reconciliation\<close>

text \<open>C1. After a successful reconciliation the cluster roles that the bindings managed for the
  user give are exactly those the LdapGroupBindings ask for: everything due is granted and
  everything else is revoked, whatever was bound before and in whatever order the maps are
  visited.\<close>

theorem cluster_roles_reconciled:
  assumes "kube_api (svc_clientset (as_serviceAccountsSvc s)) V" and "wired s"
    and "visits_each (as_crbOrder s)"
    and "fst (reconcileClusterAndRoleBindings s u ls w) = Inr ()"
  shows "cluster_roles V (as_serviceAccountsSvc s) u (snd (reconcileClusterAndRoleBindings s u ls w))
    = due_cluster_roles ls"
proof -
  have "reconcileClusterAndRoleBindings s u ls w = (Inr (), snd (reconcileClusterAndRoleBindings s u ls w))"
    using assms(4) by (simp add: prod_eq_iff)
  from reconcile_crbs [OF assms(1-3) this] show ?thesis by (rule reconciled_cluster_roles)
qed

lemma cluster_roles_reconciled_witness:
  "cluster_roles mem_V example_svc ''ann''
     (snd (reconcileClusterAndRoleBindings example_auth ''ann'' [devs] empty_world)) = due_cluster_roles [devs]"
proof (rule cluster_roles_reconciled)
  show "fst (reconcileClusterAndRoleBindings example_auth ''ann'' [devs] empty_world) = Inr ()" by code_simp
qed (simp_all add: example_hyps)

text \<open>C2. The same for roles in namespaces, with the namespace as part of the role, provided that
  no name of the user's RoleBindings is in use in two namespaces or wanted in another one
  than where it is.\<close>

theorem roles_reconciled:
  assumes "kube_api (svc_clientset (as_serviceAccountsSvc s)) V" and "wired s"
    and "visits_each (as_rbOrder s)" and "namespaces_settled V (as_serviceAccountsSvc s) u ls w"
    and "fst (reconcileClusterAndRoleBindings s u ls w) = Inr ()"
  shows "roles V (as_serviceAccountsSvc s) u (snd (reconcileClusterAndRoleBindings s u ls w)) = due_roles ls"
proof -
  have "reconcileClusterAndRoleBindings s u ls w = (Inr (), snd (reconcileClusterAndRoleBindings s u ls w))"
    using assms(5) by (simp add: prod_eq_iff)
  from reconcile_rbs [OF assms(1-4) this] show ?thesis by (rule reconciled_roles [OF assms(1)])
qed

lemma roles_reconciled_witness:
  "roles mem_V example_svc ''ann''
     (snd (reconcileClusterAndRoleBindings example_auth ''ann'' [devs] empty_world)) = due_roles [devs]"
proof (rule roles_reconciled)
  show "fst (reconcileClusterAndRoleBindings example_auth ''ann'' [devs] empty_world) = Inr ()" by code_simp
qed (simp_all add: example_hyps namespaces_settled_def)

text \<open>C8. A reconciliation for a user, also one that stops at an error, changes no binding that is
  neither managed for the user nor one of those the items name.\<close>

theorem foreign_bindings_untouched:
  assumes "kube_api (svc_clientset (as_serviceAccountsSvc s)) V" and "wired s"
    and "k \<notin> crb_key u ` set (cluster_requests (all_items ls))"
    and "\<not> (\<exists>b. v_CRB V w k = Some b \<and> managed_for (as_serviceAccountsSvc s) u b)"
    and "l \<notin> rb_key u ` set (role_requests (all_items ls))"
    and "\<not> (\<exists>b. v_RB V w l = Some b \<and> managed_for (as_serviceAccountsSvc s) u b)"
  shows "v_CRB V (snd (reconcileClusterAndRoleBindings s u ls w)) k = v_CRB V w k \<and>
    v_RB V (snd (reconcileClusterAndRoleBindings s u ls w)) l = v_RB V w l"
  using reconcile_frame_crb [OF assms(1-3)] reconcile_frame_rb [OF assms(1,2,5)] assms(4,6) by blast

lemma foreign_bindings_untouched_witness:
  "v_CRB mem_V (snd (reconcileClusterAndRoleBindings example_auth ''ann'' [devs] empty_world)) ((), ''x'') = None
   \<and> v_RB mem_V (snd (reconcileClusterAndRoleBindings example_auth ''ann'' [devs] empty_world)) (''ns'', ''x'') = None"
  using foreign_bindings_untouched [of example_auth mem_V "((), ''x'')" "''ann''" "[devs]" empty_world "(''ns'', ''x'')"]
  by (simp add: example_hyps set_cluster_requests set_role_requests image_iff crb_key_def rb_key_def GenBindingName_def)

text \<open>C9. On an API server that answers valid requests the reconciliation succeeds under these
  conditions: the items name distinct bindings, which the server admits; the bindings that
  exist under these names are managed for the user, a ClusterRoleBinding with the wanted
  role, a RoleBinding such that the server admits the update that brings it in line; and no
  name of the user's RoleBindings is in use in two namespaces or wanted in another one than
  where it is.\<close>

theorem reconciliation_succeeds:
  assumes "kube_api (svc_clientset (as_serviceAccountsSvc s)) V" and "wired s"
    and "crb_live ca (svc_clientset (as_serviceAccountsSvc s)) V"
    and "rb_live ra (svc_clientset (as_serviceAccountsSvc s)) V"
    and "visits_each (as_crbOrder s)" and "visits_each (as_rbOrder s)"
    and "cluster_ready ca V (as_serviceAccountsSvc s) u ls w"
    and "roles_ready ra V (as_serviceAccountsSvc s) u ls w"
  shows "fst (reconcileClusterAndRoleBindings s u ls w) = Inr ()"
  using reconcile_live [OF assms] by auto

lemma reconciliation_succeeds_witness:
  "fst (reconcileClusterAndRoleBindings example_auth ''ann'' [devs] empty_world) = Inr ()"
proof (rule reconciliation_succeeds [where V = mem_V])
  show "cluster_ready (\<lambda>_ b. rr_APIGroup (rb_RoleRef b) \<noteq> '''') mem_V example_svc ''ann'' [devs] empty_world"
    by (simp add: cluster_ready_def devs_requests crb_object_def)
  show "roles_ready (\<lambda>_ b. rr_APIGroup (rb_RoleRef b) \<noteq> '''') mem_V example_svc ''ann'' [devs] empty_world"
    by (simp add: roles_ready_def namespaces_settled_def devs_requests rb_object_def)
qed (simp_all add: example_hyps mem_live)

text \<open>C10. A ClusterRoleBinding that exists under the name an item asks for is never lost, so a
  cluster role the user holds and is due stays granted all the way: whether the
  reconciliation succeeds or stops at an error, the binding is the same object afterwards,
  also when several items ask for the same binding, on an API server that refuses to create
  what exists and to change a role reference.\<close>

theorem due_cluster_role_kept:
  assumes "kube_api (svc_clientset (as_serviceAccountsSvc s)) V" and "wired s"
    and "rbac_refuses (cs_ClusterRoleBindings (svc_clientset (as_serviceAccountsSvc s))) (v_CRB V)"
    and "(l, r) \<in> set (cluster_requests (all_items ls))"
    and "v_CRB V w ((), GenBindingName u r l) = Some b"
  shows "v_CRB V (snd (reconcileClusterAndRoleBindings s u ls w)) ((), GenBindingName u r l) = Some b"
  using reconcile_present(1) [OF assms(1,3,2,4), of w u b] assms(5) by (simp add: crb_key_def)

lemma due_cluster_role_kept_witness:
  "v_CRB mem_V (snd (reconcileClusterAndRoleBindings example_auth ''ann'' [devs] (granted_world [''dev''])))
     ((), GenBindingName ''ann'' ''view'' ''devs'') =
   Some (stamp (\<lambda>_. '''') ((), ''kerbernetes:ann:devs:view'') (crb_object example_svc ''ann'' (''devs'', ''view'')))"
  by (rule due_cluster_role_kept)
     (simp_all add: example_hyps mem_refuses devs_requests GenBindingName_def granted_CRB)



section \<open>A login\<close>

text \<open>C3. End to end: with LDAP enabled, after a login that issues credentials the user holds
  exactly the cluster roles due for the groups the directory returned in this login, by the
  LdapGroupBindings cached when it was asked. It is so for the roles in namespaces too,
  provided that no name of the user's RoleBindings is in use in two namespaces or wanted in
  another one than where it is.\<close>

theorem login_grants_due_roles:
  assumes "kube_api (svc_clientset (as_serviceAccountsSvc s)) V" and "wired s"
    and "visits_each (as_crbOrder s)" and "visits_each (as_rbOrder s)"
    and "ldap_keeps (v_RB V) (ls_lib (as_ldapSvc s))"
    and "env_LDAPEnabled (as_env s)" and "AuthAccount s u w = (Inr cred, w')"
  shows "\<exists>sa w1 user w2 groups w3.
    UpsertServiceAccount (as_serviceAccountsSvc s) u w = (Inr sa, w1) \<and>
    GetUser (as_ldapSvc s) u w1 = (Inr user, w2) \<and>
    GetUserGroups (as_ldapSvc s) (entry_DN user) w2 = (Inr groups, w3) \<and>
    (let ls = filter (\<lambda>l. spec_LdapGroupDN (lgb_Spec l) \<in> set groups) (cached (as_ldapGroupBindingsSvc s w3))
     in cluster_roles V (as_serviceAccountsSvc s) u w' = due_cluster_roles ls \<and>
       (namespaces_settled V (as_serviceAccountsSvc s) u ls w \<longrightarrow>
          roles V (as_serviceAccountsSvc s) u w' = due_roles ls))"
  by (rule login_roles [OF assms]) (auto simp: Let_def)

lemma login_grants_due_roles_witness:
  "\<exists>sa w1 user w2 groups w3.
    UpsertServiceAccount example_svc ''ann'' example_world = (Inr sa, w1) \<and>
    GetUser (as_ldapSvc example_auth) ''ann'' w1 = (Inr user, w2) \<and>
    GetUserGroups (as_ldapSvc example_auth) (entry_DN user) w2 = (Inr groups, w3) \<and>
    (let ls = filter (\<lambda>l. spec_LdapGroupDN (lgb_Spec l) \<in> set groups) (cached (mem_cache w3))
     in cluster_roles mem_V example_svc ''ann'' (snd (AuthAccount example_auth ''ann'' example_world)) = due_cluster_roles ls \<and>
       (namespaces_settled mem_V example_svc ''ann'' ls example_world \<longrightarrow>
          roles mem_V example_svc ''ann'' (snd (AuthAccount example_auth ''ann'' example_world)) = due_roles ls))"
proof -
  have "AuthAccount example_auth ''ann'' example_world =
      (Inr \<lparr>cr_Kind = ''ExecCredential'', cr_ApiVersion = ''client.authentication.k8s.io/v1beta1'',
        cr_Status = Some \<lparr>st_Token = ''token-ann'', st_ExpirationTimestamp = 600\<rparr>\<rparr>,
       snd (AuthAccount example_auth ''ann'' example_world))"
    using example_login by (simp add: prod_eq_iff)
  from login_grants_due_roles [OF _ _ _ _ _ _ this, of mem_V] show ?thesis
    by (simp add: example_hyps example_ldap_keeps example_env_def)
qed

text \<open>C12. Logins do not touch each other's bindings: when no user name has a colon, a login of one
  user, whatever its outcome, leaves every binding under a name made for another user as it
  is, unless it is managed for the first user too.\<close>

theorem other_users_untouched:
  assumes "kube_api (svc_clientset (as_serviceAccountsSvc s)) V" and "wired s"
    and "ldap_keeps (v_CRB V) (ls_lib (as_ldapSvc s))" and "ldap_keeps (v_RB V) (ls_lib (as_ldapSvc s))"
    and "CHR '':'' \<notin> set u" and "CHR '':'' \<notin> set v" and "u \<noteq> v"
    and "\<not> (\<exists>b. v_CRB V w ((), GenBindingName v r l) = Some b \<and> managed_for (as_serviceAccountsSvc s) u b)"
    and "\<not> (\<exists>b. v_RB V w (ns, GenBindingName v r l) = Some b \<and> managed_for (as_serviceAccountsSvc s) u b)"
  shows "v_CRB V (snd (AuthAccount s u w)) ((), GenBindingName v r l) = v_CRB V w ((), GenBindingName v r l) \<and>
    v_RB V (snd (AuthAccount s u w)) (ns, GenBindingName v r l) = v_RB V w (ns, GenBindingName v r l)"
proof -
  have name: "GenBindingName u r' l' \<noteq> GenBindingName v r l" for r' l'
    using GenBindingName_user [OF assms(5,6)] assms(7) by blast
  then have c: "((), GenBindingName v r l) \<notin> crb_key u ` D" and n: "(ns, GenBindingName v r l) \<notin> rb_key u ` E" for D E
    by (auto simp: crb_key_def rb_key_def name [THEN not_sym])
  have "v_CRB V (snd (AuthAccount s u w)) ((), GenBindingName v r l) = v_CRB V w ((), GenBindingName v r l)"
  proof (rule AuthAccount_invariant [OF assms(1) kube_apiD(8) [OF assms(1)] assms(3),
        where Q = "\<lambda>f. f ((), GenBindingName v r l) = v_CRB V w ((), GenBindingName v r l)"])
    fix ls x
    assume "v_CRB V x = v_CRB V w"
    then show "v_CRB V (snd (reconcileClusterAndRoleBindings s u ls x)) ((), GenBindingName v r l) =
        v_CRB V w ((), GenBindingName v r l)"
      using reconcile_frame_crb [OF assms(1,2) c, where ls = ls and w = x] assms(8) by auto
  qed simp
  moreover have "v_RB V (snd (AuthAccount s u w)) (ns, GenBindingName v r l) = v_RB V w (ns, GenBindingName v r l)"
  proof (rule AuthAccount_invariant [OF assms(1) kube_apiD(9) [OF assms(1)] assms(4),
        where Q = "\<lambda>f. f (ns, GenBindingName v r l) = v_RB V w (ns, GenBindingName v r l)"])
    fix ls x
    assume "v_RB V x = v_RB V w"
    then show "v_RB V (snd (reconcileClusterAndRoleBindings s u ls x)) (ns, GenBindingName v r l) =
        v_RB V w (ns, GenBindingName v r l)"
      using reconcile_frame_rb [OF assms(1,2) n, where ls = ls and w = x] assms(9) by auto
  qed simp
  ultimately show ?thesis ..
qed

lemma other_users_untouched_witness:
  "v_CRB mem_V (snd (AuthAccount example_auth ''bob'' (granted_world [''dev''])))
     ((), GenBindingName ''ann'' ''view'' ''devs'') =
   v_CRB mem_V (granted_world [''dev'']) ((), GenBindingName ''ann'' ''view'' ''devs'') \<and>
   v_RB mem_V (snd (AuthAccount example_auth ''bob'' (granted_world [''dev''])))
     (''dev'', GenBindingName ''ann'' ''view'' ''devs'') =
   v_RB mem_V (granted_world [''dev'']) (''dev'', GenBindingName ''ann'' ''view'' ''devs'')"
  by (rule other_users_untouched)
     (simp_all add: example_hyps example_ldap_keeps GenBindingName_def granted_CRB granted_RB
       managed_for_def crb_object_def sa_subjects_def subject_is_def)

text \<open>C13. Credentials carry a token that was requested for the user's own service account in the
  service's namespace, with the configured audience and lifetime, and nothing else.\<close>

theorem credentials_are_for_the_user:
  assumes "kube_api (svc_clientset (as_serviceAccountsSvc s)) V"
    and "AuthAccount s u w = (Inr cred, w')"
  shows "\<exists>v token. sc_CreateToken (cs_ServiceAccounts (svc_clientset (as_serviceAccountsSvc s)))
      (svc_namespace (as_serviceAccountsSvc s)) u
      \<lparr>tr_Spec = \<lparr>trs_Audiences = [env_TokenAudience (svc_env (as_serviceAccountsSvc s))],
         trs_ExpirationSeconds = Some (env_TokenDuration (svc_env (as_serviceAccountsSvc s)))\<rparr>,
       tr_Status = \<lparr>tst_Token = '''', tst_ExpirationTimestamp = 0\<rparr>\<rparr> v = (Inr token, w') \<and>
    cred = \<lparr>cr_Kind = ''ExecCredential'', cr_ApiVersion = ''client.authentication.k8s.io/v1beta1'',
      cr_Status = Some \<lparr>st_Token = tst_Token (tr_Status token),
        st_ExpirationTimestamp = tst_ExpirationTimestamp (tr_Status token)\<rparr>\<rparr>"
proof -
  obtain sa w1 w2 token where "UpsertServiceAccount (as_serviceAccountsSvc s) u w = (Inr sa, w1)"
    and tok: "IssueToken (as_serviceAccountsSvc s) (sa_Name sa) w2 = (Inr token, w')"
    and cred: "cred = \<lparr>cr_Kind = ''ExecCredential'', cr_ApiVersion = ''client.authentication.k8s.io/v1beta1'',
      cr_Status = Some \<lparr>st_Token = tst_Token (tr_Status token),
        st_ExpirationTimestamp = tst_ExpirationTimestamp (tr_Status token)\<rparr>\<rparr>"
    by (rule AuthAccount_steps [OF assms(2)])
  then have "sa_Name sa = u" using UpsertServiceAccount_name(1) [OF assms(1)] by blast
  then show ?thesis using tok cred by (auto simp: single_call_eqs int64Ptr_def)
qed

lemma credentials_are_for_the_user_witness:
  "\<exists>cred v token. fst (AuthAccount example_auth ''ann'' example_world) = Inr cred \<and>
    sc_CreateToken mem_sa_client ''kerbernetes'' ''ann''
      \<lparr>tr_Spec = \<lparr>trs_Audiences = [env_TokenAudience example_env],
         trs_ExpirationSeconds = Some (env_TokenDuration example_env)\<rparr>,
       tr_Status = \<lparr>tst_Token = '''', tst_ExpirationTimestamp = 0\<rparr>\<rparr> v =
      (Inr token, snd (AuthAccount example_auth ''ann'' example_world))"
proof -
  have "\<exists>cred. AuthAccount example_auth ''ann'' example_world =
      (Inr cred, snd (AuthAccount example_auth ''ann'' example_world))"
    using example_login by (simp add: prod_eq_iff)
  then obtain cred where "AuthAccount example_auth ''ann'' example_world =
      (Inr cred, snd (AuthAccount example_auth ''ann'' example_world))" ..
  from credentials_are_for_the_user [OF _ this, of mem_V] this show ?thesis
    by (auto simp: mem_kube_api mem_K_sa dest: arg_cong [where f = fst])
qed

text \<open>C14. A login is refused with status 401 exactly when LDAP is enabled, the service account is
  there, and the directory does not give the user or the user's groups. Every other failure
  is a 500.\<close>

theorem login_refused_iff:
  "let no_groups = (env_LDAPEnabled (as_env s) \<and>
      (\<exists>sa w1. UpsertServiceAccount (as_serviceAccountsSvc s) u w = (Inr sa, w1) \<and>
        ((\<exists>e w2. GetUser (as_ldapSvc s) u w1 = (Inl e, w2)) \<or>
         (\<exists>user w2 e w3. GetUser (as_ldapSvc s) u w1 = (Inr user, w2) \<and>
            GetUserGroups (as_ldapSvc s) (entry_DN user) w2 = (Inl e, w3)))))
   in case fst (AuthAccount s u w) of
        Inl err \<Rightarrow> http_status err = (if no_groups then 401 else 500)
      | Inr credentials \<Rightarrow> \<not> no_groups"
  by (auto simp: AuthAccount_def ldapReconcilate_def Let_def split: prod.splits sum.splits if_splits)

text \<open>C15. A login that is refused, and every login while LDAP is disabled, leaves all
  ClusterRoleBindings and RoleBindings of the cluster as they were.\<close>

theorem refused_login_changes_no_binding:
  assumes "kube_api (svc_clientset (as_serviceAccountsSvc s)) V"
    and "ldap_keeps (v_CRB V) (ls_lib (as_ldapSvc s))" and "ldap_keeps (v_RB V) (ls_lib (as_ldapSvc s))"
    and "fst (AuthAccount s u w) = Inl (Error401Unauthorized msg) \<or> \<not> env_LDAPEnabled (as_env s)"
  shows "v_CRB V (snd (AuthAccount s u w)) = v_CRB V w \<and> v_RB V (snd (AuthAccount s u w)) = v_RB V w"
  using unreconciled_login_keeps [OF kube_apiD(8) [OF assms(1)] assms(2,4)]
    unreconciled_login_keeps [OF kube_apiD(9) [OF assms(1)] assms(3,4)] ..

lemma refused_login_changes_no_binding_witness:
  "v_CRB mem_V (snd (AuthAccount example_auth ''eve'' (granted_world [''dev'']))) = v_CRB mem_V (granted_world [''dev'']) \<and>
   v_RB mem_V (snd (AuthAccount example_auth ''eve'' (granted_world [''dev'']))) = v_RB mem_V (granted_world [''dev''])"
proof (rule refused_login_changes_no_binding)
  have "fst (AuthAccount example_auth ''eve'' (granted_world [''dev''])) =
      Inl (Error401Unauthorized ''failed to authenticate user on LDAP'')" by code_simp
  then show "fst (AuthAccount example_auth ''eve'' (granted_world [''dev''])) =
      Inl (Error401Unauthorized ''failed to authenticate user on LDAP'') \<or> \<not> env_LDAPEnabled (as_env example_auth)" ..
qed (simp_all add: example_hyps example_ldap_keeps)

section \<open>The endpoint\<close>

text \<open>C16. A request that the Kerberos authenticator does not accept, or whose ticket names no
  user, gets its refusal without the handler calling any service.\<close>

theorem unauthenticated_request_refused:
  assumes "Register L ctrl = Some operation" and "kr_Load L (env_KeytabPath (ac_env ctrl)) = Inr kt"
    and "kr_Authenticate L kt r w = (p, w1)" and "p = None \<or> p = Some ''''"
  shows "op_Handler operation ctx r w =
    (if p = None then Unauthenticated else Handled (Inl (Error403Forbidden ''unauthorized'')), w1)"
  using assms by (auto elim!: Register_handler simp: getKerberosAuth_def GetPrincipal_extended)

lemma unauthenticated_request_refused_witness:
  "op_Handler (the (Register (example_krb None) example_ctrl)) Map.empty () empty_world = (Unauthenticated, empty_world)"
proof -
  have "Register (example_krb None) example_ctrl = Some (the (Register (example_krb None) example_ctrl))"
    by (simp add: Register_def SPNEGO_def example_krb_def)
  from unauthenticated_request_refused [OF this, of "()" "()" empty_world None empty_world Map.empty]
  show ?thesis by (simp add: example_krb_def)
qed

text \<open>A request with an accepted ticket is a login of the ticket's user: the principal the
  handler reads is the authenticated one, whatever the context held before.\<close>

theorem authenticated_request_is_login:
  assumes "Register L ctrl = Some operation" and "kr_Load L (env_KeytabPath (ac_env ctrl)) = Inr kt"
    and "kr_Authenticate L kt r w = (Some u, w1)" and "u \<noteq> ''''"
  shows "op_Handler operation ctx r w =
    (case AuthAccount (ac_authSvc ctrl) u w1 of
       (Inl err, w2) \<Rightarrow> (Handled (Inl err), w2)
     | (Inr creds, w2) \<Rightarrow> (Handled (Inr \<lparr>out_Body = creds\<rparr>), w2))"
  using assms
  by (auto elim!: Register_handler simp: getKerberosAuth_def GetPrincipal_extended split: prod.splits sum.splits)

lemma authenticated_request_is_login_witness:
  "op_Handler (the (Register (example_krb (Some ''ann'')) example_ctrl))
      (Map.empty(PrincipalFromContextKey \<mapsto> AnyString ''root'')) () example_world =
    (case AuthAccount example_auth ''ann'' example_world of
       (Inl err, w2) \<Rightarrow> (Handled (Inl err), w2)
     | (Inr creds, w2) \<Rightarrow> (Handled (Inr \<lparr>out_Body = creds\<rparr>), w2))"
proof -
  have "Register (example_krb (Some ''ann'')) example_ctrl = Some (the (Register (example_krb (Some ''ann'')) example_ctrl))"
    by (simp add: Register_def SPNEGO_def example_krb_def)
  from authenticated_request_is_login [OF this, of "()" "()" example_world "''ann''" example_world
      "Map.empty(PrincipalFromContextKey \<mapsto> AnyString ''root'')"]
  show ?thesis by (simp add: example_krb_def example_ctrl_def)
qed

section \<open>Where the code falls short\<close>

text \<open>C18. The update branch for ClusterRoleBindings cannot work, because role references are
  immutable. With LDAP enabled, a login that has got the user's groups, by which an item asks
  for a ClusterRole while the binding under its name gives another role, fails with a 500 and
  leaves the binding as it was. So does every later one that is asked for the same, until
  the binding is removed by hand.\<close>

theorem cluster_role_change_fails:
  assumes "kube_api (svc_clientset (as_serviceAccountsSvc s)) V" and "wired s"
    and "rbac_refuses (cs_ClusterRoleBindings (svc_clientset (as_serviceAccountsSvc s))) (v_CRB V)"
    and "ldap_keeps (v_CRB V) (ls_lib (as_ldapSvc s))" and "env_LDAPEnabled (as_env s)"
    and "UpsertServiceAccount (as_serviceAccountsSvc s) u w = (Inr sa, w1)"
    and "GetUser (as_ldapSvc s) u w1 = (Inr user, w2)"
    and "GetUserGroups (as_ldapSvc s) (entry_DN user) w2 = (Inr groups, w3)"
    and "l \<in> set (cached (as_ldapGroupBindingsSvc s w3))" and "spec_LdapGroupDN (lgb_Spec l) \<in> set groups"
    and "i \<in> set (lgb_items l)" and "item_Kind i = ''ClusterRole''"
    and "v_CRB V w ((), GenBindingName u (item_Name i) (lgb_Name l)) = Some b"
    and "rr_Name (rb_RoleRef b) \<noteq> item_Name i"
  shows "fst (AuthAccount s u w) = Inl (Error500InternalServerError ''Failed to reconcile cluster role bindings'') \<and>
    v_CRB V (snd (AuthAccount s u w)) ((), GenBindingName u (item_Name i) (lgb_Name l)) = Some b"
proof -
  let ?ls = "filter (\<lambda>l. spec_LdapGroupDN (lgb_Spec l) \<in> set groups) (cached (as_ldapGroupBindingsSvc s w3))"
  have "(lgb_Name l, item_Name i) \<in> set (cluster_requests (all_items ?ls))"
    using assms(9-12) unfolding set_cluster_requests by auto
  from login_stuck [OF assms(1,3,2,4-8) this, of b] show ?thesis using assms(13,14) by (simp add: crb_key_def)
qed

definition other_role :: rbac_binding where
  "other_role = crb_object example_svc ''ann'' (''devs'', ''edit'')
     \<lparr>rb_ObjectMeta := \<lparr>om_Name = ''kerbernetes:ann:devs:view'', om_Namespace = '''', om_Labels = []\<rparr>\<rparr>"

lemma cluster_role_change_fails_witness:
  "fst (AuthAccount example_auth ''ann'' (example_world\<lparr>mem_CRB := [(((), ''kerbernetes:ann:devs:view''), other_role)]\<rparr>)) =
     Inl (Error500InternalServerError ''Failed to reconcile cluster role bindings'') \<and>
   v_CRB mem_V (snd (AuthAccount example_auth ''ann''
     (example_world\<lparr>mem_CRB := [(((), ''kerbernetes:ann:devs:view''), other_role)]\<rparr>))) ((), ''kerbernetes:ann:devs:view'') =
     Some other_role"
proof -
  let ?w = "example_world\<lparr>mem_CRB := [(((), ''kerbernetes:ann:devs:view''), other_role)]\<rparr>"
  have "fst (UpsertServiceAccount example_svc ''ann'' ?w) = Inr \<lparr>sa_ObjectMeta =
      \<lparr>om_Name = ''ann'', om_Namespace = ''kerbernetes'', om_Labels = []\<rparr>\<rparr>" by code_simp
  then obtain sa w1 where up: "UpsertServiceAccount example_svc ''ann'' ?w = (Inr sa, w1)" by (metis prod.collapse)
  obtain user w2 where gu: "GetUser (as_ldapSvc example_auth) ''ann'' w1 = (Inr user, w2)" "entry_DN user = ''uid=ann''"
    using example_groups(1) [of w1] by (metis Entry.select_convs(1) prod.collapse)
  obtain w3 where gg: "GetUserGroups (as_ldapSvc example_auth) (entry_DN user) w2 = (Inr [''cn=devs''], w3)"
    using example_groups(2) [of w2] gu(2) by (metis prod.collapse)
  have "mem_cache w3 = mem_cache ?w"
    using keeps_eq [OF sa_calls_keep(1) [OF example_ldap_keeps(4) [folded example_auth_simps(1)]] up]
      keeps_eq [OF GetUser_keeps(1) [OF example_ldap_keeps(3)] gu(1)]
      keeps_eq [OF GetUser_keeps(2) [OF example_ldap_keeps(3)] gg] by simp
  then have "cached (mem_cache w3) = [devs]"
    using initial_cached [of 0] by (simp add: example_world_def add_cached)
  moreover have "lgb_items devs = [view_item, edit_item ''dev'']" "spec_LdapGroupDN (lgb_Spec devs) = ''cn=devs''"
      "lgb_Name devs = ''devs''" "item_Kind view_item = ''ClusterRole''" "item_Name view_item = ''view''"
    by (simp_all add: devs_def new_lgb_def view_item_def)
  moreover have "v_CRB mem_V ?w ((), ''kerbernetes:ann:devs:view'') = Some other_role" "rr_Name (rb_RoleRef other_role) \<noteq> ''view''"
    by (simp_all add: mem_V_sel mem_look_def stamp_own other_role_def crb_object_def bindingObject_def)
  ultimately show ?thesis
    using cluster_role_change_fails [where s = example_auth and V = mem_V and w = ?w and b = other_role
        and l = devs and i = view_item, OF _ _ _ _ _ up gu(1) gg]
    by (simp add: example_hyps example_ldap_keeps mem_refuses GenBindingName_def example_env_def)
qed

text \<open>C19. An LdapGroupBinding that gives one role in two namespaces locks its users out: once both
  RoleBindings exist, which the first login brings about, every reconciliation fails, because
  the two bindings have one name and the map of existing bindings is keyed by name.\<close>

theorem role_in_two_namespaces_fails:
  assumes "kube_api (svc_clientset (as_serviceAccountsSvc s)) V" and "wired s"
    and "l \<in> set ls" and "i \<in> set (lgb_items l)" and "j \<in> set (lgb_items l)"
    and "item_Kind i = ''Role''" and "item_Kind j = ''Role''" and "item_Name i = item_Name j"
    and "item_Namespace i \<noteq> ''''" and "item_Namespace j \<noteq> ''''" and "item_Namespace i \<noteq> item_Namespace j"
    and "v_RB V w (item_Namespace i, GenBindingName u (item_Name i) (lgb_Name l)) = Some b"
    and "managed_for (as_serviceAccountsSvc s) u b"
    and "v_RB V w (item_Namespace j, GenBindingName u (item_Name j) (lgb_Name l)) = Some c"
    and "managed_for (as_serviceAccountsSvc s) u c"
  shows "fst (reconcileClusterAndRoleBindings s u ls w) \<noteq> Inr ()"
proof (rule reconcile_two_namespaces [OF assms(1,2), where b = b and c = c])
  show "(lgb_Name l, item_Namespace i, item_roleRef i) \<in> set (role_requests (all_items ls))"
    and "(lgb_Name l, item_Namespace j, item_roleRef j) \<in> set (role_requests (all_items ls))"
    using assms unfolding set_role_requests by blast+
qed (use assms in \<open>auto simp: rb_name_def rb_key_def item_roleRef_def\<close>)

lemma role_in_two_namespaces_fails_witness:
  "fst (reconcileClusterAndRoleBindings example_auth ''ann'' [devs_in [''a'', ''b'']] empty_world) = Inr () \<and>
   fst (reconcileClusterAndRoleBindings example_auth ''ann'' [devs_in [''a'', ''b'']] (granted_world [''a'', ''b''])) \<noteq> Inr ()"
proof
  show "fst (reconcileClusterAndRoleBindings example_auth ''ann'' [devs_in [''a'', ''b'']] empty_world) = Inr ()"
    by code_simp
  show "fst (reconcileClusterAndRoleBindings example_auth ''ann'' [devs_in [''a'', ''b'']]
      (granted_world [''a'', ''b''])) \<noteq> Inr ()"
    by (rule role_in_two_namespaces_fails [where V = mem_V and l = "devs_in [''a'', ''b'']"
          and i = "edit_item ''a''" and j = "edit_item ''b''" and b = "granted_rb ''a''" and c = "granted_rb ''b''"])
       (simp_all add: example_hyps devs_in_def new_lgb_def granted_RB GenBindingName_def granted_rb_def managed_stamp managed_rb_object)
qed



end
